theory Spec2Isabelle
  imports Main "HOL-Library.Finite_Map" "HOL-Library.AList"
begin

section \<open>Python values and exceptions\<close>

text \<open>
  The scripts are Python. An exception that leaves a function is a value \<open>Inl e\<close> of the
  result type \<open>py_error + 'a\<close>; a normal return is \<open>Inr v\<close>. A Python \<open>str\<close> is a
  \<open>string\<close>, one \<open>char\<close> per code point (code points below 256), and a Python \<open>int\<close>
  is an \<open>int\<close>.
\<close>

datatype py_error = KeyError | TypeError | ValueError | IndexError | FailedToProcessMapError

text \<open>\<open>d[k]\<close> on a dict read from JSON: a missing key raises KeyError.\<close>

definition subscript :: "'a option \<Rightarrow> py_error + 'a" where
  "subscript v = (case v of None \<Rightarrow> Inl KeyError | Some x \<Rightarrow> Inr x)"

text \<open>Sequencing of two steps, the second of which runs only if the first did not raise.\<close>

definition and_then :: "py_error + 'a \<Rightarrow> ('a \<Rightarrow> py_error + 'b) \<Rightarrow> py_error + 'b" where
  "and_then m f = (case m of Inl e \<Rightarrow> Inl e | Inr v \<Rightarrow> f v)"

definition apos :: string where
  "apos = [CHR 0x27]"

definition digit_char :: "nat \<Rightarrow> char" where
  "digit_char n = ''0123456789'' ! n"

text \<open>\<open>str(n)\<close> and \<open>'{0}'.format(n)\<close> for an int: decimal, no leading zeros.\<close>

fun str_nat :: "nat \<Rightarrow> string" where
  "str_nat n = (if n < 10 then [digit_char n] else str_nat (n div 10) @ [digit_char (n mod 10)])"

declare str_nat.simps [simp del]

definition str_int :: "int \<Rightarrow> string" where
  "str_int i = (if i < 0 then CHR ''-'' # str_nat (nat (- i)) else str_nat (nat i))"

text \<open>The class \<open>\d\<close> (on code points below 256 it is \<open>[0-9]\<close>) and \<open>int(s)\<close> on a run of digits.\<close>

definition is_digit :: "char \<Rightarrow> bool" where
  "is_digit c = (c \<in> set ''0123456789'')"

definition digit_val :: "char \<Rightarrow> int" where
  "digit_val c = int (length (takeWhile (\<lambda>d. d \<noteq> c) ''0123456789''))"

definition int_of_digits :: "string \<Rightarrow> int" where
  "int_of_digits s = foldl (\<lambda>acc c. 10 * acc + digit_val c) 0 s"

section \<open>Date format (map\_funcs.py)\<close>

text \<open>
  \<open>DATE_FORMAT_RE.match(s)\<close>. The pattern is anchored at the start only. The year group
  \<open>\d{3}\d+\<close> is greedy and is followed by a literal \<open>-\<close>, so it is the whole leading run of
  digits, of length at least 4. The month is \<open>0[1-9]\<close> or \<open>1[0-2]\<close>, the day \<open>0[1-9]\<close>,
  \<open>[1-2][0-9]\<close> or \<open>3[0-1]\<close>. The trailing time group is optional and the pattern has no end
  anchor: it never decides the match nor the three named groups. The result is the triple
  of the groups year, month, day.
\<close>

definition month_group :: "char \<Rightarrow> char \<Rightarrow> bool" where
  "month_group a b = ((a = CHR ''0'' \<and> b \<in> set ''123456789'') \<or> (a = CHR ''1'' \<and> b \<in> set ''012''))"

definition day_group :: "char \<Rightarrow> char \<Rightarrow> bool" where
  "day_group a b = ((a = CHR ''0'' \<and> b \<in> set ''123456789'')
     \<or> (a \<in> set ''12'' \<and> b \<in> set ''0123456789'')
     \<or> (a = CHR ''3'' \<and> b \<in> set ''01''))"

definition DATE_FORMAT_RE :: "string \<Rightarrow> (string \<times> string \<times> string) option" where
  "DATE_FORMAT_RE s =
     (let year = takeWhile is_digit s in
      if length year < 4 then None
      else case dropWhile is_digit s of
             s1 # m1 # m2 # s2 # d1 # d2 # rest \<Rightarrow>
               if s1 = CHR ''-'' \<and> month_group m1 m2 \<and> s2 = CHR ''-'' \<and> day_group d1 d2
               then Some (year, [m1, m2], [d1, d2]) else None
           | _ \<Rightarrow> None)"

definition convert_map_info_date_to_yyyy_mm_dd :: "string \<Rightarrow> py_error + string" where
  "convert_map_info_date_to_yyyy_mm_dd map_info_date =
     (case DATE_FORMAT_RE map_info_date of
        None \<Rightarrow> Inl ValueError
      | Some (year, month, day) \<Rightarrow> Inr (year @ ''-'' @ month @ ''-'' @ day))"

text \<open>
  The accepted date pattern in the words of the specification: a year of at least four
  digits, a month 01 to 12, a day 01 to 31, separated by hyphens, then anything (an
  optional time, or any other text).
\<close>

definition spec_months :: "string list" where
  "spec_months = [''01'', ''02'', ''03'', ''04'', ''05'', ''06'', ''07'', ''08'', ''09'', ''10'', ''11'', ''12'']"

definition spec_days :: "string list" where
  "spec_days = [''01'', ''02'', ''03'', ''04'', ''05'', ''06'', ''07'', ''08'', ''09'', ''10'',
     ''11'', ''12'', ''13'', ''14'', ''15'', ''16'', ''17'', ''18'', ''19'', ''20'',
     ''21'', ''22'', ''23'', ''24'', ''25'', ''26'', ''27'', ''28'', ''29'', ''30'', ''31'']"

definition spec_date_shape :: "string \<Rightarrow> string \<Rightarrow> string \<Rightarrow> string \<Rightarrow> bool" where
  "spec_date_shape s y m d =
     (4 \<le> length y \<and> list_all is_digit y \<and> m \<in> set spec_months \<and> d \<in> set spec_days
      \<and> y @ ''-'' @ m @ ''-'' @ d = take (length y + 6) s)"

section \<open>The MapInfo document\<close>

text \<open>
  The JSON document printed by the map inspection tool. Every key the scripts read with
  \<open>d[k]\<close> is an optional field: \<open>None\<close> is a missing key. Values have the JSON types the
  tool gives them. The \<open>hq\<close> value is an array of objects, or JSON \<open>null\<close>.
\<close>

record Author =
  author_name :: "string option"

record MapSize =
  mapsize_w :: "int option"
  mapsize_h :: "int option"

record Counts =
  min_count :: "int option"

record PlayerCounts =
  resourceExtractors :: "Counts option"
  powerGenerators :: "Counts option"
  regFactories :: "Counts option"
  vtolFactories :: "Counts option"
  cyborgFactories :: "Counts option"
  researchCenters :: "Counts option"

record HqEntry =
  hq_x :: "int option"
  hq_y :: "int option"

datatype hq_json = HqNull | HqList "HqEntry list"

record MapInfo =
  name :: "string option"
  map_type :: "string option"
  players :: "int option"
  tileset :: "string option"
  license :: "string option"
  author :: "Author option"
  additionalAuthors :: "Author list option"
  created :: "string option"
  mapsize :: "MapSize option"
  oilWells :: "int option"
  player :: "PlayerCounts option"
  hq :: "hq_json option"
  mapMod :: "bool option"
  modTypes :: "string list option"
  levelFormat :: "string option"
  mapFormat :: "string option"
  flatMapPackage :: "bool option"

section \<open>Metadata validator (map\_funcs.py)\<close>

record MapInfoValidationResult =
  warnings :: "string list"
  errors :: "string list"
  errors_non_fatal :: "string list"
  passedFormatChecks :: bool

record ValidateMapWarningOptions =
  short_name_warning :: bool
  missing_created_date_warning :: bool
  zero_oil_warning :: bool
  player_structure_zero_warnings :: bool
  mods_texture_overrides_warning :: bool
  mods_auto_strip_warning :: bool
  mods_no_modtypes_warning :: bool
  format_warnings :: bool

text \<open>The default \<open>ValidateMapWarningOptions()\<close>: every warning enabled.\<close>

definition default_warning_options :: ValidateMapWarningOptions where
  "default_warning_options = \<lparr>short_name_warning = True, missing_created_date_warning = True,
     zero_oil_warning = True, player_structure_zero_warnings = True,
     mods_texture_overrides_warning = True, mods_auto_strip_warning = True,
     mods_no_modtypes_warning = True, format_warnings = True\<rparr>"

definition MAX_SUGGESTED_MAP_NAME_LENGTH :: int where
  "MAX_SUGGESTED_MAP_NAME_LENGTH = 30"

definition MAX_ALLOWED_MAP_NAME_LENGTH :: int where
  "MAX_ALLOWED_MAP_NAME_LENGTH = 60"

definition MAX_ALLOWED_AUTHOR_NAME_LENGTH :: int where
  "MAX_ALLOWED_AUTHOR_NAME_LENGTH = 60"

text \<open>
  \<open>NAME_FORMAT_RE.match(s)\<close> for the pattern \<open>^[A-Za-z0-9\-_]+$\<close>. In Python \<open>$\<close> matches
  at the end of the string and also just before a newline that ends the string.
\<close>

definition name_char :: "char \<Rightarrow> bool" where
  "name_char c = (c \<in> set ''ABCDEFGHIJKLMNOPQRSTUVWXYZabcdefghijklmnopqrstuvwxyz0123456789-_'')"

definition NAME_FORMAT_RE :: "string \<Rightarrow> bool" where
  "NAME_FORMAT_RE s =
     (let body = (if s \<noteq> [] \<and> last s = CHR 0x0A then butlast s else s)
      in body \<noteq> [] \<and> list_all name_char body)"

text \<open>The three lists the validator appends to: \<open>list.append\<close> with one argument.\<close>

definition warn :: "MapInfoValidationResult \<Rightarrow> string \<Rightarrow> MapInfoValidationResult" where
  "warn st msg = st\<lparr>warnings := warnings st @ [msg]\<rparr>"

definition err :: "MapInfoValidationResult \<Rightarrow> string \<Rightarrow> MapInfoValidationResult" where
  "err st msg = st\<lparr>errors := errors st @ [msg]\<rparr>"

definition err_non_fatal :: "MapInfoValidationResult \<Rightarrow> string \<Rightarrow> MapInfoValidationResult" where
  "err_non_fatal st msg = st\<lparr>errors_non_fatal := errors_non_fatal st @ [msg]\<rparr>"

text \<open>\<open>sep.join(xs)\<close>.\<close>

fun join :: "string \<Rightarrow> string list \<Rightarrow> string" where
  "join sep [] = []"
| "join sep [x] = x"
| "join sep (x # y # ys) = x @ sep @ join sep (y # ys)"

text \<open>Lines 55 to 71: the name.\<close>

definition check_name ::
  "ValidateMapWarningOptions \<Rightarrow> MapInfo \<Rightarrow> MapInfoValidationResult \<Rightarrow> py_error + MapInfoValidationResult" where
  "check_name warning_options map_info_json st =
     and_then (subscript (name map_info_json)) (\<lambda>n.
       if n = [] then Inr st
       else
         let name_length = int (length n);
             st1 = (if name_length < 6 \<and> short_name_warning warning_options
                    then warn st (apos @ ''name' is less than 6 chars - consider using a longer name: ('' @ apos @ n @ apos @ '')'')
                    else st);
             st2 = (if name_length > MAX_ALLOWED_MAP_NAME_LENGTH
                    then err st1 (apos @ ''name' is > '' @ str_int MAX_ALLOWED_MAP_NAME_LENGTH
                           @ '' chars - use a shorter name: ('' @ apos @ n @ apos @ '')'')
                    else if name_length > MAX_SUGGESTED_MAP_NAME_LENGTH
                    then warn st1 (apos @ ''name' is > '' @ str_int MAX_SUGGESTED_MAP_NAME_LENGTH
                           @ '' chars - consider using a shorter name (longer names may be truncated): (''
                           @ apos @ n @ apos @ '')'')
                    else st1);
             st3 = (if \<not> NAME_FORMAT_RE n
                    then err st2 (apos @ ''name' has unsupported characters - for compatibility, please stick to: A-Z, a-z, 0-9, '-', '_': (''
                           @ apos @ n @ apos @ '')'')
                    else st2)
         in Inr st3)"

text \<open>Lines 73 to 85: type, players, tileset.\<close>

definition allowed_types :: "string list" where
  "allowed_types = [''skirmish'']"

definition allowed_tilesets :: "string list" where
  "allowed_tilesets = [''arizona'', ''urban'', ''rockies'']"

text \<open>\<open>str(xs)\<close> of a list of strings, as \<open>format\<close> prints it.\<close>

definition str_list :: "string list \<Rightarrow> string" where
  "str_list xs = ''['' @ join '', '' (map (\<lambda>x. apos @ x @ apos) xs) @ '']''"

definition check_type :: "MapInfo \<Rightarrow> MapInfoValidationResult \<Rightarrow> py_error + MapInfoValidationResult" where
  "check_type map_info_json st =
     and_then (subscript (map_type map_info_json)) (\<lambda>t.
       Inr (if t \<notin> set allowed_types
            then err st (apos @ ''type' ('' @ apos @ t @ apos @ '') is not one of the allowed values: '' @ str_list allowed_types)
            else st))"

definition check_players :: "MapInfo \<Rightarrow> MapInfoValidationResult \<Rightarrow> py_error + MapInfoValidationResult" where
  "check_players map_info_json st =
     and_then (subscript (players map_info_json)) (\<lambda>p.
       Inr (if \<not> (2 \<le> p \<and> p < 11)
            then err st (apos @ ''players' ('' @ apos @ str_int p @ apos @ '') is not an allowed value'')
            else st))"

definition check_tileset :: "MapInfo \<Rightarrow> MapInfoValidationResult \<Rightarrow> py_error + MapInfoValidationResult" where
  "check_tileset map_info_json st =
     and_then (subscript (tileset map_info_json)) (\<lambda>t.
       Inr (if t \<notin> set allowed_tilesets
            then err st (apos @ ''tileset' ('' @ apos @ t @ apos @ '') is not one of the allowed values: '' @ str_list allowed_tilesets)
            else st))"

text \<open>
  Lines 87 to 100: the license. The SPDX library is outside the repository: its verdict on
  a license string is a parameter, \<open>ExpressionError e\<close> when \<open>licensing.parse\<close> raises (with
  the text of the exception), \<open>Parsed b\<close> when it parses, \<open>b\<close> telling whether the
  expression is equivalent to one of \<open>expected_license_expressions\<close>. The second component
  of the result is \<open>has_valid_license\<close>.
\<close>

datatype license_verdict = ExpressionError string | Parsed bool

definition expected_license_expressions :: "string list" where
  "expected_license_expressions = [''CC0-1.0'', ''GPL-2.0-or-later'',
     ''CC-BY-3.0 OR GPL-2.0-or-later'', ''CC-BY-SA-3.0 OR GPL-2.0-or-later'',
     ''CC-BY-4.0 OR GPL-2.0-or-later'', ''CC-BY-SA-4.0 OR GPL-2.0-or-later'']"

definition check_license ::
  "(string \<Rightarrow> license_verdict) \<Rightarrow> MapInfo \<Rightarrow> MapInfoValidationResult \<Rightarrow> MapInfoValidationResult \<times> bool" where
  "check_license licensing map_info_json st =
     (case license map_info_json of
        None \<Rightarrow> (err st ''Missing required 'license' key'', False)
      | Some l \<Rightarrow>
          (case licensing l of
             ExpressionError e \<Rightarrow>
               (err st (apos @ ''license' value (\"'' @ l @ ''\") failed SPDX license expression parsing: '' @ e), False)
           | Parsed equivalent \<Rightarrow>
               if \<not> equivalent
               then (err st (apos @ ''license' value (\"'' @ l @ ''\") is not in the list of expected licenses: [''
                       @ join '', '' (map (\<lambda>w. ''\"'' @ w @ ''\"'') expected_license_expressions) @ '']''), False)
               else (st, True)))"

text \<open>Lines 102 to 120: the author.\<close>

definition check_author :: "bool \<Rightarrow> MapInfo \<Rightarrow> MapInfoValidationResult \<Rightarrow> MapInfoValidationResult" where
  "check_author has_valid_license map_info_json st =
     (case author map_info_json of
        None \<Rightarrow>
          if additionalAuthors map_info_json \<noteq> None
          then err st (''Missing required 'author' key, but has 'additionalAuthors'' @ apos)
          else if has_valid_license
          then err_non_fatal st ''Missing 'author' key''
          else err st ''Missing required 'author' key''
      | Some a \<Rightarrow>
          (case author_name a of
             None \<Rightarrow> err st ''Missing required 'name' key under 'author' key''
           | Some an \<Rightarrow>
               let author_name_length = int (length an) in
               if author_name_length = 0
               then warn st ''Empty 'name' value under 'author' key''
               else if author_name_length > MAX_ALLOWED_AUTHOR_NAME_LENGTH
               then err st (apos @ ''author.name' is > '' @ str_int MAX_ALLOWED_AUTHOR_NAME_LENGTH
                      @ '' chars - use a shorter author name'')
               else st))"

text \<open>
  \<open>datetime(year, month, day)\<close> of the standard library: ValueError unless the year is in
  1 to 9999, the month in 1 to 12 and the day exists in that month. The value kept is the
  proleptic Gregorian ordinal of the date (day 1 is 0001-01-01).
\<close>

definition is_leap :: "int \<Rightarrow> bool" where
  "is_leap y = (y mod 4 = 0 \<and> (y mod 100 \<noteq> 0 \<or> y mod 400 = 0))"

definition days_in_month :: "int \<Rightarrow> int \<Rightarrow> int" where
  "days_in_month y m =
     (if m = 2 then (if is_leap y then 29 else 28)
      else if m = 4 \<or> m = 6 \<or> m = 9 \<or> m = 11 then 30 else 31)"

definition days_before_year :: "int \<Rightarrow> int" where
  "days_before_year y = (y - 1) * 365 + (y - 1) div 4 - (y - 1) div 100 + (y - 1) div 400"

definition days_before_month :: "int \<Rightarrow> int \<Rightarrow> int" where
  "days_before_month y m =
     [0, 31, 59, 90, 120, 151, 181, 212, 243, 273, 304, 334] ! nat (m - 1)
       + (if m > 2 \<and> is_leap y then 1 else 0)"

definition py_datetime :: "int \<Rightarrow> int \<Rightarrow> int \<Rightarrow> py_error + int" where
  "py_datetime y m d =
     (if 1 \<le> y \<and> y \<le> 9999 \<and> 1 \<le> m \<and> m \<le> 12 \<and> 1 \<le> d \<and> d \<le> days_in_month y m
      then Inr (days_before_year y + days_before_month y m + d)
      else Inl ValueError)"

text \<open>
  Lines 122 to 137: the created date. \<open>today\<close> is the ordinal of the date of
  \<open>datetime.now()\<close>; the created datetime is at midnight, so \<open>delta_now.days\<close> is the
  difference of the two ordinals. On lines 130 and 132 \<open>errors.append\<close> is called with two
  arguments, which raises TypeError.
\<close>

definition check_created ::
  "int \<Rightarrow> ValidateMapWarningOptions \<Rightarrow> MapInfo \<Rightarrow> MapInfoValidationResult \<Rightarrow> py_error + MapInfoValidationResult" where
  "check_created today warning_options map_info_json st =
     (case created map_info_json of
        Some c \<Rightarrow>
          (case DATE_FORMAT_RE c of
             Some (year, month, day) \<Rightarrow>
               and_then (py_datetime (int_of_digits year) (int_of_digits month) (int_of_digits day))
                 (\<lambda>created_datetime.
                    let delta_now_days = today - created_datetime in
                    if delta_now_days < - 1 then Inl TypeError
                    else if int_of_digits year < 1999 then Inl TypeError
                    else Inr st)
           | None \<Rightarrow> Inr (err st (''Invalid 'created' date format: '' @ c)))
      | None \<Rightarrow>
          Inr (if missing_created_date_warning warning_options then warn st ''Missing 'created' date'' else st))"

text \<open>Lines 139 to 146: the map size.\<close>

definition check_mapsize :: "MapInfo \<Rightarrow> MapInfoValidationResult \<Rightarrow> py_error + MapInfoValidationResult" where
  "check_mapsize map_info_json st =
     and_then (subscript (mapsize map_info_json)) (\<lambda>ms.
     and_then (subscript (mapsize_w ms)) (\<lambda>map_width.
     and_then (subscript (mapsize_h ms)) (\<lambda>map_height.
       let st1 = (if \<not> (1 \<le> map_width \<and> map_width \<le> 256)
                  then err st (''Invalid 'mapsize.w' ('' @ apos @ str_int map_width @ apos @ '')'') else st);
           st2 = (if \<not> (1 \<le> map_height \<and> map_height \<le> 256)
                  then err st1 (''Invalid 'mapsize.h' ('' @ apos @ str_int map_height @ apos @ '')'') else st1)
       in Inr st2)))"

text \<open>
  \<open>map_info_json['player'][k]['min']\<close>; lines 148 to 151: oil. The \<open>or\<close> is evaluated
  left to right and stops at the first true operand.
\<close>

definition player_min :: "MapInfo \<Rightarrow> (PlayerCounts \<Rightarrow> Counts option) \<Rightarrow> py_error + int" where
  "player_min map_info_json k =
     and_then (subscript (player map_info_json)) (\<lambda>pc.
     and_then (subscript (k pc)) (\<lambda>c. subscript (min_count c)))"

definition check_oil ::
  "ValidateMapWarningOptions \<Rightarrow> MapInfo \<Rightarrow> MapInfoValidationResult \<Rightarrow> py_error + MapInfoValidationResult" where
  "check_oil warning_options map_info_json st =
     and_then (subscript (oilWells map_info_json)) (\<lambda>oil.
       if oil > 0 then Inr st
       else and_then (player_min map_info_json resourceExtractors) (\<lambda>re_min.
         Inr (if \<not> re_min > 0 \<and> zero_oil_warning warning_options
              then warn st (apos @ ''oilWells' is 0 *AND* at least one player has no starting resourceExtractors - did you forget to add oil resources / derricks?'')
              else st)))"

text \<open>
  Lines 153 to 162: the HQ of each player. \<open>player_hqs[i]\<close> raises TypeError on \<open>null\<close>
  and IndexError past the end of the array; the \<open>try\<close> around the body of the loop catches
  both, and the \<open>except\<close> branch appends the same warning. No warning option is read.
\<close>

definition hq_subscript :: "hq_json \<Rightarrow> int \<Rightarrow> py_error + HqEntry" where
  "hq_subscript player_hqs i =
     (case player_hqs of
        HqNull \<Rightarrow> Inl TypeError
      | HqList xs \<Rightarrow>
          if 0 \<le> i
          then (if i < int (length xs) then Inr (xs ! nat i) else Inl IndexError)
          else (if - i \<le> int (length xs) then Inr (xs ! nat (int (length xs) + i))
                else Inl IndexError))"

definition hq_message :: "int \<Rightarrow> string" where
  "hq_message i = ''player '' @ str_int i @ '' has no HQ - did you forget to add an HQ / command center?''"

definition hq_iteration :: "hq_json \<Rightarrow> int \<Rightarrow> MapInfoValidationResult \<Rightarrow> py_error + MapInfoValidationResult" where
  "hq_iteration player_hqs i st =
     (case hq_subscript player_hqs i of
        Inr e \<Rightarrow> Inr (if hq_x e = None \<or> hq_y e = None then warn st (hq_message i) else st)
      | Inl ex \<Rightarrow> if ex = IndexError \<or> ex = TypeError then Inr (warn st (hq_message i)) else Inl ex)"

fun hq_loop :: "hq_json \<Rightarrow> int list \<Rightarrow> MapInfoValidationResult \<Rightarrow> py_error + MapInfoValidationResult" where
  "hq_loop player_hqs [] st = Inr st"
| "hq_loop player_hqs (i # is) st = and_then (hq_iteration player_hqs i st) (hq_loop player_hqs is)"

definition check_hq :: "MapInfo \<Rightarrow> MapInfoValidationResult \<Rightarrow> py_error + MapInfoValidationResult" where
  "check_hq map_info_json st =
     and_then (subscript (players map_info_json)) (\<lambda>max_players.
       if max_players \<ge> 2
       then and_then (subscript (hq map_info_json)) (\<lambda>player_hqs.
              hq_loop player_hqs [2 .. max_players - 1] st)
       else Inr st)"

text \<open>Lines 164 to 175: structures of each player. The \<open>and\<close> stops at the first false operand.\<close>

definition check_structures ::
  "ValidateMapWarningOptions \<Rightarrow> MapInfo \<Rightarrow> MapInfoValidationResult \<Rightarrow> py_error + MapInfoValidationResult" where
  "check_structures warning_options map_info_json st =
     and_then (player_min map_info_json powerGenerators) (\<lambda>pg.
       let st1 = (if pg \<le> 0 \<and> player_structure_zero_warnings warning_options
                  then warn st ''At least one player has no starting 'powerGenerators' on map?'' else st)
       in
       and_then (player_min map_info_json regFactories) (\<lambda>rf.
       and_then (if rf \<le> 0
                 then and_then (player_min map_info_json vtolFactories) (\<lambda>vf.
                        if vf \<le> 0
                        then and_then (player_min map_info_json cyborgFactories) (\<lambda>cf. Inr (cf \<le> 0))
                        else Inr False)
                 else Inr False) (\<lambda>no_factories.
       let st2 = (if no_factories \<and> player_structure_zero_warnings warning_options
                  then warn st1 ''At least one player has no starting '*Factories' on map?'' else st1)
       in
       and_then (player_min map_info_json researchCenters) (\<lambda>rc.
         Inr (if rc \<le> 0 \<and> player_structure_zero_warnings warning_options
              then warn st2 ''At least one player has no starting 'researchCenters' on map?'' else st2)))))"

text \<open>Lines 177 to 200: map mods.\<close>

definition check_mods ::
  "ValidateMapWarningOptions \<Rightarrow> MapInfo \<Rightarrow> MapInfoValidationResult \<Rightarrow> py_error + MapInfoValidationResult" where
  "check_mods warning_options map_info_json st =
     and_then (subscript (mapMod map_info_json)) (\<lambda>map_mod.
       if map_mod
       then (case modTypes map_info_json of
               Some mts \<Rightarrow>
                 let both = (''gamemodels'' \<in> set mts \<and> ''datasets'' \<in> set mts);
                     st1 = (if both
                            then err st ''Conversion Error: Unable to auto-strip mods, as map-mod contains both 'gamemodels' and 'datasets' modifications''
                            else st);
                     can_strip_mods = (\<not> both);
                     st2 = (if ''textures'' \<in> set mts \<and> mods_texture_overrides_warning warning_options
                            then warn st1 ''Conversion Warning: Map-mod contains texture overrides'' else st1);
                     st3 = (if can_strip_mods \<and> mods_auto_strip_warning warning_options
                            then warn st2 (''Conversion Warning: Will auto-strip the following mods (please review): ''
                                   @ join '','' mts)
                            else st2)
                 in Inr st3
             | None \<Rightarrow>
                 Inr (if mods_no_modtypes_warning warning_options
                      then warn st ''Conversion Warning: mapMod is True, but no modTypes array? (Please review!)''
                      else st))
       else Inr st)"

text \<open>
  Lines 202 to 232: the format checks. A failing check clears \<open>passedFormatChecks\<close> and
  goes to the errors when the checks are enforced, else to the warnings when those are on.
\<close>

definition allowed_levelformats :: "string list" where
  "allowed_levelformats = [''json'']"

definition allowed_mapformats :: "string list" where
  "allowed_mapformats = [''script'', ''jsonv2'']"

definition format_finding ::
  "bool \<Rightarrow> ValidateMapWarningOptions \<Rightarrow> MapInfoValidationResult \<Rightarrow> string \<Rightarrow> MapInfoValidationResult" where
  "format_finding enforce_format_checks warning_options st msg =
     (let st1 = st\<lparr>passedFormatChecks := False\<rparr>
      in if enforce_format_checks then err st1 msg
         else if format_warnings warning_options then warn st1 msg else st1)"

definition check_formats ::
  "bool \<Rightarrow> ValidateMapWarningOptions \<Rightarrow> MapInfo \<Rightarrow> MapInfoValidationResult \<Rightarrow> py_error + MapInfoValidationResult" where
  "check_formats enforce_format_checks warning_options map_info_json st =
     and_then (subscript (levelFormat map_info_json)) (\<lambda>lf.
       let st1 = (if lf \<notin> set allowed_levelformats
                  then format_finding enforce_format_checks warning_options st
                         (''Map level file format must be modern ('' @ join '', '' allowed_levelformats @ '')'')
                  else st)
       in
       and_then (subscript (mapFormat map_info_json)) (\<lambda>mf.
       let st2 = (if mf \<notin> set allowed_mapformats
                  then format_finding enforce_format_checks warning_options st1
                         (''Map format must be modern ('' @ join '', '' allowed_mapformats @ '')'')
                  else st1)
       in
       and_then (subscript (flatMapPackage map_info_json)) (\<lambda>flat.
         Inr (if \<not> flat
              then format_finding enforce_format_checks warning_options st2 (''Map must be a 'flatMapPackage'' @ apos)
              else st2))))"

text \<open>
  \<open>validate_map_info(map_info_json, enforce_format_checks, warning_options)\<close>: the checks in
  the order of the source, on the three lists, which start empty.
\<close>

definition validate_map_info ::
  "(string \<Rightarrow> license_verdict) \<Rightarrow> int \<Rightarrow> MapInfo \<Rightarrow> bool \<Rightarrow> ValidateMapWarningOptions
     \<Rightarrow> py_error + MapInfoValidationResult" where
  "validate_map_info licensing today map_info_json enforce_format_checks warning_options =
     and_then (check_name warning_options map_info_json
                 \<lparr>warnings = [], errors = [], errors_non_fatal = [], passedFormatChecks = True\<rparr>) (\<lambda>st1.
     and_then (check_type map_info_json st1) (\<lambda>st2.
     and_then (check_players map_info_json st2) (\<lambda>st3.
     and_then (check_tileset map_info_json st3) (\<lambda>st4.
     let (st5, has_valid_license) = check_license licensing map_info_json st4;
         st6 = check_author has_valid_license map_info_json st5
     in
     and_then (check_created today warning_options map_info_json st6) (\<lambda>st7.
     and_then (check_mapsize map_info_json st7) (\<lambda>st8.
     and_then (check_oil warning_options map_info_json st8) (\<lambda>st9.
     and_then (check_hq map_info_json st9) (\<lambda>st10.
     and_then (check_structures warning_options map_info_json st10) (\<lambda>st11.
     and_then (check_mods warning_options map_info_json st11) (\<lambda>st12.
     check_formats enforce_format_checks warning_options map_info_json st12))))))))))"

text \<open>
  A document that meets every publication rule: the input of the examples below, which
  change one key of it at a time.
\<close>

definition sample_counts :: "Counts option" where
  "sample_counts = Some \<lparr>min_count = Some 1\<rparr>"

definition sample_map_info :: MapInfo where
  "sample_map_info = \<lparr>name = Some ''Rush_Remake'', map_type = Some ''skirmish'', players = Some 4,
     tileset = Some ''arizona'', license = Some ''CC0-1.0'',
     author = Some \<lparr>author_name = Some ''NoQ''\<rparr>, additionalAuthors = None,
     created = Some ''2020-05-17'',
     mapsize = Some \<lparr>mapsize_w = Some 64, mapsize_h = Some 64\<rparr>, oilWells = Some 8,
     player = Some \<lparr>resourceExtractors = sample_counts, powerGenerators = sample_counts,
        regFactories = sample_counts, vtolFactories = sample_counts,
        cyborgFactories = sample_counts, researchCenters = sample_counts\<rparr>,
     hq = Some (HqList (replicate 4 \<lparr>hq_x = Some 10, hq_y = Some 10\<rparr>)),
     mapMod = Some False, modTypes = None, levelFormat = Some ''json'',
     mapFormat = Some ''script'', flatMapPackage = Some True\<rparr>"

text \<open>A licensing library that parses the string \<open>CC0-1.0\<close> as an expected license and rejects the rest.\<close>

definition sample_licensing :: "string \<Rightarrow> license_verdict" where
  "sample_licensing l = (if l = ''CC0-1.0'' then Parsed True else Parsed False)"

text \<open>The ordinal of 2023-06-01, a day on which the examples run.\<close>

definition sample_today :: int where
  "sample_today = 738672"

text \<open>Every warning option switched off.\<close>

definition no_warning_options :: ValidateMapWarningOptions where
  "no_warning_options = \<lparr>short_name_warning = False, missing_created_date_warning = False,
     zero_oil_warning = False, player_structure_zero_warnings = False,
     mods_texture_overrides_warning = False, mods_auto_strip_warning = False,
     mods_no_modtypes_warning = False, format_warnings = False\<rparr>"

text \<open>
  The HQ rule in the words of the specification: player slot \<open>i\<close> lacks HQ coordinates when
  the array is missing (\<open>null\<close>), too short to have a slot \<open>i\<close>, or the slot has no \<open>x\<close> or no
  \<open>y\<close>.
\<close>

definition spec_slot_lacks_hq :: "hq_json \<Rightarrow> int \<Rightarrow> bool" where
  "spec_slot_lacks_hq h i =
     (case h of
        HqNull \<Rightarrow> True
      | HqList xs \<Rightarrow> int (length xs) \<le> i \<or> hq_x (xs ! nat i) = None \<or> hq_y (xs ! nat i) = None)"

section \<open>Metadata normalizer: the author list (map\_funcs.py)\<close>

text \<open>
  Lines 249 to 261 of \<open>convert_map_info_json_to_map_database_json\<close>, which compute the
  \<open>author\<close> key of the output: absent, one name, or a list of names. \<open>seen_authors\<close> starts
  as \<open>set(name)\<close> of the primary author's name, a string: the set of its characters, each a
  string of length one.
\<close>

datatype author_output = AuthorName string | AuthorList "string list"

fun author_loop :: "Author list \<Rightarrow> string list \<Rightarrow> string set \<Rightarrow> py_error + string list" where
  "author_loop [] author_list seen_authors = Inr author_list"
| "author_loop (a # as) author_list seen_authors =
     and_then (subscript (author_name a)) (\<lambda>an.
       if length an > 0 \<and> an \<notin> seen_authors
       then author_loop as (author_list @ [an]) (insert an seen_authors)
       else author_loop as author_list seen_authors)"

definition convert_author :: "MapInfo \<Rightarrow> py_error + author_output option" where
  "convert_author map_info_json =
     (case additionalAuthors map_info_json of
        None \<Rightarrow>
          (case author map_info_json of
             None \<Rightarrow> Inr None
           | Some a \<Rightarrow> and_then (subscript (author_name a)) (\<lambda>an. Inr (Some (AuthorName an))))
      | Some additional \<Rightarrow>
          and_then (subscript (author map_info_json)) (\<lambda>a.
          and_then (subscript (author_name a)) (\<lambda>an.
          and_then (author_loop additional [an] (set (map (\<lambda>c. [c]) an))) (\<lambda>author_list.
            Inr (Some (AuthorList author_list))))))"

text \<open>A MapInfo with the given primary author and additional authors.\<close>

definition with_authors :: "string \<Rightarrow> string list \<Rightarrow> MapInfo" where
  "with_authors primary additional =
     sample_map_info\<lparr>author := Some \<lparr>author_name = Some primary\<rparr>,
       additionalAuthors := Some (map (\<lambda>n. \<lparr>author_name = Some n\<rparr>) additional)\<rparr>"

section \<open>Database indexer (update\_map\_db.py)\<close>

text \<open>
  An index page as it is stored in its JSON file, with the records of type \<open>'m\<close> in \<open>maps\<close>,
  and the configuration of the public URLs. The asset URL templates are copied, never
  read: their type \<open>'t\<close> is left open.
\<close>

record ('m, 't) IndexPage =
  page_type :: string
  page_id :: string
  version :: string
  links_self :: string
  links_prev :: "string option"
  links_next :: "string option"
  page_asset_url_templates :: 't
  maps :: "'m list"

record 't MapDBPublicURLPaths =
  map_db_data_root_relurl_components :: "string list"
  asset_url_templates :: 't

record VersionsFile =
  versions_type :: string
  versions_id :: string
  versions :: "(string \<times> string) list"

text \<open>
  The files under the data root: the file of page \<open>n\<close> is the one at
  \<open>generate_full_index_page_path(map_db_data_root, n)\<close> (a different path for each \<open>n\<close>), so
  the page files are a finite map from page numbers; and \<open>v1/versions.json\<close>.
\<close>

record ('m, 't) MapDatabase =
  index_pages :: "(nat, ('m, 't) IndexPage) fmap"
  versions_json :: "VersionsFile option"

definition DEFAULT_MAX_MAPS_PER_INDEX_FILE :: int where
  "DEFAULT_MAX_MAPS_PER_INDEX_FILE = 3000"

definition prepend_data_root_relurl_components :: "'t MapDBPublicURLPaths \<Rightarrow> string list \<Rightarrow> string list" where
  "prepend_data_root_relurl_components map_db_urls url_components =
     map_db_data_root_relurl_components map_db_urls @ url_components"

definition generate_full_index_page_path_components :: "nat \<Rightarrow> py_error + string list" where
  "generate_full_index_page_path_components pagenum =
     (if pagenum > 1 then Inr [''v1'', ''full'', ''page'', str_nat pagenum @ ''.json'']
      else if pagenum = 1 then Inr [''v1'', ''full.json'']
      else Inl ValueError)"

text \<open>The link \<open>'/' + '/'.join(prepend_data_root_relurl_components(components of page n))\<close>.\<close>

definition page_link :: "'t MapDBPublicURLPaths \<Rightarrow> nat \<Rightarrow> py_error + string" where
  "page_link map_db_urls pagenum =
     and_then (generate_full_index_page_path_components pagenum) (\<lambda>components.
       Inr (''/'' @ join ''/'' (prepend_data_root_relurl_components map_db_urls components)))"

text \<open>
  \<open>map_db_full_index_pages\<close> yields the page numbers 1, 2, ... for as long as the file of the
  page exists; \<open>first_missing_page\<close> is where it stops.
\<close>

function first_missing_page :: "(nat, 'p) fmap \<Rightarrow> nat \<Rightarrow> nat" where
  "first_missing_page pages n = (if n |\<in>| fmdom pages then first_missing_page pages (Suc n) else n)"
  by pat_completeness auto
termination
proof (relation "measure (\<lambda>(pages, n). card {k. k |\<in>| fmdom pages \<and> n \<le> k})")
  show "wf (measure (\<lambda>(pages, n). card {k. k |\<in>| fmdom pages \<and> n \<le> k}))"
    by simp
next
  fix pages :: "(nat, 'p) fmap" and n
  assume n: "n |\<in>| fmdom pages"
  have fin: "finite {k. k |\<in>| fmdom pages \<and> n \<le> k}"
    by (rule finite_subset[of _ "fset (fmdom pages)"]) auto
  have sub: "{k. k |\<in>| fmdom pages \<and> Suc n \<le> k} \<subseteq> {k. k |\<in>| fmdom pages \<and> n \<le> k}"
    by (rule Collect_mono) simp
  have "n \<in> {k. k |\<in>| fmdom pages \<and> n \<le> k}" "n \<notin> {k. k |\<in>| fmdom pages \<and> Suc n \<le> k}"
    using n by simp_all
  with sub have "{k. k |\<in>| fmdom pages \<and> Suc n \<le> k} \<subset> {k. k |\<in>| fmdom pages \<and> n \<le> k}"
    by blast
  from psubset_card_mono[OF fin this]
  show "((pages, Suc n), (pages, n)) \<in> measure (\<lambda>(pages, n). card {k. k |\<in>| fmdom pages \<and> n \<le> k})"
    by simp
qed

declare first_missing_page.simps [simp del]

definition map_db_full_index_pages :: "(nat, 'p) fmap \<Rightarrow> nat list" where
  "map_db_full_index_pages pages = [1 ..< first_missing_page pages 1]"

definition get_current_index_page :: "(nat, 'p) fmap \<Rightarrow> nat" where
  "get_current_index_page pages =
     (case map_db_full_index_pages pages of [] \<Rightarrow> 1 | ps \<Rightarrow> last ps)"

definition update_mapdatabase_versions_file :: "('m, 't) MapDatabase \<Rightarrow> ('m, 't) MapDatabase" where
  "update_mapdatabase_versions_file db =
     db\<lparr>versions_json := Some \<lparr>versions_type = ''wz2100.mapdatabase.versions.v1'',
        versions_id = ''versions'',
        versions = map (\<lambda>pagenum. (links_self (the (fmlookup (index_pages db) pagenum)),
                                     version (the (fmlookup (index_pages db) pagenum))))
                     (map_db_full_index_pages (index_pages db))\<rparr>\<rparr>"

text \<open>\<open>initialize_new_index_page(pagenum, map_db_urls)\<close>, with the time stamp \<open>now\<close> it reads.\<close>

definition initialize_new_index_page ::
  "nat \<Rightarrow> 't MapDBPublicURLPaths \<Rightarrow> string \<Rightarrow> py_error + ('m, 't) IndexPage" where
  "initialize_new_index_page pagenum map_db_urls now =
     and_then (page_link map_db_urls pagenum) (\<lambda>self.
     and_then (if pagenum > 1 then and_then (page_link map_db_urls (pagenum - 1)) (\<lambda>l. Inr (Some l))
               else Inr None) (\<lambda>prev.
       Inr \<lparr>page_type = ''wz2100.mapdatabase.full.v1'',
            page_id = ''full-page-'' @ str_nat pagenum,
            version = now,
            links_self = self, links_prev = prev, links_next = None,
            page_asset_url_templates = asset_url_templates map_db_urls,
            maps = []\<rparr>))"

text \<open>The slice \<open>xs[a:b]\<close> of Python, for any two ints.\<close>

definition slice_index :: "nat \<Rightarrow> int \<Rightarrow> nat" where
  "slice_index len i = (if i < 0 then nat (max (int len + i) 0) else min (nat i) len)"

definition py_slice :: "'a list \<Rightarrow> int \<Rightarrow> int \<Rightarrow> 'a list" where
  "py_slice xs a b = take (slice_index (length xs) b - slice_index (length xs) a)
                          (drop (slice_index (length xs) a) xs)"

text \<open>
  One turn of the loop of \<open>add_to_mapdatabase_index\<close> (lines 312 to 335): the page that is
  written to the file of the current page, \<open>new_maps_end\<close>, and the number of time stamps
  read so far. \<open>clock k\<close> is the stamp that the \<open>k\<close>-th reading of the time returns.
\<close>

definition add_to_index_step ::
  "'m list \<Rightarrow> 't MapDBPublicURLPaths \<Rightarrow> int \<Rightarrow> (nat \<Rightarrow> string)
     \<Rightarrow> nat \<Rightarrow> int \<Rightarrow> (nat, ('m, 't) IndexPage) fmap \<Rightarrow> nat
     \<Rightarrow> py_error + (('m, 't) IndexPage \<times> int \<times> nat)" where
  "add_to_index_step new_maps map_db_urls max_maps_per_index_file clock
       curr_index_pagenum new_maps_start pages tick =
     and_then (case fmlookup pages curr_index_pagenum of
                 Some page \<Rightarrow> Inr (page, tick)
               | None \<Rightarrow> and_then (initialize_new_index_page curr_index_pagenum map_db_urls (clock tick))
                           (\<lambda>page. Inr (page, Suc tick)))
       (\<lambda>(curr_index_page_json, tick1).
          let new_maps_end = min (new_maps_start + max_maps_per_index_file) (int (length new_maps));
              page1 = curr_index_page_json
                \<lparr>maps := maps curr_index_page_json @ py_slice new_maps new_maps_start new_maps_end,
                 version := clock tick1\<rparr>
          in and_then (if new_maps_end < int (length new_maps)
                       then and_then (page_link map_db_urls (curr_index_pagenum + 1))
                              (\<lambda>l. Inr (page1\<lparr>links_next := Some l\<rparr>))
                       else Inr page1)
               (\<lambda>page2. Inr (page2, new_maps_end, Suc tick1)))"

text \<open>
  The loop (lines 310 to 339). Its state is the current page number, \<open>new_maps_start\<close>, the
  page files and the number of time stamps read. With a capacity below 1 the loop does
  not end: the result is \<open>None\<close>.
\<close>

partial_function (option) add_to_index_loop ::
  "'m list \<Rightarrow> 't MapDBPublicURLPaths \<Rightarrow> int \<Rightarrow> (nat \<Rightarrow> string)
     \<Rightarrow> nat \<Rightarrow> int \<Rightarrow> (nat, ('m, 't) IndexPage) fmap \<Rightarrow> nat
     \<Rightarrow> (py_error + (nat, ('m, 't) IndexPage) fmap) option" where
  "add_to_index_loop new_maps map_db_urls max_maps_per_index_file clock
       curr_index_pagenum new_maps_start pages tick =
     (if new_maps_start < int (length new_maps)
      then
        (case add_to_index_step new_maps map_db_urls max_maps_per_index_file clock
                curr_index_pagenum new_maps_start pages tick of
           Inl e \<Rightarrow> Some (Inl e)
         | Inr r \<Rightarrow>
             add_to_index_loop new_maps map_db_urls max_maps_per_index_file clock
               (curr_index_pagenum + 1) (fst (snd r))
               (fmupd curr_index_pagenum (fst r) pages) (snd (snd r)))
      else Some (Inr pages))"

declare add_to_index_loop.simps [code]

definition add_to_mapdatabase_index ::
  "'m list \<Rightarrow> ('m, 't) MapDatabase \<Rightarrow> 't MapDBPublicURLPaths \<Rightarrow> int \<Rightarrow> (nat \<Rightarrow> string)
     \<Rightarrow> (py_error + ('m, 't) MapDatabase) option" where
  "add_to_mapdatabase_index new_maps db map_db_urls max_maps_per_index_file clock =
     (case add_to_index_loop new_maps map_db_urls max_maps_per_index_file clock
             (get_current_index_page (index_pages db)) 0 (index_pages db) 0 of
        None \<Rightarrow> None
      | Some (Inl e) \<Rightarrow> Some (Inl e)
      | Some (Inr pages) \<Rightarrow> Some (Inr (update_mapdatabase_versions_file (db\<lparr>index_pages := pages\<rparr>))))"

text \<open>Inputs of the examples: a configuration, a clock, and a first page holding two records.\<close>

definition sample_urls :: "unit MapDBPublicURLPaths" where
  "sample_urls = \<lparr>map_db_data_root_relurl_components = [''api''], asset_url_templates = ()\<rparr>"

definition sample_clock :: "nat \<Rightarrow> string" where
  "sample_clock k = ''2023-06-01 12:00:0'' @ str_nat k"

definition sample_page_one :: "(string, unit) IndexPage" where
  "sample_page_one = \<lparr>page_type = ''wz2100.mapdatabase.full.v1'', page_id = ''full-page-1'',
     version = ''2023-05-01 00:00:00'', links_self = ''/api/v1/full.json'', links_prev = None,
     links_next = None, page_asset_url_templates = (), maps = [''m1'', ''m2'']\<rparr>"

definition sample_db :: "(string, unit) MapDatabase" where
  "sample_db = update_mapdatabase_versions_file
     \<lparr>index_pages = fmupd 1 sample_page_one fmempty, versions_json = None\<rparr>"

definition empty_db :: "(string, unit) MapDatabase" where
  "empty_db = \<lparr>index_pages = fmempty, versions_json = None\<rparr>"

text \<open>The number of records on each page of the index, in page order.\<close>

definition page_sizes :: "('m, 't) MapDatabase \<Rightarrow> nat list" where
  "page_sizes db = map (\<lambda>pagenum. length (maps (the (fmlookup (index_pages db) pagenum))))
                     (map_db_full_index_pages (index_pages db))"

section \<open>Release builder (process\_map\_repo.py)\<close>

text \<open>
  What the release builder gets from outside: the changed folders that git reports for a
  commit, the exit code and the parsed output of the map inspection tool for a map
  folder, the bytes of the archive that \<open>compress_map_folder\<close> writes for a folder and a salt,
  SHA-256, the \<open>k\<close>-th random salt, the licensing library and today's date.
\<close>

record ('a, 'h) BuildEnv =
  git_changed_folders :: "string \<Rightarrow> string list"
  maptools_package_info :: "string \<Rightarrow> int \<times> MapInfo"
  compress_map_folder :: "string \<Rightarrow> string option \<Rightarrow> 'a"
  sha256 :: "'a \<Rightarrow> 'h"
  random_salt :: "nat \<Rightarrow> string"
  spdx_licensing :: "string \<Rightarrow> license_verdict"
  date_today :: int

text \<open>
  \<open>map_has_hash_collision(archive_path)\<close>: the hash of the archive is computed, the lookup
  in the hashes seen so far is left as a TODO in the source, and the result is always
  \<open>False\<close>.
\<close>

definition map_has_hash_collision :: "('a, 'h) BuildEnv \<Rightarrow> 'a \<Rightarrow> bool \<times> 'h" where
  "map_has_hash_collision env archive = (False, sha256 env archive)"

text \<open>
  \<open>RELEASE_VERSION_RE.match(s)\<close> for \<open>^v?(?P<major>\d+).*\<close>: the group \<open>major\<close>, the leading
  run of digits after an optional \<open>v\<close>.
\<close>

definition RELEASE_VERSION_RE :: "string \<Rightarrow> string option" where
  "RELEASE_VERSION_RE s =
     (let r = (case s of
                 c # d # ds \<Rightarrow> if c = CHR ''v'' \<and> is_digit d then d # ds else s
               | _ \<Rightarrow> s);
          major = takeWhile is_digit r
      in if major = [] then None else Some major)"

record ReleaseDetails =
  commits :: "string list"
  assets :: int

text \<open>
  The state of a run: the dict \<open>releasesGeneratedThisRun\<close> (tag to details), the current
  tag \<open>MAP_REPO_NEW_RELEASE_TAGNAME\<close>, \<open>releaseList\<close>, the archive files written (by release
  tag and file name), the \<open>release.json\<close> of each release (target commit and included
  commits), and the number of random salts drawn.
\<close>

record 'a BuildState =
  releasesGeneratedThisRun :: "(string \<times> ReleaseDetails) list"
  MAP_REPO_NEW_RELEASE_TAGNAME :: string
  releaseList :: "string list"
  archive_files :: "((string \<times> string) \<times> 'a) list"
  release_json :: "(string \<times> string \<times> string list) list"
  salts_drawn :: nat

definition generate_next_release_details ::
  "string \<Rightarrow> (string \<times> ReleaseDetails) list \<Rightarrow> py_error + string \<times> (string \<times> ReleaseDetails) list" where
  "generate_next_release_details current_release_tagname releases =
     (case RELEASE_VERSION_RE current_release_tagname of
        Some major \<Rightarrow>
          let next_release_tagname = ''v'' @ str_int (int_of_digits major + 1)
          in Inr (next_release_tagname,
                  AList.update next_release_tagname \<lparr>commits = [], assets = 0\<rparr> releases)
      | None \<Rightarrow> Inl ValueError)"

text \<open>A run that may not end: \<open>None\<close>; else what it raises or returns.\<close>

definition run_then :: "(py_error + 'x) option \<Rightarrow> ('x \<Rightarrow> (py_error + 'y) option) \<Rightarrow> (py_error + 'y) option" where
  "run_then m f = (case m of None \<Rightarrow> None | Some (Inl e) \<Rightarrow> Some (Inl e) | Some (Inr v) \<Rightarrow> f v)"

fun run_fold :: "('x \<Rightarrow> 's \<Rightarrow> (py_error + 's) option) \<Rightarrow> 'x list \<Rightarrow> 's \<Rightarrow> (py_error + 's) option" where
  "run_fold f [] s = Some (Inr s)"
| "run_fold f (x # xs) s = run_then (f x s) (run_fold f xs)"

text \<open>
  Lines 138 to 145: while the last check reports a collision, draw a salt, remove the
  archive, package again with the salt and check again. The result is the archive left
  on disk and the number of salts drawn.
\<close>

partial_function (option) repackage_loop ::
  "('a, 'h) BuildEnv \<Rightarrow> string \<Rightarrow> bool \<Rightarrow> 'a \<Rightarrow> nat \<Rightarrow> ('a \<times> nat) option" where
  "repackage_loop env mapFolderFullPath collision archive drawn =
     (if collision
      then (let hashCollisionAvoidanceSalt = random_salt env drawn;
                archive1 = compress_map_folder env mapFolderFullPath (Some hashCollisionAvoidanceSalt)
            in repackage_loop env mapFolderFullPath (fst (map_has_hash_collision env archive1))
                 archive1 (Suc drawn))
      else Some (archive, drawn))"

declare repackage_loop.simps [code]

text \<open>\<open>re.sub(r'[^A-Za-z0-9\-_]', "_", name)\<close>.\<close>

definition clean_map_name :: "string \<Rightarrow> string" where
  "clean_map_name n = map (\<lambda>c. if name_char c then c else CHR ''_'') n"

text \<open>Lines 107 to 147: one changed map folder of a commit.\<close>

definition process_map_folder ::
  "('a, 'h) BuildEnv \<Rightarrow> string \<Rightarrow> 'a BuildState \<Rightarrow> (py_error + 'a BuildState) option" where
  "process_map_folder env mapFolder st =
     (let (returncode, map_info_json) = maptools_package_info env mapFolder
      in if returncode \<noteq> 0 then Some (Inr st)
         else
           (case validate_map_info (spdx_licensing env) (date_today env) map_info_json True default_warning_options of
              Inl e \<Rightarrow> Some (Inl e)
            | Inr map_validation_result \<Rightarrow>
                if length (errors map_validation_result) > 0 then Some (Inr st)
                else
                  (case and_then (subscript (players map_info_json)) (\<lambda>map_players.
                        and_then (subscript (name map_info_json)) (\<lambda>n.
                          Inr (str_int map_players @ ''p-'' @ clean_map_name n @ ''.wz''))) of
                     Inl e \<Rightarrow> Some (Inl e)
                   | Inr file_name \<Rightarrow>
                       let archive = compress_map_folder env mapFolder None;
                           hash_collision_result = map_has_hash_collision env archive
                       in
                       (case repackage_loop env mapFolder (fst hash_collision_result) archive (salts_drawn st) of
                          None \<Rightarrow> None
                        | Some (final_archive, drawn) \<Rightarrow>
                            (case map_of (releasesGeneratedThisRun st) (MAP_REPO_NEW_RELEASE_TAGNAME st) of
                               None \<Rightarrow> Some (Inl KeyError)
                             | Some details \<Rightarrow>
                                 Some (Inr (st\<lparr>
                                   archive_files := AList.update (MAP_REPO_NEW_RELEASE_TAGNAME st, file_name)
                                                      final_archive (archive_files st),
                                   salts_drawn := drawn,
                                   releasesGeneratedThisRun :=
                                     AList.update (MAP_REPO_NEW_RELEASE_TAGNAME st)
                                       (details\<lparr>assets := assets details + 1\<rparr>)
                                       (releasesGeneratedThisRun st)\<rparr>)))))))"

text \<open>\<open>re.match(r'^maps/.+', x)\<close>: the prefix \<open>maps/\<close> and one more character, not a newline.\<close>

definition is_maps_folder :: "string \<Rightarrow> bool" where
  "is_maps_folder x = (take 5 x = ''maps/'' \<and> length x > 5 \<and> x ! 5 \<noteq> CHR 0x0A)"

text \<open>
  Lines 95 to 100: before the maps of a commit with \<open>n\<close> changed map folders are processed,
  the current release is put on \<open>releaseList\<close> and the next release is started when the
  current one has an asset and \<open>n\<close> more would exceed \<open>max_assets_per_release\<close>.
\<close>

definition start_commit :: "int \<Rightarrow> int \<Rightarrow> 'a BuildState \<Rightarrow> py_error + 'a BuildState" where
  "start_commit max_assets_per_release n st =
     and_then (subscript (map_of (releasesGeneratedThisRun st) (MAP_REPO_NEW_RELEASE_TAGNAME st))) (\<lambda>details.
       if assets details > 0 \<and> n + assets details > max_assets_per_release
       then
         let st1 = (if MAP_REPO_NEW_RELEASE_TAGNAME st \<notin> set (releaseList st)
                    then st\<lparr>releaseList := releaseList st @ [MAP_REPO_NEW_RELEASE_TAGNAME st]\<rparr>
                    else st)
         in and_then (generate_next_release_details (MAP_REPO_NEW_RELEASE_TAGNAME st1)
                        (releasesGeneratedThisRun st1)) (\<lambda>(tag, releases).
              Inr (st1\<lparr>MAP_REPO_NEW_RELEASE_TAGNAME := tag, releasesGeneratedThisRun := releases\<rparr>))
       else Inr st)"

text \<open>Lines 102 and 149 to 158: the commit is added to the release; after its maps, \<open>release.json\<close>.\<close>

definition add_commit :: "string \<Rightarrow> 'a BuildState \<Rightarrow> py_error + 'a BuildState" where
  "add_commit commit st =
     and_then (subscript (map_of (releasesGeneratedThisRun st) (MAP_REPO_NEW_RELEASE_TAGNAME st))) (\<lambda>details.
       Inr (st\<lparr>releasesGeneratedThisRun :=
                 AList.update (MAP_REPO_NEW_RELEASE_TAGNAME st)
                   (details\<lparr>commits := commits details @ [commit]\<rparr>) (releasesGeneratedThisRun st)\<rparr>))"

definition finish_commit :: "string \<Rightarrow> 'a BuildState \<Rightarrow> py_error + 'a BuildState" where
  "finish_commit commit st =
     and_then (subscript (map_of (releasesGeneratedThisRun st) (MAP_REPO_NEW_RELEASE_TAGNAME st))) (\<lambda>details.
       let st1 = st\<lparr>release_json := AList.update (MAP_REPO_NEW_RELEASE_TAGNAME st)
                        (commit, commits details) (release_json st)\<rparr>
       in Inr (if assets details > 0 \<and> MAP_REPO_NEW_RELEASE_TAGNAME st \<notin> set (releaseList st)
               then st1\<lparr>releaseList := releaseList st @ [MAP_REPO_NEW_RELEASE_TAGNAME st]\<rparr>
               else st1))"

text \<open>Lines 82 to 158: one commit.\<close>

definition process_commit ::
  "('a, 'h) BuildEnv \<Rightarrow> int \<Rightarrow> string \<Rightarrow> 'a BuildState \<Rightarrow> (py_error + 'a BuildState) option" where
  "process_commit env max_assets_per_release commit st =
     (let changedFolders = filter is_maps_folder (git_changed_folders env commit)
      in if changedFolders = [] then Some (Inr st)
         else
           run_then (Some (and_then (start_commit max_assets_per_release (int (length changedFolders)) st)
                             (add_commit commit))) (\<lambda>st1.
           run_then (run_fold (process_map_folder env) changedFolders st1) (\<lambda>st2.
             Some (finish_commit commit st2))))"

text \<open>
  \<open>generate_releases_for_maprepo\<close>, given the commits that git lists. The whole final state
  is returned; the source returns its \<open>releaseList\<close>.
\<close>

definition generate_releases_for_maprepo ::
  "('a, 'h) BuildEnv \<Rightarrow> string list \<Rightarrow> string \<Rightarrow> int \<Rightarrow> (py_error + 'a BuildState) option" where
  "generate_releases_for_maprepo env commit_list last_release_version max_assets_per_release =
     run_then (Some (generate_next_release_details last_release_version [])) (\<lambda>(tag, releases).
       run_fold (process_commit env max_assets_per_release) commit_list
         \<lparr>releasesGeneratedThisRun = releases, MAP_REPO_NEW_RELEASE_TAGNAME = tag, releaseList = [],
          archive_files = [], release_json = [], salts_drawn = 0\<rparr>)"

text \<open>
  A changed map folder is packaged when the inspection tool succeeds on it and the validator
  returns without errors; it is passed over quietly when the tool fails or the validator
  returns errors. (When the validator raises, the exception ends the run.)
\<close>

definition is_packaged :: "('a, 'h) BuildEnv \<Rightarrow> string \<Rightarrow> bool" where
  "is_packaged env mapFolder =
     (fst (maptools_package_info env mapFolder) = 0
      \<and> (case validate_map_info (spdx_licensing env) (date_today env)
                 (snd (maptools_package_info env mapFolder)) True default_warning_options of
            Inr r \<Rightarrow> errors r = []
          | Inl e \<Rightarrow> False))"

definition validator_returns :: "('a, 'h) BuildEnv \<Rightarrow> string \<Rightarrow> bool" where
  "validator_returns env mapFolder =
     (fst (maptools_package_info env mapFolder) = 0
      \<and> (case validate_map_info (spdx_licensing env) (date_today env)
                 (snd (maptools_package_info env mapFolder)) True default_warning_options of
            Inr r \<Rightarrow> True
          | Inl e \<Rightarrow> False)
      \<or> fst (maptools_package_info env mapFolder) \<noteq> 0)"

text \<open>
  An environment for the examples: git reports \<open>changed commit\<close>, the inspection tool
  succeeds on every folder with the sample document, archives and hashes are as given.
\<close>

definition sample_build_env ::
  "(string \<Rightarrow> string list) \<Rightarrow> (string \<Rightarrow> string option \<Rightarrow> 'a) \<Rightarrow> ('a \<Rightarrow> 'h) \<Rightarrow> ('a, 'h) BuildEnv" where
  "sample_build_env changed compress hash =
     \<lparr>git_changed_folders = changed, maptools_package_info = (\<lambda>f. (0, sample_map_info)),
      compress_map_folder = compress, sha256 = hash, random_salt = (\<lambda>k. ''Ab3dE6gH''),
      spdx_licensing = sample_licensing, date_today = sample_today\<rparr>"

text \<open>
  A commit \<open>c1\<close> that adds 150 map folders, a commit \<open>c2\<close> that changes one more, and
  commits that change no map folder.
\<close>

definition many_folders :: "string list" where
  "many_folders = map (\<lambda>i. ''maps/m'' @ str_nat i) [0 ..< 150]"

definition sample_changes :: "string \<Rightarrow> string list" where
  "sample_changes commit =
     (if commit = ''c1'' then many_folders
      else if commit = ''c2'' then [''README.md'', ''maps/Extra'']
      else [''README.md''])"

text \<open>
  The file name of the archive of a map folder (lines 130 to 135): the player count, \<open>p-\<close>,
  the cleaned map name and \<open>.wz\<close>.
\<close>

definition packaged_as :: "('a, 'h) BuildEnv \<Rightarrow> string \<Rightarrow> string" where
  "packaged_as env mapFolder =
     (case (players (snd (maptools_package_info env mapFolder)),
            name (snd (maptools_package_info env mapFolder))) of
        (Some p, Some n) \<Rightarrow> str_int p @ ''p-'' @ clean_map_name n @ ''.wz''
      | _ \<Rightarrow> [])"

text \<open>
  An environment in which every map folder \<open>maps/<name>\<close> holds a valid map called
  \<open><name>\<close>; the archive of a folder is the pair of the folder and the salt, and is its
  own hash.
\<close>

definition batch_env :: "(string \<times> string option, string \<times> string option) BuildEnv" where
  "batch_env =
     \<lparr>git_changed_folders = sample_changes,
      maptools_package_info = (\<lambda>f. (0, sample_map_info\<lparr>name := Some (drop 5 f)\<rparr>)),
      compress_map_folder = Pair, sha256 = id, random_salt = (\<lambda>k. ''Ab3dE6gH''),
      spdx_licensing = sample_licensing, date_today = sample_today\<rparr>"

section \<open>Validation of a list of maps (validate\_new\_map.py)\<close>

text \<open>
  What the script reads from outside: the path of the inspection tool (\<open>tools.maptools_exe\<close>),
  the result of running it on a path (exit code, the document printed on standard output,
  the lines of standard error), \<open>Path.exists\<close>, \<open>Path.is_dir\<close> and \<open>Path.name\<close>, the check of
  a map name against the map repositories of a player count, and the licence parser and
  the clock that the validator uses. The output of a run that fails is not read.
\<close>

record ValidateEnv =
  maptools_exe :: "string option"
  maptools_info_result :: "string \<Rightarrow> int \<times> MapInfo \<times> string list"
  path_exists :: "string \<Rightarrow> bool"
  path_is_dir :: "string \<Rightarrow> bool"
  path_name :: "string \<Rightarrow> string"
  check_name_unique_in_maprepos :: "string \<Rightarrow> int \<Rightarrow> bool"
  validate_licensing :: "string \<Rightarrow> license_verdict"
  validate_today :: int

text \<open>Lines 86 to 117: the class \<open>MapValidationDetails\<close>.\<close>

record MapValidationDetails =
  details_map_info_json :: MapInfo
  info_validation_result :: MapInfoValidationResult
  name_conflict :: bool
  mapdir_folder_name_mismatch :: bool
  players_count_mismatch :: bool
  details_enforce_format_checks :: bool

definition needs_format_conversion :: "MapValidationDetails \<Rightarrow> bool" where
  "needs_format_conversion self = (\<not> passedFormatChecks (info_validation_result self))"

definition get_status_list :: "MapValidationDetails \<Rightarrow> string list" where
  "get_status_list self =
     (let status_list =
            (if players_count_mismatch self then [''PlayersCountMismatch''] else [])
          @ (if details_enforce_format_checks self \<and> needs_format_conversion self
             then [''NeedsFormatConversion''] else [])
          @ (if name_conflict self then [''NameConflict''] else [])
          @ (if mapdir_folder_name_mismatch self then [''FolderNameDoesNotMatchMapName''] else [])
          @ (if length (errors (info_validation_result self)) > 0 then [''ValidationErrors''] else [])
      in if length status_list = 0 then [''Pass''] else status_list)"

definition passed_validation :: "MapValidationDetails \<Rightarrow> bool" where
  "passed_validation self = (get_status_list self = [''Pass''])"

text \<open>
  Lines 121 to 164: \<open>validate_map\<close>. It raises \<open>ValueError\<close> without the tool and
  \<open>FailedToProcessMapError\<close> when the tool fails on the path; the lines of standard error
  are put before the errors of the validator.
\<close>

definition validate_map ::
  "ValidateEnv \<Rightarrow> string \<Rightarrow> bool \<Rightarrow> bool \<Rightarrow> int option \<Rightarrow> ValidateMapWarningOptions
     \<Rightarrow> py_error + MapValidationDetails" where
  "validate_map env map_path check_for_name_conflict enforce_format_checks expected_players_count
       validate_warning_options =
     (if maptools_exe env = None \<or> maptools_exe env = Some [] then Inl ValueError
      else
        let (returncode, map_info_json, stderr_lines) = maptools_info_result env map_path
        in if \<not> returncode = 0 then Inl FailedToProcessMapError
           else
             and_then (validate_map_info (validate_licensing env) (validate_today env) map_info_json
                         enforce_format_checks validate_warning_options) (\<lambda>validated.
             let result = (if length stderr_lines > 0
                           then validated\<lparr>errors := stderr_lines @ errors validated\<rparr>
                           else validated)
             in
             and_then (if check_for_name_conflict
                       then and_then (subscript (name map_info_json)) (\<lambda>map_name.
                            and_then (subscript (players map_info_json)) (\<lambda>map_players.
                              Inr (\<not> check_name_unique_in_maprepos env map_name map_players)))
                       else Inr False) (\<lambda>conflict.
             and_then (if path_is_dir env map_path
                       then and_then (subscript (name map_info_json)) (\<lambda>map_name.
                              Inr (path_name env map_path \<noteq> map_name))
                       else Inr False) (\<lambda>folder_mismatch.
             and_then (case expected_players_count of
                         None \<Rightarrow> Inr False
                       | Some expected \<Rightarrow>
                           and_then (subscript (players map_info_json)) (\<lambda>map_players.
                             Inr (map_players \<noteq> expected))) (\<lambda>players_mismatch.
               Inr \<lparr>details_map_info_json = map_info_json, info_validation_result = result,
                    name_conflict = conflict, mapdir_folder_name_mismatch = folder_mismatch,
                    players_count_mismatch = players_mismatch,
                    details_enforce_format_checks = enforce_format_checks\<rparr>)))))"

text \<open>
  Lines 252 to 299: \<open>print_multi_map_validation_details\<close>, its return value (the report it
  prints says \<open>PASS\<close> when the value is 0 and \<open>FAILED\<close> when it is 1).
\<close>

definition print_multi_map_validation_details ::
  "(string \<times> MapValidationDetails) list \<Rightarrow> (string \<times> py_error) list \<Rightarrow> int" where
  "print_multi_map_validation_details validation_details maps_failed_processing =
     (let failing_maps = filter (\<lambda>(k, v). \<not> passed_validation v) validation_details
      in if length failing_maps = 0 \<and> length validation_details > 0
            \<and> length maps_failed_processing = 0
         then 0 else 1)"

text \<open>
  Lines 306 to 312: the loop over the list. A path that does not exist is passed over;
  only \<open>FailedToProcessMapError\<close> is caught, and the path is then entered in
  \<open>maps_failed_processing\<close>. The two dictionaries keep the order of insertion.
\<close>

fun validate_paths ::
  "ValidateEnv \<Rightarrow> bool \<Rightarrow> int option \<Rightarrow> string list
     \<Rightarrow> (string \<times> MapValidationDetails) list \<Rightarrow> (string \<times> py_error) list
     \<Rightarrow> py_error + (string \<times> MapValidationDetails) list \<times> (string \<times> py_error) list" where
  "validate_paths env check_for_name_conflict expected_players_count []
       validation_details maps_failed_processing =
     Inr (validation_details, maps_failed_processing)"
| "validate_paths env check_for_name_conflict expected_players_count (map_path # map_path_list)
       validation_details maps_failed_processing =
     (if path_exists env map_path
      then (case validate_map env map_path check_for_name_conflict True expected_players_count
                   default_warning_options of
              Inr details \<Rightarrow>
                validate_paths env check_for_name_conflict expected_players_count map_path_list
                  (AList.update map_path details validation_details) maps_failed_processing
            | Inl e \<Rightarrow>
                if e = FailedToProcessMapError
                then validate_paths env check_for_name_conflict expected_players_count map_path_list
                       validation_details (AList.update map_path e maps_failed_processing)
                else Inl e)
      else validate_paths env check_for_name_conflict expected_players_count map_path_list
             validation_details maps_failed_processing)"

text \<open>
  Lines 302 to 316: \<open>validate_repo_map_list\<close>. The value that
  \<open>print_multi_map_validation_details\<close> returns is not used; \<open>main\<close> passes the value returned
  here to \<open>exit\<close>.
\<close>

definition validate_repo_map_list ::
  "ValidateEnv \<Rightarrow> string list \<Rightarrow> bool \<Rightarrow> int option \<Rightarrow> py_error + int" where
  "validate_repo_map_list env map_path_list check_for_name_conflict expected_players_count =
     and_then (validate_paths env check_for_name_conflict expected_players_count map_path_list [] [])
       (\<lambda>(validation_details, maps_failed_processing).
          let printed = print_multi_map_validation_details validation_details maps_failed_processing;
              num_failing_maps = int (length (filter (\<lambda>(k, v). \<not> passed_validation v) validation_details))
          in Inr (if length validation_details > 0 then num_failing_maps else 1))"

text \<open>
  A list file of a map repository: the folder \<open>maps/Rush_Remake\<close> holds the sample map, and
  the inspection tool fails on the folder \<open>maps/Broken\<close>.
\<close>

definition sample_validate_env :: ValidateEnv where
  "sample_validate_env =
     \<lparr>maptools_exe = Some ''maptools'',
      maptools_info_result = (\<lambda>p. if p = ''maps/Rush_Remake'' then (0, sample_map_info, [])
                                   else (1, sample_map_info, [''Failed to load map''])),
      path_exists = (\<lambda>p. p = ''maps/Rush_Remake'' \<or> p = ''maps/Broken''),
      path_is_dir = (\<lambda>p. True), path_name = drop 5,
      check_name_unique_in_maprepos = (\<lambda>map_name map_players. True),
      validate_licensing = sample_licensing, validate_today = sample_today\<rparr>"

section \<open>Date normalization\<close>

lemma month_group_iff: "month_group a b \<longleftrightarrow> [a, b] \<in> set spec_months"
proof
  assume "month_group a b" then show "[a, b] \<in> set spec_months"
    unfolding month_group_def spec_months_def by (elim disjE conjE) simp_all
next
  assume "[a, b] \<in> set spec_months" then show "month_group a b"
    unfolding spec_months_def by (simp add: month_group_def) (elim disjE conjE; simp)
qed
lemma day_group_iff: "day_group a b \<longleftrightarrow> [a, b] \<in> set spec_days"
proof
  assume "day_group a b" then show "[a, b] \<in> set spec_days"
    unfolding day_group_def spec_days_def by (simp del: One_nat_def) (elim disjE conjE; simp)
next
  assume "[a, b] \<in> set spec_days" then show "day_group a b"
    unfolding spec_days_def by (simp add: day_group_def) (elim disjE conjE; simp)
qed
lemma spec_months_len: "m \<in> set spec_months \<Longrightarrow> \<exists>a b. m = [a, b]"
  unfolding spec_months_def by simp (elim disjE; simp)
lemma spec_days_len: "m \<in> set spec_days \<Longrightarrow> \<exists>a b. m = [a, b]"
  unfolding spec_days_def by simp (elim disjE; simp)

lemma shape_imp_match:
  assumes "spec_date_shape s y m d"
  shows "DATE_FORMAT_RE s = Some (y, m, d)"
proof -
  from assms have ly: "4 \<le> length y" and dy: "list_all is_digit y"
    and mm: "m \<in> set spec_months" and dd: "d \<in> set spec_days"
    and pre: "y @ ''-'' @ m @ ''-'' @ d = take (length y + 6) s"
    by (auto simp: spec_date_shape_def)
  obtain m1 m2 where m: "m = [m1, m2]" using spec_months_len[OF mm] by blast
  obtain d1 d2 where d: "d = [d1, d2]" using spec_days_len[OF dd] by blast
  define rest where "rest = drop (length y + 6) s"
  have "s = take (length y + 6) s @ rest" unfolding rest_def by simp
  then have s: "s = y @ (CHR ''-'' # m1 # m2 # CHR ''-'' # d1 # d2 # rest)"
    unfolding pre[symmetric] m d by simp
  have nd: "\<not> is_digit CHR ''-''" by (simp add: is_digit_def)
  have ally: "\<forall>c\<in>set y. is_digit c" using dy by (simp add: list_all_iff)
  have tw: "takeWhile is_digit s = y"
    by (subst s) (simp add: takeWhile_tail ally nd)
  have dw: "dropWhile is_digit s = CHR ''-'' # m1 # m2 # CHR ''-'' # d1 # d2 # rest"
    by (subst s) (simp add: dropWhile_append ally nd)
  show ?thesis
    using ly mm dd unfolding DATE_FORMAT_RE_def tw dw m d
    by (simp add: month_group_iff day_group_iff)
qed

lemma match_imp_shape:
  assumes "DATE_FORMAT_RE s = Some (y, m, d)"
  shows "spec_date_shape s y m d"
proof -
  from assms have y: "y = takeWhile is_digit s" and ly: "4 \<le> length y"
    by (auto simp: DATE_FORMAT_RE_def Let_def split: if_splits list.splits)
  from assms obtain m1 m2 d1 d2 rest where
    dw: "dropWhile is_digit s = CHR ''-'' # m1 # m2 # CHR ''-'' # d1 # d2 # rest"
    and m: "m = [m1, m2]" and d: "d = [d1, d2]"
    and mg: "month_group m1 m2" and dg: "day_group d1 d2"
    by (auto simp: DATE_FORMAT_RE_def Let_def split: if_splits list.splits)
  have s: "s = y @ (CHR ''-'' # m1 # m2 # CHR ''-'' # d1 # d2 # rest)"
    using takeWhile_dropWhile_id[of is_digit s] y dw by simp
  have "list_all is_digit y" unfolding y list_all_iff by (auto dest: set_takeWhileD)
  moreover have "take (length y + 6) s = y @ ''-'' @ m @ ''-'' @ d"
    unfolding m d by (subst s) simp
  ultimately show ?thesis
    using ly mg dg unfolding spec_date_shape_def m d
    by (simp add: month_group_iff day_group_iff)
qed

text \<open>
  C7. \<open>convert_map_info_date_to_yyyy_mm_dd\<close> raises ValueError exactly when the input does
  not begin with the accepted date pattern, raises nothing else, and otherwise returns the
  year, month and day of the input joined by hyphens (the input's own prefix);
  \<open>"2020-05-17 10:00:00"\<close> yields \<open>"2020-05-17"\<close>.
\<close>

theorem convert_date_spec:
  "(convert_map_info_date_to_yyyy_mm_dd s = Inl ValueError \<longleftrightarrow> \<not> (\<exists>y m d. spec_date_shape s y m d))
   \<and> (\<forall>y m d. spec_date_shape s y m d \<longrightarrow>
         convert_map_info_date_to_yyyy_mm_dd s = Inr (y @ ''-'' @ m @ ''-'' @ d))
   \<and> (\<forall>r. convert_map_info_date_to_yyyy_mm_dd s = Inr r \<longrightarrow>
         (\<exists>y m d. spec_date_shape s y m d \<and> r = y @ ''-'' @ m @ ''-'' @ d))
   \<and> (\<forall>e. convert_map_info_date_to_yyyy_mm_dd s = Inl e \<longrightarrow> e = ValueError)
   \<and> convert_map_info_date_to_yyyy_mm_dd ''2020-05-17 10:00:00'' = Inr ''2020-05-17''"
proof (intro conjI allI impI)
  show "convert_map_info_date_to_yyyy_mm_dd s = Inl ValueError \<longleftrightarrow> \<not> (\<exists>y m d. spec_date_shape s y m d)"
  proof (cases "DATE_FORMAT_RE s")
    case None
    then show ?thesis
      using shape_imp_match[of s] by (auto simp: convert_map_info_date_to_yyyy_mm_dd_def)
  next
    case (Some t)
    then show ?thesis
      using match_imp_shape[of s] by (cases t) (auto simp: convert_map_info_date_to_yyyy_mm_dd_def)
  qed
next
  fix y m d assume "spec_date_shape s y m d"
  then show "convert_map_info_date_to_yyyy_mm_dd s = Inr (y @ ''-'' @ m @ ''-'' @ d)"
    by (simp add: convert_map_info_date_to_yyyy_mm_dd_def shape_imp_match)
next
  fix r assume r: "convert_map_info_date_to_yyyy_mm_dd s = Inr r"
  then obtain y m d where md: "DATE_FORMAT_RE s = Some (y, m, d)"
    by (cases "DATE_FORMAT_RE s") (auto simp: convert_map_info_date_to_yyyy_mm_dd_def)
  have "spec_date_shape s y m d" by (rule match_imp_shape[OF md])
  moreover have "r = y @ ''-'' @ m @ ''-'' @ d"
    using r md by (simp add: convert_map_info_date_to_yyyy_mm_dd_def)
  ultimately show "\<exists>y m d. spec_date_shape s y m d \<and> r = y @ ''-'' @ m @ ''-'' @ d"
    by blast
next
  fix e assume "convert_map_info_date_to_yyyy_mm_dd s = Inl e"
  then show "e = ValueError"
    by (auto simp: convert_map_info_date_to_yyyy_mm_dd_def split: option.splits)
next
  show "convert_map_info_date_to_yyyy_mm_dd ''2020-05-17 10:00:00'' = Inr ''2020-05-17''"
    by (simp add: convert_map_info_date_to_yyyy_mm_dd_def DATE_FORMAT_RE_def is_digit_def
        month_group_def day_group_def)
qed

theorem convert_date_spec_witness:
  "spec_date_shape ''2020-05-17 10:00:00'' ''2020'' ''05'' ''17''
   \<and> convert_map_info_date_to_yyyy_mm_dd ''2020-05-17 10:00:00'' = Inr ''2020-05-17''
   \<and> \<not> (\<exists>y m d. spec_date_shape ''2020-5-17'' y m d)
   \<and> convert_map_info_date_to_yyyy_mm_dd ''2020-5-17'' = Inl ValueError"
proof -
  have a: "spec_date_shape ''2020-05-17 10:00:00'' ''2020'' ''05'' ''17''"
    by (simp add: spec_date_shape_def is_digit_def spec_months_def spec_days_def)
  have b: "convert_map_info_date_to_yyyy_mm_dd ''2020-5-17'' = Inl ValueError"
    by (simp add: convert_map_info_date_to_yyyy_mm_dd_def DATE_FORMAT_RE_def is_digit_def
        month_group_def day_group_def)
  have c: "\<not> (\<exists>y m d. spec_date_shape ''2020-5-17'' y m d)"
    using b convert_date_spec[of "''2020-5-17''"] by blast
  have d: "convert_map_info_date_to_yyyy_mm_dd ''2020-05-17 10:00:00'' = Inr (''2020'' @ ''-'' @ ''05'' @ ''-'' @ ''17'')"
    using a convert_date_spec[of "''2020-05-17 10:00:00''"] by blast
  from a b c d show ?thesis by simp
qed

section \<open>Validator: shared facts, name and created date\<close>

lemma and_then_Inr: "and_then m f = Inr r \<longleftrightarrow> (\<exists>v. m = Inr v \<and> f v = Inr r)"
  by (cases m) (simp_all add: and_then_def)

lemma and_then_Inl_left: "m = Inl e \<Longrightarrow> and_then m f = Inl e"
  by (simp add: and_then_def)

lemmas validator_defs = validate_map_info_def check_name_def check_type_def check_players_def
  check_tileset_def check_license_def check_author_def check_created_def check_mapsize_def
  check_oil_def check_hq_def check_structures_def check_mods_def check_formats_def
  player_min_def subscript_def and_then_def

lemmas sample_defs = sample_map_info_def sample_licensing_def sample_today_def sample_counts_def
  default_warning_options_def no_warning_options_def

lemmas date_defs = DATE_FORMAT_RE_def is_digit_def month_group_def day_group_def
  py_datetime_def int_of_digits_def digit_val_def days_in_month_def is_leap_def
  days_before_year_def days_before_month_def


text \<open>
  C1. The validator is to report an error for a MapInfo whose name is missing or empty
  (the source comments the block "Must have a name"). On the sample document with the
  name set to the empty string, which meets every other rule, \<open>validate_map_info\<close> returns
  with an empty errors list: the name block has no branch for an empty name.
\<close>

theorem validate_empty_name_passes:
  "validate_map_info sample_licensing sample_today (sample_map_info\<lparr>name := Some []\<rparr>) True
     default_warning_options
   = Inr \<lparr>warnings = [], errors = [], errors_non_fatal = [], passedFormatChecks = True\<rparr>"
  by (simp add: validator_defs sample_defs date_defs allowed_types_def allowed_tilesets_def
      allowed_levelformats_def allowed_mapformats_def MAX_ALLOWED_AUTHOR_NAME_LENGTH_def
      hq_iteration_def hq_subscript_def upto_rec1)

lemma validate_missing_name_raises:
  "validate_map_info licensing today (map_info_json\<lparr>name := None\<rparr>) enforce_format_checks warning_options
   = Inl KeyError"
  by (simp add: validate_map_info_def check_name_def subscript_def and_then_def)

lemma check_created_raises:
  assumes "created map_info_json = Some c" "DATE_FORMAT_RE c = Some (y, m, d)"
    and "int_of_digits y < 1999
         \<or> (\<exists>ord. py_datetime (int_of_digits y) (int_of_digits m) (int_of_digits d) = Inr ord
               \<and> today - ord < - 1)"
  shows "\<exists>e. check_created today warning_options map_info_json st = Inl e"
  using assms
  by (cases "py_datetime (int_of_digits y) (int_of_digits m) (int_of_digits d)")
     (auto simp: check_created_def and_then_def Let_def)

lemma validate_Inr_chain:
  assumes "validate_map_info licensing today map_info_json enforce_format_checks warning_options = Inr r"
  obtains st6 st7 st8 st9 st10 st11 st12 where
    "check_created today warning_options map_info_json st6 = Inr st7"
    "check_mapsize map_info_json st7 = Inr st8"
    "check_oil warning_options map_info_json st8 = Inr st9"
    "check_hq map_info_json st9 = Inr st10"
    "check_structures warning_options map_info_json st10 = Inr st11"
    "check_mods warning_options map_info_json st11 = Inr st12"
    "check_formats enforce_format_checks warning_options map_info_json st12 = Inr r"
proof -
  from assms have "\<exists>st6 st7 st8 st9 st10 st11 st12.
    check_created today warning_options map_info_json st6 = Inr st7
    \<and> check_mapsize map_info_json st7 = Inr st8
    \<and> check_oil warning_options map_info_json st8 = Inr st9
    \<and> check_hq map_info_json st9 = Inr st10
    \<and> check_structures warning_options map_info_json st10 = Inr st11
    \<and> check_mods warning_options map_info_json st11 = Inr st12
    \<and> check_formats enforce_format_checks warning_options map_info_json st12 = Inr r"
    unfolding validate_map_info_def Let_def case_prod_beta and_then_Inr by blast
  then show thesis using that by blast
qed

text \<open>
  C4. The validator is to return with a finding in the errors when the created date matches
  the pattern and is before 1999 or more than a day in the future. On every such
  MapInfo \<open>validate_map_info\<close> raises instead: the two \<open>errors.append\<close> calls are given two
  arguments.
\<close>

theorem created_out_of_range_raises:
  assumes "created map_info_json = Some c" "DATE_FORMAT_RE c = Some (y, m, d)"
    and "int_of_digits y < 1999
         \<or> (\<exists>ord. py_datetime (int_of_digits y) (int_of_digits m) (int_of_digits d) = Inr ord
               \<and> today - ord < - 1)"
  shows "\<exists>e. validate_map_info licensing today map_info_json enforce_format_checks warning_options = Inl e"
proof (cases "validate_map_info licensing today map_info_json enforce_format_checks warning_options")
  case (Inl e)
  then show ?thesis by blast
next
  case (Inr r)
  then obtain st6 st7 where "check_created today warning_options map_info_json st6 = Inr st7"
    by (rule validate_Inr_chain)
  with check_created_raises[OF assms, where st = st6 and warning_options = warning_options] show ?thesis by auto
qed

theorem created_out_of_range_raises_witness:
  "validate_map_info sample_licensing sample_today (sample_map_info\<lparr>created := Some ''1998-05-17''\<rparr>)
      True default_warning_options = Inl TypeError
   \<and> validate_map_info sample_licensing sample_today (sample_map_info\<lparr>created := Some ''2023-06-03''\<rparr>)
      True default_warning_options = Inl TypeError
   \<and> created (sample_map_info\<lparr>created := Some ''1998-05-17''\<rparr>) = Some ''1998-05-17''
   \<and> DATE_FORMAT_RE ''1998-05-17'' = Some (''1998'', ''05'', ''17'')
   \<and> int_of_digits ''1998'' < 1999
   \<and> (\<exists>e. validate_map_info sample_licensing sample_today
             (sample_map_info\<lparr>created := Some ''1998-05-17''\<rparr>) True default_warning_options = Inl e)"
proof -
  have a: "created (sample_map_info\<lparr>created := Some ''1998-05-17''\<rparr>) = Some ''1998-05-17''"
    by simp
  have b: "DATE_FORMAT_RE ''1998-05-17'' = Some (''1998'', ''05'', ''17'')"
    by (simp add: date_defs)
  have c: "int_of_digits ''1998'' < 1999"
    by (simp add: date_defs)
  have d: "validate_map_info sample_licensing sample_today (sample_map_info\<lparr>created := Some ''1998-05-17''\<rparr>)
      True default_warning_options = Inl TypeError"
    by (simp add: validator_defs sample_defs date_defs allowed_types_def allowed_tilesets_def
      MAX_ALLOWED_AUTHOR_NAME_LENGTH_def MAX_ALLOWED_MAP_NAME_LENGTH_def
      MAX_SUGGESTED_MAP_NAME_LENGTH_def NAME_FORMAT_RE_def name_char_def)
  have e: "validate_map_info sample_licensing sample_today (sample_map_info\<lparr>created := Some ''2023-06-03''\<rparr>)
      True default_warning_options = Inl TypeError"
    by (simp add: validator_defs sample_defs date_defs allowed_types_def allowed_tilesets_def
      MAX_ALLOWED_AUTHOR_NAME_LENGTH_def MAX_ALLOWED_MAP_NAME_LENGTH_def
      MAX_SUGGESTED_MAP_NAME_LENGTH_def NAME_FORMAT_RE_def name_char_def)
  from created_out_of_range_raises[OF a b, where today = sample_today and licensing = sample_licensing
      and enforce_format_checks = True and warning_options = default_warning_options] c
  have "\<exists>e. validate_map_info sample_licensing sample_today
             (sample_map_info\<lparr>created := Some ''1998-05-17''\<rparr>) True default_warning_options = Inl e"
    by blast
  with a b c d e show ?thesis by blast
qed

section \<open>Validator: HQ coverage\<close>

lemma hq_iteration_eq:
  assumes "0 \<le> i"
  shows "hq_iteration h i st = Inr (if spec_slot_lacks_hq h i then warn st (hq_message i) else st)"
  using assms
  by (cases h) (auto simp: hq_iteration_def hq_subscript_def spec_slot_lacks_hq_def)

lemma hq_loop_eq:
  assumes "\<forall>i\<in>set is. 0 \<le> i"
  shows "hq_loop h is st
    = Inr (st\<lparr>warnings := warnings st @ map hq_message (filter (spec_slot_lacks_hq h) is)\<rparr>)"
  using assms
proof (induction "is" arbitrary: st)
  case Nil
  then show ?case by simp
next
  case (Cons i "is")
  then show ?case
    by (simp add: hq_iteration_eq and_then_def warn_def)
qed

lemma check_hq_present:
  assumes "players map_info_json = Some p" "2 \<le> p" "hq map_info_json = Some h"
  shows "check_hq map_info_json st
    = Inr (st\<lparr>warnings := warnings st @ map hq_message (filter (spec_slot_lacks_hq h) [2 .. p - 1])\<rparr>)"
proof -
  have "\<forall>i\<in>set [2 .. p - 1]. 0 \<le> i" by auto
  from hq_loop_eq[OF this] assms show ?thesis
    by (simp add: check_hq_def subscript_def and_then_def)
qed

lemma check_hq_absent:
  assumes "players map_info_json = Some p" "2 \<le> p" "hq map_info_json = None"
  shows "check_hq map_info_json st = Inl KeyError"
  using assms by (simp add: check_hq_def subscript_def and_then_def)

lemma cond_warn:
  "warnings (if c then warn st m else st) = warnings st @ (if c then [m] else [])"
  by (simp add: warn_def)

lemma check_structures_appends:
  assumes "check_structures warning_options map_info_json st = Inr st'"
  shows "\<exists>post. warnings st' = warnings st @ post"
proof -
  from assms obtain c1 c2 c3 m1 m2 m3 where
    "st' = (if c3 then warn (if c2 then warn (if c1 then warn st m1 else st) m2
                             else (if c1 then warn st m1 else st)) m3
            else (if c2 then warn (if c1 then warn st m1 else st) m2
                  else (if c1 then warn st m1 else st)))"
    unfolding check_structures_def and_then_Inr Let_def by blast
  then show ?thesis by (simp only: cond_warn append_assoc) blast
qed

lemma check_mods_appends:
  assumes "check_mods warning_options map_info_json st = Inr st'"
  shows "\<exists>post. warnings st' = warnings st @ post"
  using assms unfolding check_mods_def and_then_Inr Let_def
  by (auto simp: warn_def err_def split: if_splits option.splits)

lemma format_finding_warnings:
  "warnings (if c then format_finding e wo st msg else st)
   = warnings st @ (if c \<and> \<not> e \<and> format_warnings wo then [msg] else [])"
  by (simp add: format_finding_def warn_def err_def Let_def)

lemma check_formats_appends:
  assumes "check_formats enforce_format_checks warning_options map_info_json st = Inr st'"
  shows "\<exists>post. warnings st' = warnings st @ post"
proof -
  from assms obtain c1 c2 c3 m1 m2 m3 where
    "st' = (if c3 then format_finding enforce_format_checks warning_options
              (if c2 then format_finding enforce_format_checks warning_options
                 (if c1 then format_finding enforce_format_checks warning_options st m1 else st) m2
               else (if c1 then format_finding enforce_format_checks warning_options st m1 else st)) m3
            else (if c2 then format_finding enforce_format_checks warning_options
                 (if c1 then format_finding enforce_format_checks warning_options st m1 else st) m2
               else (if c1 then format_finding enforce_format_checks warning_options st m1 else st)))"
    unfolding check_formats_def and_then_Inr Let_def by blast
  then show ?thesis by (simp only: format_finding_warnings append_assoc) blast
qed

text \<open>
  C8, as amended. For a MapInfo with at least two players and an \<open>hq\<close> key, the HQ check
  raises nothing and appends, in index order, one warning for exactly the player indices
  in 2 to players - 1 whose slot lacks HQ coordinates (array \<open>null\<close>, array too short, or
  slot without \<open>x\<close> or \<open>y\<close>), so never for the slots 0 and 1; whenever the validator returns,
  these warnings are in its warnings list, whatever the warning options. Without an \<open>hq\<close>
  key the check raises KeyError.
\<close>

theorem hq_coverage:
  "players map_info_json = Some p \<and> 2 \<le> p \<longrightarrow>
     (case hq map_info_json of
        None \<Rightarrow> check_hq map_info_json st = Inl KeyError
      | Some h \<Rightarrow>
          check_hq map_info_json st
            = Inr (st\<lparr>warnings := warnings st
                     @ map hq_message (filter (spec_slot_lacks_hq h) [2 .. p - 1])\<rparr>)
          \<and> (\<forall>r. validate_map_info licensing today map_info_json enforce_format_checks warning_options = Inr r
                \<longrightarrow> (\<exists>pre post. warnings r
                       = pre @ map hq_message (filter (spec_slot_lacks_hq h) [2 .. p - 1]) @ post)))"
proof (intro impI, elim conjE)
  assume p: "players map_info_json = Some p" "2 \<le> p"
  show "case hq map_info_json of
        None \<Rightarrow> check_hq map_info_json st = Inl KeyError
      | Some h \<Rightarrow>
          check_hq map_info_json st
            = Inr (st\<lparr>warnings := warnings st
                     @ map hq_message (filter (spec_slot_lacks_hq h) [2 .. p - 1])\<rparr>)
          \<and> (\<forall>r. validate_map_info licensing today map_info_json enforce_format_checks warning_options = Inr r
                \<longrightarrow> (\<exists>pre post. warnings r
                       = pre @ map hq_message (filter (spec_slot_lacks_hq h) [2 .. p - 1]) @ post))"
  proof (cases "hq map_info_json")
    case None
    with p show ?thesis by (simp add: check_hq_absent)
  next
    case (Some h)
    let ?ws = "map hq_message (filter (spec_slot_lacks_hq h) [2 .. p - 1])"
    have "\<exists>pre post. warnings r = pre @ ?ws @ post"
      if r: "validate_map_info licensing today map_info_json enforce_format_checks warning_options = Inr r"
      for r
    proof -
      from r obtain st9 st10 st11 st12 where
        a: "check_hq map_info_json st9 = Inr st10"
        and b: "check_structures warning_options map_info_json st10 = Inr st11"
        and c: "check_mods warning_options map_info_json st11 = Inr st12"
        and d: "check_formats enforce_format_checks warning_options map_info_json st12 = Inr r"
        by (rule validate_Inr_chain)
      from a have "warnings st10 = warnings st9 @ ?ws"
        by (auto simp: check_hq_present[OF p Some])
      moreover from check_structures_appends[OF b] obtain q1 where "warnings st11 = warnings st10 @ q1" ..
      moreover from check_mods_appends[OF c] obtain q2 where "warnings st12 = warnings st11 @ q2" ..
      moreover from check_formats_appends[OF d] obtain q3 where "warnings r = warnings st12 @ q3" ..
      ultimately have "warnings r = warnings st9 @ ?ws @ (q1 @ q2 @ q3)" by simp
      then show ?thesis by blast
    qed
    with p Some show ?thesis by (simp add: check_hq_present)
  qed
qed

text \<open>
  C8 as stated fails twice: with every warning option off the HQ warnings are still
  emitted (the warning is not suppressible), and a MapInfo with no \<open>hq\<close> key makes the
  validator raise KeyError.
\<close>

theorem hq_coverage_counterexample:
  "validate_map_info sample_licensing sample_today (sample_map_info\<lparr>hq := Some (HqList [])\<rparr>) True
      no_warning_options
    = Inr \<lparr>warnings = [''player 2 has no HQ - did you forget to add an HQ / command center?'',
                        ''player 3 has no HQ - did you forget to add an HQ / command center?''],
           errors = [], errors_non_fatal = [], passedFormatChecks = True\<rparr>
   \<and> validate_map_info sample_licensing sample_today (sample_map_info\<lparr>hq := None\<rparr>) True
      default_warning_options = Inl KeyError"
  by (simp add: validator_defs sample_defs date_defs allowed_types_def allowed_tilesets_def
      allowed_levelformats_def allowed_mapformats_def MAX_ALLOWED_AUTHOR_NAME_LENGTH_def
      MAX_ALLOWED_MAP_NAME_LENGTH_def MAX_SUGGESTED_MAP_NAME_LENGTH_def NAME_FORMAT_RE_def
      name_char_def hq_iteration_def hq_subscript_def hq_message_def upto_rec1 warn_def
      str_int_def str_nat.simps digit_char_def)

theorem hq_coverage_witness:
  "players (sample_map_info\<lparr>hq := Some (HqList [\<lparr>hq_x = Some 1, hq_y = Some 1\<rparr>,
        \<lparr>hq_x = None, hq_y = None\<rparr>, \<lparr>hq_x = Some 5, hq_y = Some 7\<rparr>])\<rparr>) = Some 4
   \<and> (2::int) \<le> 4
   \<and> check_hq (sample_map_info\<lparr>hq := Some (HqList [\<lparr>hq_x = Some 1, hq_y = Some 1\<rparr>,
        \<lparr>hq_x = None, hq_y = None\<rparr>, \<lparr>hq_x = Some 5, hq_y = Some 7\<rparr>])\<rparr>)
        \<lparr>warnings = [], errors = [], errors_non_fatal = [], passedFormatChecks = True\<rparr>
      = Inr \<lparr>warnings = [''player 3 has no HQ - did you forget to add an HQ / command center?''],
           errors = [], errors_non_fatal = [], passedFormatChecks = True\<rparr>
   \<and> check_hq (sample_map_info\<lparr>hq := None\<rparr>)
        \<lparr>warnings = [], errors = [], errors_non_fatal = [], passedFormatChecks = True\<rparr>
      = Inl KeyError"
proof -
  let ?mi = "sample_map_info\<lparr>hq := Some (HqList [\<lparr>hq_x = Some 1, hq_y = Some 1\<rparr>,
        \<lparr>hq_x = None, hq_y = None\<rparr>, \<lparr>hq_x = Some 5, hq_y = Some 7\<rparr>])\<rparr>"
  let ?st = "\<lparr>warnings = [], errors = [], errors_non_fatal = [], passedFormatChecks = True\<rparr>"
  have a: "players ?mi = Some 4" by (simp add: sample_map_info_def)
  have b: "players (sample_map_info\<lparr>hq := None\<rparr>) = Some 4" by (simp add: sample_map_info_def)
  have c: "hq ?mi = Some (HqList [\<lparr>hq_x = Some 1, hq_y = Some 1\<rparr>,
        \<lparr>hq_x = None, hq_y = None\<rparr>, \<lparr>hq_x = Some 5, hq_y = Some 7\<rparr>])" by simp
  have d: "hq (sample_map_info\<lparr>hq := None\<rparr>) = None" by simp
  from hq_coverage[of ?mi 4 ?st] a c
  have "check_hq ?mi ?st = Inr (?st\<lparr>warnings := warnings ?st
      @ map hq_message (filter (spec_slot_lacks_hq (HqList [\<lparr>hq_x = Some 1, hq_y = Some 1\<rparr>,
        \<lparr>hq_x = None, hq_y = None\<rparr>, \<lparr>hq_x = Some 5, hq_y = Some 7\<rparr>])) [2 .. 4 - 1])\<rparr>)"
    by simp
  then have e: "check_hq ?mi ?st
      = Inr \<lparr>warnings = [''player 3 has no HQ - did you forget to add an HQ / command center?''],
           errors = [], errors_non_fatal = [], passedFormatChecks = True\<rparr>"
    by (simp add: spec_slot_lacks_hq_def upto_rec1 hq_message_def str_int_def str_nat.simps digit_char_def)
  from hq_coverage[of "sample_map_info\<lparr>hq := None\<rparr>" 4 ?st] b d
  have f: "check_hq (sample_map_info\<lparr>hq := None\<rparr>) ?st = Inl KeyError" by simp
  from a e f show ?thesis by simp
qed

section \<open>Normalizer: the author list\<close>

text \<open>
  C2. The author list is to hold each distinct author once, the primary author first. With
  the primary author \<open>NoQ\<close> and the additional authors \<open>NoQ\<close> and \<open>Tester\<close> the code returns
  \<open>NoQ\<close> twice: the set of seen authors is built from the characters of the primary name,
  not from the name. With the primary author \<open>AB\<close> the additional author \<open>B\<close> is dropped.
  The example of the specification (\<open>A\<close> with \<open>A\<close>, \<open>B\<close>, \<open>B\<close>) gives \<open>A\<close>, \<open>B\<close>.
\<close>

theorem author_list_repeats_primary:
  "convert_author (with_authors ''NoQ'' [''NoQ'', ''Tester''])
     = Inr (Some (AuthorList [''NoQ'', ''NoQ'', ''Tester'']))
   \<and> convert_author (with_authors ''AB'' [''B'']) = Inr (Some (AuthorList [''AB'']))
   \<and> convert_author (with_authors ''A'' [''A'', ''B'', ''B'']) = Inr (Some (AuthorList [''A'', ''B'']))"
  by (simp add: convert_author_def with_authors_def subscript_def and_then_def)

section \<open>Database indexer\<close>

lemmas index_defs = add_to_mapdatabase_index_def add_to_index_step_def
  initialize_new_index_page_def page_link_def generate_full_index_page_path_components_def
  prepend_data_root_relurl_components_def update_mapdatabase_versions_file_def
  map_db_full_index_pages_def get_current_index_page_def py_slice_def slice_index_def

lemmas index_sample_defs = sample_db_def sample_page_one_def sample_urls_def sample_clock_def
  empty_db_def

text \<open>
  C3. After an append every page is to hold at most \<open>max_maps_per_index_file\<close> records. With
  a capacity of 2, a first page that already holds two records and two new records, the
  code writes all four records to page 1 and starts no second page: \<open>num_maps_in_page\<close>
  is computed and never used, so the room left on the current page is not taken into
  account.
\<close>

theorem index_page_over_capacity:
  "map_option (map_sum id (\<lambda>db. (page_sizes db, map_option maps (fmlookup (index_pages db) 1))))
     (add_to_mapdatabase_index [''m3'', ''m4''] sample_db sample_urls 2 sample_clock)
   = Some (Inr ([4], Some [''m1'', ''m2'', ''m3'', ''m4'']))"
  by code_simp

text \<open>On an empty index the same capacity of 2 gives pages of 2, 2 and 1 records for five new records.\<close>

lemma index_from_empty_example:
  "map_option (map_sum id page_sizes)
     (add_to_mapdatabase_index [''a'', ''b'', ''c'', ''d'', ''e''] empty_db sample_urls 2 sample_clock)
   = Some (Inr [2, 2, 1])"
  by (simp add: index_defs index_sample_defs page_sizes_def add_to_index_loop.simps
      first_missing_page.simps and_then_def str_nat.simps digit_char_def)

lemma update_versions_fixed:
  assumes "versions_json db = versions_json (update_mapdatabase_versions_file db)"
  shows "update_mapdatabase_versions_file db = db"
proof -
  have "update_mapdatabase_versions_file db
        = db\<lparr>versions_json := versions_json (update_mapdatabase_versions_file db)\<rparr>"
    by (simp add: update_mapdatabase_versions_file_def)
  also have "\<dots> = db\<lparr>versions_json := versions_json db\<rparr>"
    using assms by simp
  also have "\<dots> = db" by simp
  finally show ?thesis .
qed

text \<open>
  C10, as amended. With an empty list of new records \<open>add_to_mapdatabase_index\<close> ends, raises
  nothing, and leaves every page file as it was (none created, none written, no time
  stamp read); it then writes \<open>versions.json\<close> anew from these pages, creating the file when
  there was none. So the database after the call is the one before the call exactly when
  \<open>versions.json\<close> already held the content generated from the pages.
\<close>

theorem add_nothing_regenerates_versions:
  "\<exists>db'. add_to_mapdatabase_index [] db map_db_urls max_maps_per_index_file clock = Some (Inr db')
     \<and> index_pages db' = index_pages db
     \<and> versions_json db'
         = Some \<lparr>versions_type = ''wz2100.mapdatabase.versions.v1'', versions_id = ''versions'',
                 versions = map (\<lambda>pagenum. (links_self (the (fmlookup (index_pages db) pagenum)),
                                              version (the (fmlookup (index_pages db) pagenum))))
                              (map_db_full_index_pages (index_pages db))\<rparr>
     \<and> (db' = db \<longleftrightarrow> versions_json db = versions_json db')"
proof -
  let ?db' = "update_mapdatabase_versions_file db"
  have a: "add_to_mapdatabase_index [] db map_db_urls max_maps_per_index_file clock = Some (Inr ?db')"
    by (simp add: add_to_mapdatabase_index_def add_to_index_loop.simps)
  have b: "index_pages ?db' = index_pages db"
    by (simp add: update_mapdatabase_versions_file_def)
  have c: "versions_json ?db'
         = Some \<lparr>versions_type = ''wz2100.mapdatabase.versions.v1'', versions_id = ''versions'',
                 versions = map (\<lambda>pagenum. (links_self (the (fmlookup (index_pages db) pagenum)),
                                              version (the (fmlookup (index_pages db) pagenum))))
                              (map_db_full_index_pages (index_pages db))\<rparr>"
    by (simp add: update_mapdatabase_versions_file_def)
  have d: "?db' = db \<longleftrightarrow> versions_json db = versions_json ?db'"
  proof
    assume "?db' = db"
    then show "versions_json db = versions_json ?db'" by simp
  next
    assume "versions_json db = versions_json ?db'"
    then show "?db' = db" by (rule update_versions_fixed)
  qed
  from a b c d show ?thesis by blast
qed

text \<open>
  C10 as stated fails on a database that has no \<open>versions.json\<close> yet (here the empty one):
  the call with no new records creates the file.
\<close>

theorem add_nothing_counterexample:
  "versions_json empty_db = None
   \<and> map_option (map_sum id versions_json)
        (add_to_mapdatabase_index [] empty_db sample_urls DEFAULT_MAX_MAPS_PER_INDEX_FILE sample_clock)
      = Some (Inr (Some \<lparr>versions_type = ''wz2100.mapdatabase.versions.v1'',
                         versions_id = ''versions'', versions = []\<rparr>))"
  by (simp add: add_to_mapdatabase_index_def add_to_index_loop.simps empty_db_def
      update_mapdatabase_versions_file_def map_db_full_index_pages_def first_missing_page.simps)

theorem add_nothing_regenerates_versions_witness:
  "add_to_mapdatabase_index [] sample_db sample_urls DEFAULT_MAX_MAPS_PER_INDEX_FILE sample_clock
     = Some (Inr sample_db)
   \<and> versions_json sample_db
       = Some \<lparr>versions_type = ''wz2100.mapdatabase.versions.v1'', versions_id = ''versions'',
               versions = [(''/api/v1/full.json'', ''2023-05-01 00:00:00'')]\<rparr>"
proof -
  have v: "versions_json sample_db
       = Some \<lparr>versions_type = ''wz2100.mapdatabase.versions.v1'', versions_id = ''versions'',
               versions = [(''/api/v1/full.json'', ''2023-05-01 00:00:00'')]\<rparr>"
    by (simp add: sample_db_def sample_page_one_def update_mapdatabase_versions_file_def
        map_db_full_index_pages_def first_missing_page.simps)
  have p: "map (\<lambda>pagenum. (links_self (the (fmlookup (index_pages sample_db) pagenum)),
                            version (the (fmlookup (index_pages sample_db) pagenum))))
             (map_db_full_index_pages (index_pages sample_db))
           = [(''/api/v1/full.json'', ''2023-05-01 00:00:00'')]"
    by (simp add: sample_db_def sample_page_one_def update_mapdatabase_versions_file_def
        map_db_full_index_pages_def first_missing_page.simps)
  from add_nothing_regenerates_versions[of sample_db sample_urls DEFAULT_MAX_MAPS_PER_INDEX_FILE sample_clock]
  obtain db' where
    r: "add_to_mapdatabase_index [] sample_db sample_urls DEFAULT_MAX_MAPS_PER_INDEX_FILE sample_clock
        = Some (Inr db')"
    and w: "versions_json db'
         = Some \<lparr>versions_type = ''wz2100.mapdatabase.versions.v1'', versions_id = ''versions'',
                 versions = map (\<lambda>pagenum. (links_self (the (fmlookup (index_pages sample_db) pagenum)),
                                              version (the (fmlookup (index_pages sample_db) pagenum))))
                              (map_db_full_index_pages (index_pages sample_db))\<rparr>"
    and e: "db' = sample_db \<longleftrightarrow> versions_json sample_db = versions_json db'"
    by blast
  from w p v have "versions_json sample_db = versions_json db'" by simp
  with e have "db' = sample_db" by simp
  with r v show ?thesis by simp
qed

section \<open>Release builder: tags and the start of a commit\<close>

lemma digit_val_digit_char: "d < 10 \<Longrightarrow> digit_val (digit_char d) = int d"
proof -
  assume "d < 10"
  then have "d \<in> {0, 1, 2, 3, 4, 5, 6, 7, 8, 9}" by auto
  then show ?thesis
    unfolding digit_val_def digit_char_def by (elim insertE emptyE) simp_all
qed

lemma is_digit_digit_char: "d < 10 \<Longrightarrow> is_digit (digit_char d)"
proof -
  assume "d < 10"
  then have "d \<in> {0, 1, 2, 3, 4, 5, 6, 7, 8, 9}" by auto
  then show ?thesis
    unfolding is_digit_def digit_char_def by (elim insertE emptyE) simp_all
qed

lemma str_nat_digits: "list_all is_digit (str_nat n) \<and> str_nat n \<noteq> []"
proof (induction n rule: str_nat.induct)
  case (1 n)
  show ?case
  proof (cases "n < 10")
    case True
    then show ?thesis by (subst (1 2) str_nat.simps) (simp add: is_digit_digit_char)
  next
    case False
    with 1 show ?thesis by (subst (1 2) str_nat.simps) (simp add: is_digit_digit_char)
  qed
qed

lemma int_of_digits_snoc: "int_of_digits (s @ [c]) = 10 * int_of_digits s + digit_val c"
  by (simp add: int_of_digits_def)

lemma int_of_digits_str_nat: "int_of_digits (str_nat n) = int n"
proof (induction n rule: str_nat.induct)
  case (1 n)
  show ?case
  proof (cases "n < 10")
    case True
    then show ?thesis
      by (subst str_nat.simps) (simp add: int_of_digits_def digit_val_digit_char)
  next
    case False
    then have "int_of_digits (str_nat n) = 10 * int (n div 10) + int (n mod 10)"
      using 1 by (subst str_nat.simps) (simp add: int_of_digits_snoc digit_val_digit_char)
    moreover have "10 * int (n div 10) + int (n mod 10) = int n"
      by presburger
    ultimately show ?thesis by simp
  qed
qed

lemma release_version_of_tag:
  "RELEASE_VERSION_RE (''v'' @ str_nat n) = Some (str_nat n)"
proof -
  obtain d ds where s: "str_nat n = d # ds"
    using str_nat_digits[of n] by (cases "str_nat n") auto
  have all: "\<forall>c\<in>set (d # ds). is_digit c"
    using str_nat_digits[of n] unfolding s by (simp add: list_all_iff)
  then have "takeWhile is_digit (d # ds) = d # ds" by (simp only: takeWhile_eq_all_conv)
  with all show ?thesis
    unfolding s RELEASE_VERSION_RE_def by (simp add: Let_def)
qed

lemma int_of_digits_nonneg: "0 \<le> int_of_digits s"
proof -
  have "0 \<le> acc \<Longrightarrow> 0 \<le> foldl (\<lambda>acc c. 10 * acc + digit_val c) acc s" for acc
    by (induction s arbitrary: acc) (simp_all add: digit_val_def)
  then show ?thesis by (simp add: int_of_digits_def)
qed

lemma next_tag_major:
  "RELEASE_VERSION_RE (''v'' @ str_int (int_of_digits major + 1)) = Some (str_nat (nat (int_of_digits major + 1)))"
  using int_of_digits_nonneg[of major] by (simp add: str_int_def release_version_of_tag del: append.simps)

lemma next_tag_differs:
  assumes "RELEASE_VERSION_RE tag = Some major"
  shows "''v'' @ str_int (int_of_digits major + 1) \<noteq> tag"
proof
  assume "''v'' @ str_int (int_of_digits major + 1) = tag"
  with next_tag_major[of major] assms
  have "major = str_nat (nat (int_of_digits major + 1))" by simp
  then have "int_of_digits major = int_of_digits (str_nat (nat (int_of_digits major + 1)))" by simp
  with int_of_digits_nonneg[of major] show False
    by (simp add: int_of_digits_str_nat)
qed

lemma start_commit_decision:
  assumes d: "map_of (releasesGeneratedThisRun st) (MAP_REPO_NEW_RELEASE_TAGNAME st) = Some d"
    and m: "RELEASE_VERSION_RE (MAP_REPO_NEW_RELEASE_TAGNAME st) = Some major"
  shows "\<exists>st'. start_commit cap n st = Inr st'
      \<and> (MAP_REPO_NEW_RELEASE_TAGNAME st' \<noteq> MAP_REPO_NEW_RELEASE_TAGNAME st
           \<longleftrightarrow> assets d > 0 \<and> n + assets d > cap)
      \<and> (if assets d > 0 \<and> n + assets d > cap
          then MAP_REPO_NEW_RELEASE_TAGNAME st' = ''v'' @ str_int (int_of_digits major + 1)
               \<and> MAP_REPO_NEW_RELEASE_TAGNAME st \<in> set (releaseList st')
               \<and> map_of (releasesGeneratedThisRun st') (MAP_REPO_NEW_RELEASE_TAGNAME st')
                   = Some \<lparr>commits = [], assets = 0\<rparr>
               \<and> map_of (releasesGeneratedThisRun st') (MAP_REPO_NEW_RELEASE_TAGNAME st) = Some d
          else st' = st)"
proof (cases "assets d > 0 \<and> n + assets d > cap")
  case False
  with d show ?thesis by (auto simp: start_commit_def subscript_def and_then_def)
next
  case True
  let ?new = "''v'' @ str_int (int_of_digits major + 1)"
  have ne: "?new \<noteq> MAP_REPO_NEW_RELEASE_TAGNAME st" by (rule next_tag_differs[OF m])
  let ?st1 = "(if MAP_REPO_NEW_RELEASE_TAGNAME st \<notin> set (releaseList st)
                    then st\<lparr>releaseList := releaseList st @ [MAP_REPO_NEW_RELEASE_TAGNAME st]\<rparr>
                    else st)"
  have t1: "MAP_REPO_NEW_RELEASE_TAGNAME ?st1 = MAP_REPO_NEW_RELEASE_TAGNAME st"
    and r1: "releasesGeneratedThisRun ?st1 = releasesGeneratedThisRun st"
    and l1: "MAP_REPO_NEW_RELEASE_TAGNAME st \<in> set (releaseList ?st1)"
    by simp_all
  have "start_commit cap n st = Inr (?st1\<lparr>MAP_REPO_NEW_RELEASE_TAGNAME := ?new,
      releasesGeneratedThisRun := AList.update ?new \<lparr>commits = [], assets = 0\<rparr> (releasesGeneratedThisRun st)\<rparr>)"
    using True d m
    by (simp add: start_commit_def subscript_def and_then_def generate_next_release_details_def
        Let_def t1 r1 del: append.simps)
  with True d ne l1 show ?thesis
    by (simp add: update_conv' del: append.simps)
qed

section \<open>Release builder: the maps of a commit\<close>

lemma repackage_loop_no_collision: "repackage_loop env f False a k = Some (a, k)"
  by (subst repackage_loop.simps) simp

lemma validate_returns_keys:
  assumes "validate_map_info licensing today map_info_json enforce_format_checks warning_options = Inr r"
  shows "\<exists>n p. name map_info_json = Some n \<and> players map_info_json = Some p"
proof -
  from assms obtain st0 st1 st2 st3 where
    a: "check_name warning_options map_info_json st0 = Inr st1"
    and b: "check_players map_info_json st2 = Inr st3"
    unfolding validate_map_info_def and_then_Inr by blast
  from a have "\<exists>n. name map_info_json = Some n"
    by (cases "name map_info_json") (simp_all add: check_name_def subscript_def and_then_def)
  moreover from b have "\<exists>p. players map_info_json = Some p"
    by (cases "players map_info_json") (simp_all add: check_players_def subscript_def and_then_def)
  ultimately show ?thesis by blast
qed

text \<open>
  One map folder on which the validator returns: nothing changes but, when the folder is
  packaged, the asset count of the current release, one up, and the archive file of the
  folder in the current release, written without a salt.
\<close>

lemma process_map_folder_result:
  assumes q: "validator_returns env f"
    and d: "map_of (releasesGeneratedThisRun st) (MAP_REPO_NEW_RELEASE_TAGNAME st) = Some d"
  shows "\<exists>st'. process_map_folder env f st = Some (Inr st')
      \<and> MAP_REPO_NEW_RELEASE_TAGNAME st' = MAP_REPO_NEW_RELEASE_TAGNAME st
      \<and> releaseList st' = releaseList st
      \<and> release_json st' = release_json st
      \<and> salts_drawn st' = salts_drawn st
      \<and> map_of (releasesGeneratedThisRun st')
          = (map_of (releasesGeneratedThisRun st))(MAP_REPO_NEW_RELEASE_TAGNAME st \<mapsto>
               d\<lparr>assets := assets d + (if is_packaged env f then 1 else 0)\<rparr>)
      \<and> map_of (archive_files st')
          = (if is_packaged env f
             then (map_of (archive_files st))((MAP_REPO_NEW_RELEASE_TAGNAME st, packaged_as env f) \<mapsto>
                    compress_map_folder env f None)
             else map_of (archive_files st))"
proof -
  obtain rc mi where m: "maptools_package_info env f = (rc, mi)" by (cases "maptools_package_info env f")
  have same: "(map_of (releasesGeneratedThisRun st))(MAP_REPO_NEW_RELEASE_TAGNAME st \<mapsto> d)
      = map_of (releasesGeneratedThisRun st)"
    using d by (rule map_upd_triv)
  show ?thesis
  proof (cases "rc = 0")
    case False
    then show ?thesis
      using m same by (simp add: process_map_folder_def is_packaged_def)
  next
    case True
    with q m obtain r where
      r: "validate_map_info (spdx_licensing env) (date_today env) mi True default_warning_options = Inr r"
      by (auto simp: validator_returns_def split: sum.splits)
    show ?thesis
    proof (cases "errors r = []")
      case False
      then show ?thesis
        using m True r same by (simp add: process_map_folder_def is_packaged_def)
    next
      case e: True
      from validate_returns_keys[OF r] obtain n p where
        k: "name mi = Some n" "players mi = Some p" by blast
      show ?thesis
        using m True r e k d
        by (simp add: process_map_folder_def is_packaged_def subscript_def and_then_def
            map_has_hash_collision_def repackage_loop_no_collision update_conv' Let_def
            packaged_as_def)
    qed
  qed
qed

text \<open>The archive files after the map folders \<open>fs\<close> were packaged into the release \<open>tag\<close>.\<close>

lemma process_map_folders_result:
  assumes "\<forall>f\<in>set fs. validator_returns env f"
    and "map_of (releasesGeneratedThisRun st) (MAP_REPO_NEW_RELEASE_TAGNAME st) = Some d"
  shows "\<exists>st'. run_fold (process_map_folder env) fs st = Some (Inr st')
      \<and> MAP_REPO_NEW_RELEASE_TAGNAME st' = MAP_REPO_NEW_RELEASE_TAGNAME st
      \<and> releaseList st' = releaseList st
      \<and> release_json st' = release_json st
      \<and> salts_drawn st' = salts_drawn st
      \<and> map_of (releasesGeneratedThisRun st')
          = (map_of (releasesGeneratedThisRun st))(MAP_REPO_NEW_RELEASE_TAGNAME st \<mapsto>
               d\<lparr>assets := assets d + int (length (filter (is_packaged env) fs))\<rparr>)
      \<and> map_of (archive_files st')
          = foldl (\<lambda>m f. m((MAP_REPO_NEW_RELEASE_TAGNAME st, packaged_as env f) \<mapsto>
                             compress_map_folder env f None))
              (map_of (archive_files st)) (filter (is_packaged env) fs)"
  using assms
proof (induction fs arbitrary: st d)
  case Nil
  then show ?case by (simp add: map_upd_triv)
next
  case (Cons f fs)
  from Cons.prems have q: "validator_returns env f" and qs: "\<forall>f\<in>set fs. validator_returns env f"
    by simp_all
  from process_map_folder_result[OF q Cons.prems(2)] obtain st1 where
    s1: "process_map_folder env f st = Some (Inr st1)"
    and t1: "MAP_REPO_NEW_RELEASE_TAGNAME st1 = MAP_REPO_NEW_RELEASE_TAGNAME st"
    and l1: "releaseList st1 = releaseList st"
    and j1: "release_json st1 = release_json st"
    and k1: "salts_drawn st1 = salts_drawn st"
    and m1: "map_of (releasesGeneratedThisRun st1)
          = (map_of (releasesGeneratedThisRun st))(MAP_REPO_NEW_RELEASE_TAGNAME st \<mapsto>
               d\<lparr>assets := assets d + (if is_packaged env f then 1 else 0)\<rparr>)"
    and a1: "map_of (archive_files st1)
          = (if is_packaged env f
             then (map_of (archive_files st))((MAP_REPO_NEW_RELEASE_TAGNAME st, packaged_as env f) \<mapsto>
                    compress_map_folder env f None)
             else map_of (archive_files st))"
    by blast
  let ?d1 = "d\<lparr>assets := assets d + (if is_packaged env f then 1 else 0)\<rparr>"
  have d1: "map_of (releasesGeneratedThisRun st1) (MAP_REPO_NEW_RELEASE_TAGNAME st1) = Some ?d1"
    by (simp add: m1 t1)
  from Cons.IH[OF qs d1] obtain st2 where
    s2: "run_fold (process_map_folder env) fs st1 = Some (Inr st2)"
    and t2: "MAP_REPO_NEW_RELEASE_TAGNAME st2 = MAP_REPO_NEW_RELEASE_TAGNAME st1"
    and l2: "releaseList st2 = releaseList st1"
    and j2: "release_json st2 = release_json st1"
    and k2: "salts_drawn st2 = salts_drawn st1"
    and m2: "map_of (releasesGeneratedThisRun st2)
          = (map_of (releasesGeneratedThisRun st1))(MAP_REPO_NEW_RELEASE_TAGNAME st1 \<mapsto>
               ?d1\<lparr>assets := assets ?d1 + int (length (filter (is_packaged env) fs))\<rparr>)"
    and a2: "map_of (archive_files st2)
          = foldl (\<lambda>m f. m((MAP_REPO_NEW_RELEASE_TAGNAME st1, packaged_as env f) \<mapsto>
                             compress_map_folder env f None))
              (map_of (archive_files st1)) (filter (is_packaged env) fs)"
    by blast
  have r: "run_fold (process_map_folder env) (f # fs) st = Some (Inr st2)"
    by (simp add: s1 s2 run_then_def)
  have m: "map_of (releasesGeneratedThisRun st2)
          = (map_of (releasesGeneratedThisRun st))(MAP_REPO_NEW_RELEASE_TAGNAME st \<mapsto>
               d\<lparr>assets := assets d + int (length (filter (is_packaged env) (f # fs)))\<rparr>)"
    by (simp add: m2 m1 t1 add.assoc)
  have a: "map_of (archive_files st2)
          = foldl (\<lambda>m f. m((MAP_REPO_NEW_RELEASE_TAGNAME st, packaged_as env f) \<mapsto>
                             compress_map_folder env f None))
              (map_of (archive_files st)) (filter (is_packaged env) (f # fs))"
    by (simp add: a2 a1 t1)
  show ?case
  proof (intro exI conjI)
    show "run_fold (process_map_folder env) (f # fs) st = Some (Inr st2)" by (rule r)
    show "MAP_REPO_NEW_RELEASE_TAGNAME st2 = MAP_REPO_NEW_RELEASE_TAGNAME st" by (simp add: t1 t2)
    show "releaseList st2 = releaseList st" by (simp add: l1 l2)
    show "release_json st2 = release_json st" by (simp add: j1 j2)
    show "salts_drawn st2 = salts_drawn st" by (simp add: k1 k2)
    show "map_of (releasesGeneratedThisRun st2)
          = (map_of (releasesGeneratedThisRun st))(MAP_REPO_NEW_RELEASE_TAGNAME st \<mapsto>
               d\<lparr>assets := assets d + int (length (filter (is_packaged env) (f # fs)))\<rparr>)"
      by (rule m)
    show "map_of (archive_files st2)
          = foldl (\<lambda>m f. m((MAP_REPO_NEW_RELEASE_TAGNAME st, packaged_as env f) \<mapsto>
                             compress_map_folder env f None))
              (map_of (archive_files st)) (filter (is_packaged env) (f # fs))"
      by (rule a)
  qed
qed

text \<open>Successive writes to a map: its keys, and the value under a key written once.\<close>

lemma dom_foldl_upd:
  "dom (foldl (\<lambda>m x. m(key x \<mapsto> val x)) m0 xs) = dom m0 \<union> key ` set xs"
  by (induction xs arbitrary: m0) auto

lemma foldl_upd_other:
  "k \<notin> key ` set xs \<Longrightarrow> foldl (\<lambda>m x. m(key x \<mapsto> val x)) m0 xs k = m0 k"
  by (induction xs arbitrary: m0) auto

lemma foldl_upd_value:
  assumes "inj_on key (set xs)" "x \<in> set xs"
  shows "foldl (\<lambda>m x. m(key x \<mapsto> val x)) m0 xs (key x) = Some (val x)"
  using assms
proof (induction xs arbitrary: m0)
  case Nil
  then show ?case by simp
next
  case (Cons y ys)
  have inj: "inj_on key (set ys)" using Cons.prems(1) by (simp add: inj_on_def)
  show ?case
  proof (cases "x \<in> set ys")
    case True
    from Cons.IH[OF inj True] show ?thesis by simp
  next
    case False
    with Cons.prems have xy: "x = y" by simp
    have "key y \<notin> key ` set ys"
    proof
      assume "key y \<in> key ` set ys"
      then obtain z where z: "z \<in> set ys" "key z = key y" by auto
      with Cons.prems(1) have "z = y" by (auto simp: inj_on_def)
      with z False xy show False by simp
    qed
    then have "foldl (\<lambda>m x. m(key x \<mapsto> val x)) (m0(key y \<mapsto> val y)) ys (key y)
        = (m0(key y \<mapsto> val y)) (key y)"
      by (rule foldl_upd_other)
    then have "foldl (\<lambda>m x. m(key x \<mapsto> val x)) (m0(key y \<mapsto> val y)) ys (key y) = Some (val y)"
      by (simp only: fun_upd_same)
    then show ?thesis by (simp only: xy foldl_Cons)
  qed
qed

section \<open>Release builder: hash collisions\<close>

lemma validate_sample:
  "validate_map_info sample_licensing sample_today sample_map_info True default_warning_options
   = Inr \<lparr>warnings = [], errors = [], errors_non_fatal = [], passedFormatChecks = True\<rparr>"
  by (simp add: validator_defs sample_defs date_defs allowed_types_def allowed_tilesets_def
      allowed_levelformats_def allowed_mapformats_def MAX_ALLOWED_AUTHOR_NAME_LENGTH_def
      MAX_ALLOWED_MAP_NAME_LENGTH_def MAX_SUGGESTED_MAP_NAME_LENGTH_def NAME_FORMAT_RE_def
      name_char_def hq_iteration_def hq_subscript_def upto_rec1)

lemma sample_keys:
  "players sample_map_info = Some 4" "name sample_map_info = Some ''Rush_Remake''"
  by (simp_all add: sample_map_info_def)

text \<open>
  C5. A collision with an archive already produced in the run is to be detected and the
  map packaged again with a random salt. Two commits that change the same map folder,
  with one asset per release, give the archive of release \<open>v1\<close> and the archive of release
  \<open>v2\<close> the same bytes and so the same hash, whatever the packer and the hash function,
  and no salt is drawn: \<open>map_has_hash_collision\<close> always answers \<open>False\<close>.
\<close>

theorem hash_collision_not_detected:
  "map_option (map_sum id (\<lambda>st. (map (\<lambda>(p, a). (p, hash a)) (archive_files st), salts_drawn st)))
     (generate_releases_for_maprepo
        (sample_build_env (\<lambda>commit. [''maps/Rush_Remake'']) compress hash) [''c1'', ''c2''] ''v0'' 1)
   = Some (Inr ([((''v1'', ''4p-Rush_Remake.wz''), hash (compress ''maps/Rush_Remake'' None)),
                 ((''v2'', ''4p-Rush_Remake.wz''), hash (compress ''maps/Rush_Remake'' None))], 0))"
  by (simp add: generate_releases_for_maprepo_def process_commit_def start_commit_def add_commit_def
      finish_commit_def process_map_folder_def generate_next_release_details_def
      RELEASE_VERSION_RE_def is_digit_def int_of_digits_def digit_val_def str_int_def
      str_nat.simps digit_char_def run_then_def and_then_def subscript_def is_maps_folder_def
      sample_build_env_def validate_sample map_has_hash_collision_def repackage_loop_no_collision
      clean_map_name_def name_char_def sample_keys Let_def)

section \<open>Release builder: one commit\<close>

lemma release_details_eq:
  "(d::ReleaseDetails)\<lparr>commits := a, assets := b\<rparr> = \<lparr>commits = a, assets = b\<rparr>"
  by (cases d) simp

lemma process_commit_result:
  assumes fs: "filter is_maps_folder (git_changed_folders env c) = fs" "fs \<noteq> []"
    and q: "\<forall>f\<in>set fs. validator_returns env f"
    and d: "map_of (releasesGeneratedThisRun st) (MAP_REPO_NEW_RELEASE_TAGNAME st) = Some d"
    and m: "RELEASE_VERSION_RE (MAP_REPO_NEW_RELEASE_TAGNAME st) = Some major"
  shows "\<exists>st'. process_commit env cap c st = Some (Inr st')
      \<and> (if assets d > 0 \<and> int (length fs) + assets d > cap
          then MAP_REPO_NEW_RELEASE_TAGNAME st' = ''v'' @ str_int (int_of_digits major + 1)
               \<and> MAP_REPO_NEW_RELEASE_TAGNAME st \<in> set (releaseList st')
               \<and> map_of (releasesGeneratedThisRun st')
                   = (map_of (releasesGeneratedThisRun st))(''v'' @ str_int (int_of_digits major + 1) \<mapsto>
                        \<lparr>commits = [c], assets = int (length (filter (is_packaged env) fs))\<rparr>)
          else MAP_REPO_NEW_RELEASE_TAGNAME st' = MAP_REPO_NEW_RELEASE_TAGNAME st
               \<and> map_of (releasesGeneratedThisRun st')
                   = (map_of (releasesGeneratedThisRun st))(MAP_REPO_NEW_RELEASE_TAGNAME st \<mapsto>
                        \<lparr>commits = commits d @ [c],
                         assets = assets d + int (length (filter (is_packaged env) fs))\<rparr>))
      \<and> map_of (archive_files st')
          = foldl (\<lambda>m f. m((MAP_REPO_NEW_RELEASE_TAGNAME st', packaged_as env f) \<mapsto>
                             compress_map_folder env f None))
              (map_of (archive_files st)) (filter (is_packaged env) fs)
      \<and> (\<exists>d'. map_of (releasesGeneratedThisRun st') (MAP_REPO_NEW_RELEASE_TAGNAME st') = Some d'
            \<and> releaseList st' =
                 (releaseList st
                    @ (if (assets d > 0 \<and> int (length fs) + assets d > cap)
                          \<and> MAP_REPO_NEW_RELEASE_TAGNAME st \<notin> set (releaseList st)
                       then [MAP_REPO_NEW_RELEASE_TAGNAME st] else []))
                 @ (if assets d' > 0
                       \<and> MAP_REPO_NEW_RELEASE_TAGNAME st' \<notin> set (releaseList st)
                       \<and> \<not> ((assets d > 0 \<and> int (length fs) + assets d > cap)
                              \<and> MAP_REPO_NEW_RELEASE_TAGNAME st' = MAP_REPO_NEW_RELEASE_TAGNAME st)
                    then [MAP_REPO_NEW_RELEASE_TAGNAME st'] else []))"
proof -
  let ?n = "int (length fs)"
  let ?seal = "assets d > 0 \<and> ?n + assets d > cap"
  let ?new = "''v'' @ str_int (int_of_digits major + 1)"
  let ?cnt = "int (length (filter (is_packaged env) fs))"
  from start_commit_decision[OF d m, of cap ?n] obtain st1 where
    s1: "start_commit cap ?n st = Inr st1"
    and c1: "if ?seal
          then MAP_REPO_NEW_RELEASE_TAGNAME st1 = ?new
               \<and> MAP_REPO_NEW_RELEASE_TAGNAME st \<in> set (releaseList st1)
               \<and> map_of (releasesGeneratedThisRun st1) (MAP_REPO_NEW_RELEASE_TAGNAME st1)
                   = Some \<lparr>commits = [], assets = 0\<rparr>
               \<and> map_of (releasesGeneratedThisRun st1) (MAP_REPO_NEW_RELEASE_TAGNAME st) = Some d
          else st1 = st"
    by blast
  define d1 where "d1 = (if ?seal then \<lparr>commits = [], assets = 0\<rparr> else d)"
  have d1: "map_of (releasesGeneratedThisRun st1) (MAP_REPO_NEW_RELEASE_TAGNAME st1) = Some d1"
    using c1 d by (auto simp: d1_def split: if_splits)
  define st2 where "st2 = st1\<lparr>releasesGeneratedThisRun :=
                 AList.update (MAP_REPO_NEW_RELEASE_TAGNAME st1)
                   (d1\<lparr>commits := commits d1 @ [c]\<rparr>) (releasesGeneratedThisRun st1)\<rparr>"
  have s2: "add_commit c st1 = Inr st2"
    using d1 by (simp add: add_commit_def subscript_def and_then_def st2_def)
  have t2: "MAP_REPO_NEW_RELEASE_TAGNAME st2 = MAP_REPO_NEW_RELEASE_TAGNAME st1"
    and l2: "releaseList st2 = releaseList st1"
    and m2: "map_of (releasesGeneratedThisRun st2)
        = (map_of (releasesGeneratedThisRun st1))(MAP_REPO_NEW_RELEASE_TAGNAME st1 \<mapsto> d1\<lparr>commits := commits d1 @ [c]\<rparr>)"
    by (simp_all add: st2_def update_conv')
  have d2: "map_of (releasesGeneratedThisRun st2) (MAP_REPO_NEW_RELEASE_TAGNAME st2)
        = Some (d1\<lparr>commits := commits d1 @ [c]\<rparr>)"
    by (simp add: m2 t2)
  from process_map_folders_result[OF q d2] obtain st3 where
    s3: "run_fold (process_map_folder env) fs st2 = Some (Inr st3)"
    and t3: "MAP_REPO_NEW_RELEASE_TAGNAME st3 = MAP_REPO_NEW_RELEASE_TAGNAME st2"
    and l3: "releaseList st3 = releaseList st2"
    and m3: "map_of (releasesGeneratedThisRun st3)
          = (map_of (releasesGeneratedThisRun st2))(MAP_REPO_NEW_RELEASE_TAGNAME st2 \<mapsto>
               (d1\<lparr>commits := commits d1 @ [c]\<rparr>)\<lparr>assets := assets (d1\<lparr>commits := commits d1 @ [c]\<rparr>) + ?cnt\<rparr>)"
    and a3: "map_of (archive_files st3)
          = foldl (\<lambda>m f. m((MAP_REPO_NEW_RELEASE_TAGNAME st2, packaged_as env f) \<mapsto>
                             compress_map_folder env f None))
              (map_of (archive_files st2)) (filter (is_packaged env) fs)"
    by blast
  have a1: "archive_files st1 = archive_files st"
    using s1 d m
    by (auto simp: start_commit_def subscript_def and_then_def generate_next_release_details_def
        Let_def split: if_splits)
  have a2: "archive_files st2 = archive_files st1"
    by (simp add: st2_def)
  define d3 where "d3 = \<lparr>commits = commits d1 @ [c], assets = assets d1 + ?cnt\<rparr>"
  have m3': "map_of (releasesGeneratedThisRun st3)
          = (map_of (releasesGeneratedThisRun st1))(MAP_REPO_NEW_RELEASE_TAGNAME st1 \<mapsto> d3)"
    by (simp add: m3 m2 t2 d3_def release_details_eq)
  have d3: "map_of (releasesGeneratedThisRun st3) (MAP_REPO_NEW_RELEASE_TAGNAME st3) = Some d3"
    by (simp add: m3' t3 t2)
  define st4 where "st4 = (let st' = st3\<lparr>release_json := AList.update (MAP_REPO_NEW_RELEASE_TAGNAME st3)
                        (c, commits d3) (release_json st3)\<rparr>
       in (if assets d3 > 0 \<and> MAP_REPO_NEW_RELEASE_TAGNAME st3 \<notin> set (releaseList st3)
               then st'\<lparr>releaseList := releaseList st3 @ [MAP_REPO_NEW_RELEASE_TAGNAME st3]\<rparr>
               else st'))"
  have s4: "finish_commit c st3 = Inr st4"
    using d3 by (simp add: finish_commit_def subscript_def and_then_def st4_def Let_def)
  have a4: "archive_files st4 = archive_files st3"
    by (simp add: st4_def Let_def)
  have t4: "MAP_REPO_NEW_RELEASE_TAGNAME st4 = MAP_REPO_NEW_RELEASE_TAGNAME st1"
    and m4: "releasesGeneratedThisRun st4 = releasesGeneratedThisRun st3"
    and l4: "releaseList st4 = releaseList st1
        @ (if assets d3 > 0 \<and> MAP_REPO_NEW_RELEASE_TAGNAME st1 \<notin> set (releaseList st1)
           then [MAP_REPO_NEW_RELEASE_TAGNAME st1] else [])"
    by (auto simp: st4_def Let_def t3 t2 l3 l2)
  have run: "process_commit env cap c st = Some (Inr st4)"
    using fs by (simp add: process_commit_def Let_def s1 s2 s3 s4 run_then_def and_then_def)
  have l1: "releaseList st1 = releaseList st
        @ (if ?seal \<and> MAP_REPO_NEW_RELEASE_TAGNAME st \<notin> set (releaseList st)
           then [MAP_REPO_NEW_RELEASE_TAGNAME st] else [])"
  proof (cases ?seal)
    case False
    with c1 have "st1 = st" by simp
    with False show ?thesis by auto
  next
    case True
    have "start_commit cap ?n st = Inr st1" by (rule s1)
    with True d m have "releaseList st1 = releaseList st
        @ (if MAP_REPO_NEW_RELEASE_TAGNAME st \<notin> set (releaseList st)
           then [MAP_REPO_NEW_RELEASE_TAGNAME st] else [])"
      by (auto simp: start_commit_def subscript_def and_then_def generate_next_release_details_def
          Let_def split: if_splits)
    with True show ?thesis by auto
  qed
  show ?thesis
  proof (intro exI conjI)
    show "process_commit env cap c st = Some (Inr st4)" by (rule run)
    show "if ?seal
          then MAP_REPO_NEW_RELEASE_TAGNAME st4 = ?new
               \<and> MAP_REPO_NEW_RELEASE_TAGNAME st \<in> set (releaseList st4)
               \<and> map_of (releasesGeneratedThisRun st4)
                   = (map_of (releasesGeneratedThisRun st))(?new \<mapsto> \<lparr>commits = [c], assets = ?cnt\<rparr>)
          else MAP_REPO_NEW_RELEASE_TAGNAME st4 = MAP_REPO_NEW_RELEASE_TAGNAME st
               \<and> map_of (releasesGeneratedThisRun st4)
                   = (map_of (releasesGeneratedThisRun st))(MAP_REPO_NEW_RELEASE_TAGNAME st \<mapsto>
                        \<lparr>commits = commits d @ [c], assets = assets d + ?cnt\<rparr>)"
    proof (cases ?seal)
      case False
      with c1 have "st1 = st" by simp
      then show ?thesis
        by (simp add: if_not_P[OF False] t4 m4 m3' d3_def d1_def)
    next
      case True
      have "start_commit cap ?n st = Inr st1" by (rule s1)
      with True d m have r1: "releasesGeneratedThisRun st1
          = AList.update ?new \<lparr>commits = [], assets = 0\<rparr> (releasesGeneratedThisRun st)"
        by (auto simp: start_commit_def subscript_def and_then_def generate_next_release_details_def
            Let_def split: if_splits)
      from True c1 have tn: "MAP_REPO_NEW_RELEASE_TAGNAME st1 = ?new" by simp
      from True c1 have "MAP_REPO_NEW_RELEASE_TAGNAME st \<in> set (releaseList st1)" by simp
      then have "MAP_REPO_NEW_RELEASE_TAGNAME st \<in> set (releaseList st4)" by (simp add: l4)
      with tn show ?thesis
        by (simp add: if_P[OF True] t4 m4 m3' d3_def d1_def r1 update_conv')
    qed
    show "map_of (archive_files st4)
          = foldl (\<lambda>m f. m((MAP_REPO_NEW_RELEASE_TAGNAME st4, packaged_as env f) \<mapsto>
                             compress_map_folder env f None))
              (map_of (archive_files st)) (filter (is_packaged env) fs)"
      by (simp add: a4 a3 a2 a1 t4 t2)
    show "map_of (releasesGeneratedThisRun st4) (MAP_REPO_NEW_RELEASE_TAGNAME st4) = Some d3"
      by (simp add: m4 t4 m3')
    show "releaseList st4 =
                 (releaseList st
                    @ (if ?seal \<and> MAP_REPO_NEW_RELEASE_TAGNAME st \<notin> set (releaseList st)
                       then [MAP_REPO_NEW_RELEASE_TAGNAME st] else []))
                 @ (if assets d3 > 0
                       \<and> MAP_REPO_NEW_RELEASE_TAGNAME st4 \<notin> set (releaseList st)
                       \<and> \<not> (?seal \<and> MAP_REPO_NEW_RELEASE_TAGNAME st4 = MAP_REPO_NEW_RELEASE_TAGNAME st)
                    then [MAP_REPO_NEW_RELEASE_TAGNAME st4] else [])"
      unfolding l4 l1 t4 by auto
  qed
qed


lemma str_nat_inj: "str_nat a = str_nat b \<Longrightarrow> a = b"
proof -
  assume "str_nat a = str_nat b"
  then have "int_of_digits (str_nat a) = int_of_digits (str_nat b)" by simp
  then show "a = b" by (simp add: int_of_digits_str_nat)
qed

lemma tag_inj: "''v'' @ str_nat a = ''v'' @ str_nat b \<Longrightarrow> a = b"
  by (simp add: str_nat_inj)

lemma next_tag_of: "''v'' @ str_int (int_of_digits (str_nat k) + 1) = ''v'' @ str_nat (Suc k)"
proof -
  have "nat (int k + 1) = Suc k" by simp
  then show ?thesis by (simp add: int_of_digits_str_nat str_int_def)
qed

lemma is_packaged_returns: "is_packaged env f \<Longrightarrow> validator_returns env f"
  by (auto simp: is_packaged_def validator_returns_def split: sum.splits)

lemma commit_without_maps:
  "filter is_maps_folder (git_changed_folders env c) = [] \<Longrightarrow> process_commit env cap c st = Some (Inr st)"
  by (simp add: process_commit_def)

text \<open>
  One commit with changed map folders, in a state whose current tag is \<open>v\<close> followed by
  the number \<open>k\<close>.
\<close>

lemma process_commit_tagged:
  assumes fs: "filter is_maps_folder (git_changed_folders env c) = fs" "fs \<noteq> []"
    and q: "\<forall>f\<in>set fs. validator_returns env f"
    and d: "map_of (releasesGeneratedThisRun st) (MAP_REPO_NEW_RELEASE_TAGNAME st) = Some d"
    and t: "MAP_REPO_NEW_RELEASE_TAGNAME st = ''v'' @ str_nat k"
  shows "\<exists>st'. process_commit env cap c st = Some (Inr st')
      \<and> (MAP_REPO_NEW_RELEASE_TAGNAME st' \<noteq> MAP_REPO_NEW_RELEASE_TAGNAME st
           \<longleftrightarrow> assets d > 0 \<and> int (length fs) + assets d > cap)
      \<and> (if assets d > 0 \<and> int (length fs) + assets d > cap
          then MAP_REPO_NEW_RELEASE_TAGNAME st' = ''v'' @ str_nat (Suc k)
               \<and> MAP_REPO_NEW_RELEASE_TAGNAME st \<in> set (releaseList st')
               \<and> map_of (releasesGeneratedThisRun st')
                   = (map_of (releasesGeneratedThisRun st))(''v'' @ str_nat (Suc k) \<mapsto>
                        \<lparr>commits = [c], assets = int (length (filter (is_packaged env) fs))\<rparr>)
          else MAP_REPO_NEW_RELEASE_TAGNAME st' = MAP_REPO_NEW_RELEASE_TAGNAME st
               \<and> map_of (releasesGeneratedThisRun st')
                   = (map_of (releasesGeneratedThisRun st))(MAP_REPO_NEW_RELEASE_TAGNAME st \<mapsto>
                        \<lparr>commits = commits d @ [c],
                         assets = assets d + int (length (filter (is_packaged env) fs))\<rparr>))
      \<and> map_of (archive_files st')
          = foldl (\<lambda>m f. m((MAP_REPO_NEW_RELEASE_TAGNAME st', packaged_as env f) \<mapsto>
                             compress_map_folder env f None))
              (map_of (archive_files st)) (filter (is_packaged env) fs)
      \<and> (\<exists>d'. map_of (releasesGeneratedThisRun st') (MAP_REPO_NEW_RELEASE_TAGNAME st') = Some d'
            \<and> releaseList st' =
                 (releaseList st
                    @ (if (assets d > 0 \<and> int (length fs) + assets d > cap)
                          \<and> MAP_REPO_NEW_RELEASE_TAGNAME st \<notin> set (releaseList st)
                       then [MAP_REPO_NEW_RELEASE_TAGNAME st] else []))
                 @ (if assets d' > 0
                       \<and> MAP_REPO_NEW_RELEASE_TAGNAME st' \<notin> set (releaseList st)
                       \<and> \<not> ((assets d > 0 \<and> int (length fs) + assets d > cap)
                              \<and> MAP_REPO_NEW_RELEASE_TAGNAME st' = MAP_REPO_NEW_RELEASE_TAGNAME st)
                    then [MAP_REPO_NEW_RELEASE_TAGNAME st'] else []))"
proof -
  have m: "RELEASE_VERSION_RE (MAP_REPO_NEW_RELEASE_TAGNAME st) = Some (str_nat k)"
    unfolding t by (rule release_version_of_tag)
  have ne: "''v'' @ str_nat (Suc k) \<noteq> MAP_REPO_NEW_RELEASE_TAGNAME st"
    unfolding t using tag_inj[of "Suc k" k] by auto
  from process_commit_result[OF fs q d m, of cap, unfolded next_tag_of] obtain st' where
    r: "process_commit env cap c st = Some (Inr st')"
    and c: "if assets d > 0 \<and> int (length fs) + assets d > cap
          then MAP_REPO_NEW_RELEASE_TAGNAME st' = ''v'' @ str_nat (Suc k)
               \<and> MAP_REPO_NEW_RELEASE_TAGNAME st \<in> set (releaseList st')
               \<and> map_of (releasesGeneratedThisRun st')
                   = (map_of (releasesGeneratedThisRun st))(''v'' @ str_nat (Suc k) \<mapsto>
                        \<lparr>commits = [c], assets = int (length (filter (is_packaged env) fs))\<rparr>)
          else MAP_REPO_NEW_RELEASE_TAGNAME st' = MAP_REPO_NEW_RELEASE_TAGNAME st
               \<and> map_of (releasesGeneratedThisRun st')
                   = (map_of (releasesGeneratedThisRun st))(MAP_REPO_NEW_RELEASE_TAGNAME st \<mapsto>
                        \<lparr>commits = commits d @ [c],
                         assets = assets d + int (length (filter (is_packaged env) fs))\<rparr>)"
    and a: "map_of (archive_files st')
          = foldl (\<lambda>m f. m((MAP_REPO_NEW_RELEASE_TAGNAME st', packaged_as env f) \<mapsto>
                             compress_map_folder env f None))
              (map_of (archive_files st)) (filter (is_packaged env) fs)"
    and l: "\<exists>d'. map_of (releasesGeneratedThisRun st') (MAP_REPO_NEW_RELEASE_TAGNAME st') = Some d'
            \<and> releaseList st' =
                 (releaseList st
                    @ (if (assets d > 0 \<and> int (length fs) + assets d > cap)
                          \<and> MAP_REPO_NEW_RELEASE_TAGNAME st \<notin> set (releaseList st)
                       then [MAP_REPO_NEW_RELEASE_TAGNAME st] else []))
                 @ (if assets d' > 0
                       \<and> MAP_REPO_NEW_RELEASE_TAGNAME st' \<notin> set (releaseList st)
                       \<and> \<not> ((assets d > 0 \<and> int (length fs) + assets d > cap)
                              \<and> MAP_REPO_NEW_RELEASE_TAGNAME st' = MAP_REPO_NEW_RELEASE_TAGNAME st)
                    then [MAP_REPO_NEW_RELEASE_TAGNAME st'] else [])"
    by blast
  have i: "MAP_REPO_NEW_RELEASE_TAGNAME st' \<noteq> MAP_REPO_NEW_RELEASE_TAGNAME st
           \<longleftrightarrow> assets d > 0 \<and> int (length fs) + assets d > cap"
  proof (cases "assets d > 0 \<and> int (length fs) + assets d > cap")
    case True
    from c have "MAP_REPO_NEW_RELEASE_TAGNAME st' = ''v'' @ str_nat (Suc k)"
      unfolding if_P[OF True] by blast
    with ne True show ?thesis by simp
  next
    case False
    from c have "MAP_REPO_NEW_RELEASE_TAGNAME st' = MAP_REPO_NEW_RELEASE_TAGNAME st"
      unfolding if_not_P[OF False] by blast
    with False show ?thesis by simp
  qed
  from r i c a l show ?thesis by blast
qed

lemma run_fold_append:
  "run_fold f (xs @ ys) s = run_then (run_fold f xs s) (run_fold f ys)"
proof (induction xs arbitrary: s)
  case Nil
  show ?case by (simp add: run_then_def)
next
  case (Cons x xs)
  show ?case
  proof (cases "f x s")
    case None
    then show ?thesis by (simp add: run_then_def)
  next
    case (Some r)
    then show ?thesis by (cases r) (simp_all add: run_then_def Cons.IH)
  qed
qed

lemma run_then_return: "run_then m (\<lambda>s. Some (Inr s)) = m"
proof (cases m)
  case None
  then show ?thesis by (simp add: run_then_def)
next
  case (Some r)
  then show ?thesis by (cases r) (simp_all add: run_then_def)
qed

lemma run_fold_single: "run_fold f [c] = f c"
proof
  fix s
  show "run_fold f [c] s = f c s"
  proof -
    have "run_fold f [] = (\<lambda>s. Some (Inr s))" by (rule ext) simp
    then show ?thesis by (simp add: run_then_return)
  qed
qed

lemma first_tag:
  "generate_next_release_details (''v'' @ str_nat k0) []
   = Inr (''v'' @ str_nat (Suc k0), [(''v'' @ str_nat (Suc k0), \<lparr>commits = [], assets = 0\<rparr>)])"
proof -
  have "generate_next_release_details (''v'' @ str_nat k0) []
    = Inr (''v'' @ str_int (int_of_digits (str_nat k0) + 1),
           [(''v'' @ str_int (int_of_digits (str_nat k0) + 1), \<lparr>commits = [], assets = 0\<rparr>)])"
    unfolding generate_next_release_details_def release_version_of_tag by (simp add: Let_def)
  then show ?thesis unfolding next_tag_of .
qed

lemma generate_no_commits:
  "generate_releases_for_maprepo env [] (''v'' @ str_nat k0) cap
   = Some (Inr \<lparr>releasesGeneratedThisRun = [(''v'' @ str_nat (Suc k0), \<lparr>commits = [], assets = 0\<rparr>)],
                MAP_REPO_NEW_RELEASE_TAGNAME = ''v'' @ str_nat (Suc k0), releaseList = [],
                archive_files = [], release_json = [], salts_drawn = 0\<rparr>)"
  unfolding generate_releases_for_maprepo_def first_tag by (simp add: run_then_def)

lemma generate_snoc:
  "generate_releases_for_maprepo env (cs @ [c]) (''v'' @ str_nat k0) cap
   = run_then (generate_releases_for_maprepo env cs (''v'' @ str_nat k0) cap) (process_commit env cap c)"
proof -
  have "run_fold (process_commit env cap) (cs @ [c]) s
      = run_then (run_fold (process_commit env cap) cs s) (process_commit env cap c)" for s
    unfolding run_fold_append run_fold_single ..
  then show ?thesis
    unfolding generate_releases_for_maprepo_def first_tag by (simp add: run_then_def)
qed

text \<open>Every run over commits on whose map folders the validator returns ends, on a tag \<open>v<k>\<close>.\<close>

lemma generate_returns:
  assumes "\<forall>c\<in>set cs. \<forall>f\<in>set (filter is_maps_folder (git_changed_folders env c)). validator_returns env f"
  shows "\<exists>st k d. generate_releases_for_maprepo env cs (''v'' @ str_nat k0) cap = Some (Inr st)
      \<and> MAP_REPO_NEW_RELEASE_TAGNAME st = ''v'' @ str_nat k
      \<and> map_of (releasesGeneratedThisRun st) (MAP_REPO_NEW_RELEASE_TAGNAME st) = Some d"
  using assms
proof (induction cs rule: rev_induct)
  case Nil
  show ?case unfolding generate_no_commits by simp blast
next
  case (snoc c cs)
  then obtain st k d where
    g: "generate_releases_for_maprepo env cs (''v'' @ str_nat k0) cap = Some (Inr st)"
    and t: "MAP_REPO_NEW_RELEASE_TAGNAME st = ''v'' @ str_nat k"
    and d: "map_of (releasesGeneratedThisRun st) (MAP_REPO_NEW_RELEASE_TAGNAME st) = Some d"
    by auto
  have s: "generate_releases_for_maprepo env (cs @ [c]) (''v'' @ str_nat k0) cap = process_commit env cap c st"
    unfolding generate_snoc g by (simp add: run_then_def)
  show ?case
  proof (cases "filter is_maps_folder (git_changed_folders env c) = []")
    case True
    with s t d show ?thesis by (auto simp: commit_without_maps)
  next
    case False
    from snoc.prems have q: "\<forall>f\<in>set (filter is_maps_folder (git_changed_folders env c)). validator_returns env f"
      by simp
    from process_commit_tagged[OF refl False q d t, of cap] obtain st' d' where
      r: "process_commit env cap c st = Some (Inr st')"
      and c: "if assets d > 0 \<and> int (length (filter is_maps_folder (git_changed_folders env c))) + assets d > cap
          then MAP_REPO_NEW_RELEASE_TAGNAME st' = ''v'' @ str_nat (Suc k)
               \<and> MAP_REPO_NEW_RELEASE_TAGNAME st \<in> set (releaseList st')
               \<and> map_of (releasesGeneratedThisRun st')
                   = (map_of (releasesGeneratedThisRun st))(''v'' @ str_nat (Suc k) \<mapsto>
                        \<lparr>commits = [c], assets = int (length (filter (is_packaged env) (filter is_maps_folder (git_changed_folders env c))))\<rparr>)
          else MAP_REPO_NEW_RELEASE_TAGNAME st' = MAP_REPO_NEW_RELEASE_TAGNAME st
               \<and> map_of (releasesGeneratedThisRun st')
                   = (map_of (releasesGeneratedThisRun st))(MAP_REPO_NEW_RELEASE_TAGNAME st \<mapsto>
                        \<lparr>commits = commits d @ [c],
                         assets = assets d + int (length (filter (is_packaged env) (filter is_maps_folder (git_changed_folders env c))))\<rparr>)"
      and d': "map_of (releasesGeneratedThisRun st') (MAP_REPO_NEW_RELEASE_TAGNAME st') = Some d'"
      by blast
    from c t have "\<exists>k'. MAP_REPO_NEW_RELEASE_TAGNAME st' = ''v'' @ str_nat k'"
      by (auto split: if_splits)
    with r d' s show ?thesis by auto
  qed
qed

section \<open>Release builder: batching\<close>

text \<open>After any run, the next commit.\<close>

lemma release_step:
  assumes q: "\<forall>c'\<in>set (cs @ [c]). \<forall>f\<in>set (filter is_maps_folder (git_changed_folders env c')). validator_returns env f"
    and fs: "filter is_maps_folder (git_changed_folders env c) = fs"
  shows "\<exists>st k d st'.
       generate_releases_for_maprepo env cs (''v'' @ str_nat k0) cap = Some (Inr st)
     \<and> MAP_REPO_NEW_RELEASE_TAGNAME st = ''v'' @ str_nat k
     \<and> map_of (releasesGeneratedThisRun st) (MAP_REPO_NEW_RELEASE_TAGNAME st) = Some d
     \<and> generate_releases_for_maprepo env (cs @ [c]) (''v'' @ str_nat k0) cap = Some (Inr st')
     \<and> (if fs = [] then st' = st
         else (MAP_REPO_NEW_RELEASE_TAGNAME st' \<noteq> MAP_REPO_NEW_RELEASE_TAGNAME st
                 \<longleftrightarrow> assets d > 0 \<and> int (length fs) + assets d > cap)
            \<and> (if assets d > 0 \<and> int (length fs) + assets d > cap
                then MAP_REPO_NEW_RELEASE_TAGNAME st' = ''v'' @ str_nat (Suc k)
                     \<and> MAP_REPO_NEW_RELEASE_TAGNAME st \<in> set (releaseList st')
                     \<and> map_of (releasesGeneratedThisRun st')
                         = (map_of (releasesGeneratedThisRun st))(''v'' @ str_nat (Suc k) \<mapsto>
                              \<lparr>commits = [c], assets = int (length (filter (is_packaged env) fs))\<rparr>)
                else MAP_REPO_NEW_RELEASE_TAGNAME st' = MAP_REPO_NEW_RELEASE_TAGNAME st
                     \<and> map_of (releasesGeneratedThisRun st')
                         = (map_of (releasesGeneratedThisRun st))(MAP_REPO_NEW_RELEASE_TAGNAME st \<mapsto>
                              \<lparr>commits = commits d @ [c],
                               assets = assets d + int (length (filter (is_packaged env) fs))\<rparr>))
            \<and> map_of (archive_files st')
                = foldl (\<lambda>m f. m((MAP_REPO_NEW_RELEASE_TAGNAME st', packaged_as env f) \<mapsto>
                                   compress_map_folder env f None))
                    (map_of (archive_files st)) (filter (is_packaged env) fs))"
proof -
  from q have qs: "\<forall>c'\<in>set cs. \<forall>f\<in>set (filter is_maps_folder (git_changed_folders env c')). validator_returns env f"
    by simp
  from q fs have qc: "\<forall>f\<in>set fs. validator_returns env f" by auto
  from generate_returns[OF qs, of k0 cap] obtain st k d where
    g: "generate_releases_for_maprepo env cs (''v'' @ str_nat k0) cap = Some (Inr st)"
    and t: "MAP_REPO_NEW_RELEASE_TAGNAME st = ''v'' @ str_nat k"
    and d: "map_of (releasesGeneratedThisRun st) (MAP_REPO_NEW_RELEASE_TAGNAME st) = Some d"
    by blast
  have s: "generate_releases_for_maprepo env (cs @ [c]) (''v'' @ str_nat k0) cap = process_commit env cap c st"
    unfolding generate_snoc g by (simp add: run_then_def)
  show ?thesis
  proof (cases "fs = []")
    case True
    with fs have "process_commit env cap c st = Some (Inr st)" by (simp add: commit_without_maps)
    with s have "generate_releases_for_maprepo env (cs @ [c]) (''v'' @ str_nat k0) cap = Some (Inr st)"
      by simp
    with g t d True show ?thesis by auto
  next
    case False
    from process_commit_tagged[OF fs False qc d t, of cap] obtain st' where
      r: "process_commit env cap c st = Some (Inr st')"
      and i: "MAP_REPO_NEW_RELEASE_TAGNAME st' \<noteq> MAP_REPO_NEW_RELEASE_TAGNAME st
                 \<longleftrightarrow> assets d > 0 \<and> int (length fs) + assets d > cap"
      and c: "if assets d > 0 \<and> int (length fs) + assets d > cap
                then MAP_REPO_NEW_RELEASE_TAGNAME st' = ''v'' @ str_nat (Suc k)
                     \<and> MAP_REPO_NEW_RELEASE_TAGNAME st \<in> set (releaseList st')
                     \<and> map_of (releasesGeneratedThisRun st')
                         = (map_of (releasesGeneratedThisRun st))(''v'' @ str_nat (Suc k) \<mapsto>
                              \<lparr>commits = [c], assets = int (length (filter (is_packaged env) fs))\<rparr>)
                else MAP_REPO_NEW_RELEASE_TAGNAME st' = MAP_REPO_NEW_RELEASE_TAGNAME st
                     \<and> map_of (releasesGeneratedThisRun st')
                         = (map_of (releasesGeneratedThisRun st))(MAP_REPO_NEW_RELEASE_TAGNAME st \<mapsto>
                              \<lparr>commits = commits d @ [c],
                               assets = assets d + int (length (filter (is_packaged env) fs))\<rparr>)"
      and a: "map_of (archive_files st')
                = foldl (\<lambda>m f. m((MAP_REPO_NEW_RELEASE_TAGNAME st', packaged_as env f) \<mapsto>
                                   compress_map_folder env f None))
                    (map_of (archive_files st)) (filter (is_packaged env) fs)"
      by blast
    from s r have s': "generate_releases_for_maprepo env (cs @ [c]) (''v'' @ str_nat k0) cap = Some (Inr st')"
      by simp
    show ?thesis
      unfolding if_not_P[OF False]
      using g t d s' i c a by blast
  qed
qed

text \<open>The first two commits with changed map folders.\<close>

lemma first_commits:
  assumes fs1: "filter is_maps_folder (git_changed_folders env c1) = fs1" "fs1 \<noteq> []"
    and p1: "\<forall>f\<in>set fs1. is_packaged env f"
  shows "\<exists>st1. generate_releases_for_maprepo env [c1] (''v'' @ str_nat k0) cap = Some (Inr st1)
     \<and> MAP_REPO_NEW_RELEASE_TAGNAME st1 = ''v'' @ str_nat (Suc k0)
     \<and> releaseList st1 = [''v'' @ str_nat (Suc k0)]
     \<and> map_of (releasesGeneratedThisRun st1)
         = [''v'' @ str_nat (Suc k0) \<mapsto> \<lparr>commits = [c1], assets = int (length fs1)\<rparr>]
     \<and> dom (map_of (archive_files st1)) = (\<lambda>f. (''v'' @ str_nat (Suc k0), packaged_as env f)) ` set fs1
     \<and> (inj_on (packaged_as env) (set fs1) \<longrightarrow>
          (\<forall>f\<in>set fs1. map_of (archive_files st1) (''v'' @ str_nat (Suc k0), packaged_as env f)
                          = Some (compress_map_folder env f None)))
     \<and> (fs2 \<noteq> [] \<and> filter is_maps_folder (git_changed_folders env c2) = fs2
          \<and> (\<forall>f\<in>set fs2. validator_returns env f) \<longrightarrow>
          (\<exists>st2. generate_releases_for_maprepo env [c1, c2] (''v'' @ str_nat k0) cap = Some (Inr st2)
             \<and> (if int (length fs2) + int (length fs1) > cap
                 then MAP_REPO_NEW_RELEASE_TAGNAME st2 = ''v'' @ str_nat (Suc (Suc k0))
                      \<and> releaseList st2
                          = (''v'' @ str_nat (Suc k0))
                            # (if filter (is_packaged env) fs2 = [] then [] else [''v'' @ str_nat (Suc (Suc k0))])
                      \<and> map_of (releasesGeneratedThisRun st2)
                          = [''v'' @ str_nat (Suc k0) \<mapsto> \<lparr>commits = [c1], assets = int (length fs1)\<rparr>,
                             ''v'' @ str_nat (Suc (Suc k0)) \<mapsto>
                               \<lparr>commits = [c2], assets = int (length (filter (is_packaged env) fs2))\<rparr>]
                      \<and> map_of (archive_files st2)
                          = foldl (\<lambda>m f. m((''v'' @ str_nat (Suc (Suc k0)), packaged_as env f) \<mapsto>
                                             compress_map_folder env f None))
                              (map_of (archive_files st1)) (filter (is_packaged env) fs2)
                 else MAP_REPO_NEW_RELEASE_TAGNAME st2 = ''v'' @ str_nat (Suc k0)
                      \<and> releaseList st2 = [''v'' @ str_nat (Suc k0)]
                      \<and> map_of (releasesGeneratedThisRun st2)
                          = [''v'' @ str_nat (Suc k0) \<mapsto>
                               \<lparr>commits = [c1, c2],
                                assets = int (length fs1) + int (length (filter (is_packaged env) fs2))\<rparr>]
                      \<and> map_of (archive_files st2)
                          = foldl (\<lambda>m f. m((''v'' @ str_nat (Suc k0), packaged_as env f) \<mapsto>
                                             compress_map_folder env f None))
                              (map_of (archive_files st1)) (filter (is_packaged env) fs2))))"
proof -
  let ?v1 = "''v'' @ str_nat (Suc k0)"
  let ?v2 = "''v'' @ str_nat (Suc (Suc k0))"
  let ?st0 = "\<lparr>releasesGeneratedThisRun = [(?v1, \<lparr>commits = [], assets = 0\<rparr>)],
                MAP_REPO_NEW_RELEASE_TAGNAME = ?v1, releaseList = [],
                archive_files = [], release_json = [], salts_drawn = 0\<rparr>
               :: 'a BuildState"
  have ne: "?v2 \<noteq> ?v1" using tag_inj[of "Suc (Suc k0)" "Suc k0"] by auto
  have all1: "filter (is_packaged env) fs1 = fs1" using p1 by simp
  have q1: "\<forall>f\<in>set fs1. validator_returns env f" using p1 is_packaged_returns by blast
  have n1: "0 < int (length fs1)" using fs1(2) by simp
  have s1: "generate_releases_for_maprepo env [c1] (''v'' @ str_nat k0) cap = process_commit env cap c1 ?st0"
    using generate_snoc[of env "[]" c1 k0 cap] unfolding generate_no_commits
    by (simp add: run_then_def)
  have d0: "map_of (releasesGeneratedThisRun ?st0) (MAP_REPO_NEW_RELEASE_TAGNAME ?st0)
            = Some \<lparr>commits = [], assets = 0\<rparr>" by simp
  have t0: "MAP_REPO_NEW_RELEASE_TAGNAME ?st0 = ''v'' @ str_nat (Suc k0)" by simp
  from process_commit_tagged[OF fs1 q1 d0 t0, of cap] obtain st1 d' where
    r1: "process_commit env cap c1 ?st0 = Some (Inr st1)"
    and t1: "MAP_REPO_NEW_RELEASE_TAGNAME st1 = ?v1"
    and m1: "map_of (releasesGeneratedThisRun st1) = [?v1 \<mapsto> \<lparr>commits = [c1], assets = int (length fs1)\<rparr>]"
    and a1: "map_of (archive_files st1)
             = foldl (\<lambda>m f. m((MAP_REPO_NEW_RELEASE_TAGNAME st1, packaged_as env f) \<mapsto>
                                compress_map_folder env f None)) Map.empty fs1"
    and d': "map_of (releasesGeneratedThisRun st1) (MAP_REPO_NEW_RELEASE_TAGNAME st1) = Some d'"
    and l1: "releaseList st1 = (if assets d' > 0 then [MAP_REPO_NEW_RELEASE_TAGNAME st1] else [])"
    unfolding all1 by auto
  from d' have "d' = \<lparr>commits = [c1], assets = int (length fs1)\<rparr>" unfolding m1 t1 by simp
  with l1 n1 have l1': "releaseList st1 = [?v1]" unfolding t1 by simp
  have g1: "generate_releases_for_maprepo env [c1] (''v'' @ str_nat k0) cap = Some (Inr st1)"
    unfolding s1 by (rule r1)
  have a1': "map_of (archive_files st1)
             = foldl (\<lambda>m f. m((?v1, packaged_as env f) \<mapsto> compress_map_folder env f None)) Map.empty fs1"
    using a1 unfolding t1 .
  have dom1: "dom (map_of (archive_files st1)) = (\<lambda>f. (?v1, packaged_as env f)) ` set fs1"
    unfolding a1' dom_foldl_upd by simp
  have val1: "inj_on (packaged_as env) (set fs1) \<longrightarrow>
          (\<forall>f\<in>set fs1. map_of (archive_files st1) (?v1, packaged_as env f)
                          = Some (compress_map_folder env f None))"
  proof (intro impI ballI)
    fix f assume i: "inj_on (packaged_as env) (set fs1)" and f: "f \<in> set fs1"
    from i have "inj_on (\<lambda>f. (?v1, packaged_as env f)) (set fs1)" by (simp add: inj_on_def)
    from foldl_upd_value[OF this f, of "\<lambda>f. compress_map_folder env f None" Map.empty]
    show "map_of (archive_files st1) (?v1, packaged_as env f) = Some (compress_map_folder env f None)"
      unfolding a1' .
  qed
  have second: "fs2 \<noteq> [] \<and> filter is_maps_folder (git_changed_folders env c2) = fs2
          \<and> (\<forall>f\<in>set fs2. validator_returns env f) \<longrightarrow>
          (\<exists>st2. generate_releases_for_maprepo env [c1, c2] (''v'' @ str_nat k0) cap = Some (Inr st2)
             \<and> (if int (length fs2) + int (length fs1) > cap
                 then MAP_REPO_NEW_RELEASE_TAGNAME st2 = ?v2
                      \<and> releaseList st2 = ?v1 # (if filter (is_packaged env) fs2 = [] then [] else [?v2])
                      \<and> map_of (releasesGeneratedThisRun st2)
                          = [?v1 \<mapsto> \<lparr>commits = [c1], assets = int (length fs1)\<rparr>,
                             ?v2 \<mapsto> \<lparr>commits = [c2], assets = int (length (filter (is_packaged env) fs2))\<rparr>]
                      \<and> map_of (archive_files st2)
                          = foldl (\<lambda>m f. m((?v2, packaged_as env f) \<mapsto> compress_map_folder env f None))
                              (map_of (archive_files st1)) (filter (is_packaged env) fs2)
                 else MAP_REPO_NEW_RELEASE_TAGNAME st2 = ?v1
                      \<and> releaseList st2 = [?v1]
                      \<and> map_of (releasesGeneratedThisRun st2)
                          = [?v1 \<mapsto> \<lparr>commits = [c1, c2],
                                assets = int (length fs1) + int (length (filter (is_packaged env) fs2))\<rparr>]
                      \<and> map_of (archive_files st2)
                          = foldl (\<lambda>m f. m((?v1, packaged_as env f) \<mapsto> compress_map_folder env f None))
                              (map_of (archive_files st1)) (filter (is_packaged env) fs2)))"
  proof (intro impI, elim conjE)
    assume fs2: "fs2 \<noteq> []" "filter is_maps_folder (git_changed_folders env c2) = fs2"
      and q2: "\<forall>f\<in>set fs2. validator_returns env f"
    define d1 where "d1 = \<lparr>commits = [c1], assets = int (length fs1)\<rparr>"
    have d1: "map_of (releasesGeneratedThisRun st1) (MAP_REPO_NEW_RELEASE_TAGNAME st1) = Some d1"
      unfolding m1 t1 d1_def by simp
    have da: "assets d1 = int (length fs1)" and dc: "commits d1 = [c1]"
      unfolding d1_def by simp_all
    have s2: "generate_releases_for_maprepo env [c1, c2] (''v'' @ str_nat k0) cap = process_commit env cap c2 st1"
      using generate_snoc[of env "[c1]" c2 k0 cap] unfolding g1 by (simp add: run_then_def)
    have ce: "(0 < int (length fs1) \<and> int (length fs2) + int (length fs1) > cap)
              = (int (length fs2) + int (length fs1) > cap)"
      using n1 by simp
    from process_commit_tagged[OF fs2(2) fs2(1) q2 d1 t1, of cap, unfolded da dc ce] obtain st2 d2 where
      r2: "process_commit env cap c2 st1 = Some (Inr st2)"
      and c2: "if int (length fs2) + int (length fs1) > cap
          then MAP_REPO_NEW_RELEASE_TAGNAME st2 = ?v2
               \<and> MAP_REPO_NEW_RELEASE_TAGNAME st1 \<in> set (releaseList st2)
               \<and> map_of (releasesGeneratedThisRun st2)
                   = (map_of (releasesGeneratedThisRun st1))(?v2 \<mapsto>
                        \<lparr>commits = [c2], assets = int (length (filter (is_packaged env) fs2))\<rparr>)
          else MAP_REPO_NEW_RELEASE_TAGNAME st2 = MAP_REPO_NEW_RELEASE_TAGNAME st1
               \<and> map_of (releasesGeneratedThisRun st2)
                   = (map_of (releasesGeneratedThisRun st1))(MAP_REPO_NEW_RELEASE_TAGNAME st1 \<mapsto>
                        \<lparr>commits = [c1] @ [c2],
                         assets = int (length fs1) + int (length (filter (is_packaged env) fs2))\<rparr>)"
      and a2: "map_of (archive_files st2)
          = foldl (\<lambda>m f. m((MAP_REPO_NEW_RELEASE_TAGNAME st2, packaged_as env f) \<mapsto>
                             compress_map_folder env f None))
              (map_of (archive_files st1)) (filter (is_packaged env) fs2)"
      and d2: "map_of (releasesGeneratedThisRun st2) (MAP_REPO_NEW_RELEASE_TAGNAME st2) = Some d2"
      and l2: "releaseList st2 =
                 (releaseList st1
                    @ (if int (length fs2) + int (length fs1) > cap
                          \<and> MAP_REPO_NEW_RELEASE_TAGNAME st1 \<notin> set (releaseList st1)
                       then [MAP_REPO_NEW_RELEASE_TAGNAME st1] else []))
                 @ (if assets d2 > 0
                       \<and> MAP_REPO_NEW_RELEASE_TAGNAME st2 \<notin> set (releaseList st1)
                       \<and> \<not> (int (length fs2) + int (length fs1) > cap
                              \<and> MAP_REPO_NEW_RELEASE_TAGNAME st2 = MAP_REPO_NEW_RELEASE_TAGNAME st1)
                    then [MAP_REPO_NEW_RELEASE_TAGNAME st2] else [])"
      by blast
    have g2: "generate_releases_for_maprepo env [c1, c2] (''v'' @ str_nat k0) cap = Some (Inr st2)"
      unfolding s2 by (rule r2)
    show "\<exists>st2. generate_releases_for_maprepo env [c1, c2] (''v'' @ str_nat k0) cap = Some (Inr st2)
             \<and> (if int (length fs2) + int (length fs1) > cap
                 then MAP_REPO_NEW_RELEASE_TAGNAME st2 = ?v2
                      \<and> releaseList st2 = ?v1 # (if filter (is_packaged env) fs2 = [] then [] else [?v2])
                      \<and> map_of (releasesGeneratedThisRun st2)
                          = [?v1 \<mapsto> \<lparr>commits = [c1], assets = int (length fs1)\<rparr>,
                             ?v2 \<mapsto> \<lparr>commits = [c2], assets = int (length (filter (is_packaged env) fs2))\<rparr>]
                      \<and> map_of (archive_files st2)
                          = foldl (\<lambda>m f. m((?v2, packaged_as env f) \<mapsto> compress_map_folder env f None))
                              (map_of (archive_files st1)) (filter (is_packaged env) fs2)
                 else MAP_REPO_NEW_RELEASE_TAGNAME st2 = ?v1
                      \<and> releaseList st2 = [?v1]
                      \<and> map_of (releasesGeneratedThisRun st2)
                          = [?v1 \<mapsto> \<lparr>commits = [c1, c2],
                                assets = int (length fs1) + int (length (filter (is_packaged env) fs2))\<rparr>]
                      \<and> map_of (archive_files st2)
                          = foldl (\<lambda>m f. m((?v1, packaged_as env f) \<mapsto> compress_map_folder env f None))
                              (map_of (archive_files st1)) (filter (is_packaged env) fs2))"
    proof (cases "int (length fs2) + int (length fs1) > cap")
      case True
      from c2 have t2: "MAP_REPO_NEW_RELEASE_TAGNAME st2 = ?v2"
        and m2: "map_of (releasesGeneratedThisRun st2)
                   = (map_of (releasesGeneratedThisRun st1))(?v2 \<mapsto>
                        \<lparr>commits = [c2], assets = int (length (filter (is_packaged env) fs2))\<rparr>)"
        unfolding if_P[OF True] by blast+
      from d2 have d2': "d2 = \<lparr>commits = [c2], assets = int (length (filter (is_packaged env) fs2))\<rparr>"
        unfolding m2 t2 by simp
      have l2': "releaseList st2 = ?v1 # (if filter (is_packaged env) fs2 = [] then [] else [?v2])"
        unfolding l2 t2 t1 l1' d2' using ne True by simp
      have a2': "map_of (archive_files st2)
                  = foldl (\<lambda>m f. m((?v2, packaged_as env f) \<mapsto> compress_map_folder env f None))
                      (map_of (archive_files st1)) (filter (is_packaged env) fs2)"
        using a2 unfolding t2 .
      have m2': "map_of (releasesGeneratedThisRun st2)
                  = [?v1 \<mapsto> \<lparr>commits = [c1], assets = int (length fs1)\<rparr>,
                     ?v2 \<mapsto> \<lparr>commits = [c2], assets = int (length (filter (is_packaged env) fs2))\<rparr>]"
        unfolding m2 m1 ..
      show ?thesis unfolding if_P[OF True] using g2 t2 l2' m2' a2' by blast
    next
      case False
      from c2 have t2: "MAP_REPO_NEW_RELEASE_TAGNAME st2 = ?v1"
        and m2: "map_of (releasesGeneratedThisRun st2)
                   = (map_of (releasesGeneratedThisRun st1))(MAP_REPO_NEW_RELEASE_TAGNAME st1 \<mapsto>
                        \<lparr>commits = [c1] @ [c2],
                         assets = int (length fs1) + int (length (filter (is_packaged env) fs2))\<rparr>)"
        unfolding if_not_P[OF False] t1 by blast+
      have l2': "releaseList st2 = [?v1]"
        unfolding l2 t2 t1 l1' using False by simp
      have a2': "map_of (archive_files st2)
                  = foldl (\<lambda>m f. m((?v1, packaged_as env f) \<mapsto> compress_map_folder env f None))
                      (map_of (archive_files st1)) (filter (is_packaged env) fs2)"
        using a2 unfolding t2 .
      have m2': "map_of (releasesGeneratedThisRun st2)
                  = [?v1 \<mapsto> \<lparr>commits = [c1, c2],
                        assets = int (length fs1) + int (length (filter (is_packaged env) fs2))\<rparr>]"
        unfolding m2 m1 t1 by simp
      show ?thesis unfolding if_not_P[OF False] using g2 t2 l2' m2' a2' by blast
    qed
  qed
  from g1 t1 l1' m1 dom1 val1 second show ?thesis by blast
qed

text \<open>
  C6. For a last release \<open>v<k0>\<close>, the run starts on the next tag, with an empty release. A commit that
  changes no map folder is skipped: the state stays as it is. Before a commit that changes
  map folders \<open>fs\<close> is processed, after any earlier commits \<open>cs\<close>, the tag changes exactly
  when the current release has an asset and \<open>length fs\<close> more would exceed
  \<open>max_assets_per_release\<close>; then the new tag is the next major version, the old tag is on
  \<open>releaseList\<close>, and the new release holds this commit and one asset for each map of the
  commit that is packaged; otherwise the current release receives the commit and these
  assets. Either way, the archive of each packaged map is written under the tag now current.
  So a first commit whose map folders \<open>fs1\<close> are all packaged gives one release with all of
  them, whatever the cap: its assets are \<open>length fs1\<close> and it holds one archive for each
  map. A second commit that changes map folders \<open>fs2\<close> starts the next tag exactly when
  \<open>length fs2 + length fs1\<close> exceeds the cap, which is so for every \<open>fs2\<close> when \<open>fs1\<close> alone
  reaches the cap. All this holds when the validator returns on the changed map folders
  (an exception of the validator ends the run).
\<close>

theorem release_batching:
  "generate_releases_for_maprepo env [] (''v'' @ str_nat k0) cap
     = Some (Inr \<lparr>releasesGeneratedThisRun = [(''v'' @ str_nat (Suc k0), \<lparr>commits = [], assets = 0\<rparr>)],
                  MAP_REPO_NEW_RELEASE_TAGNAME = ''v'' @ str_nat (Suc k0), releaseList = [],
                  archive_files = [], release_json = [], salts_drawn = 0\<rparr>)
   \<and> ((\<forall>c'\<in>set (cs @ [c]). \<forall>f\<in>set (filter is_maps_folder (git_changed_folders env c')).
           validator_returns env f)
        \<and> filter is_maps_folder (git_changed_folders env c) = fs \<longrightarrow>
       (\<exists>st k d st'.
           generate_releases_for_maprepo env cs (''v'' @ str_nat k0) cap = Some (Inr st)
         \<and> MAP_REPO_NEW_RELEASE_TAGNAME st = ''v'' @ str_nat k
         \<and> map_of (releasesGeneratedThisRun st) (MAP_REPO_NEW_RELEASE_TAGNAME st) = Some d
         \<and> generate_releases_for_maprepo env (cs @ [c]) (''v'' @ str_nat k0) cap = Some (Inr st')
         \<and> (if fs = [] then st' = st
             else (MAP_REPO_NEW_RELEASE_TAGNAME st' \<noteq> MAP_REPO_NEW_RELEASE_TAGNAME st
                     \<longleftrightarrow> assets d > 0 \<and> int (length fs) + assets d > cap)
                \<and> (if assets d > 0 \<and> int (length fs) + assets d > cap
                    then MAP_REPO_NEW_RELEASE_TAGNAME st' = ''v'' @ str_nat (Suc k)
                         \<and> MAP_REPO_NEW_RELEASE_TAGNAME st \<in> set (releaseList st')
                         \<and> map_of (releasesGeneratedThisRun st')
                             = (map_of (releasesGeneratedThisRun st))(''v'' @ str_nat (Suc k) \<mapsto>
                                  \<lparr>commits = [c], assets = int (length (filter (is_packaged env) fs))\<rparr>)
                    else MAP_REPO_NEW_RELEASE_TAGNAME st' = MAP_REPO_NEW_RELEASE_TAGNAME st
                         \<and> map_of (releasesGeneratedThisRun st')
                             = (map_of (releasesGeneratedThisRun st))(MAP_REPO_NEW_RELEASE_TAGNAME st \<mapsto>
                                  \<lparr>commits = commits d @ [c],
                                   assets = assets d + int (length (filter (is_packaged env) fs))\<rparr>))
                \<and> map_of (archive_files st')
                    = foldl (\<lambda>m f. m((MAP_REPO_NEW_RELEASE_TAGNAME st', packaged_as env f) \<mapsto>
                                       compress_map_folder env f None))
                        (map_of (archive_files st)) (filter (is_packaged env) fs))))
   \<and> (filter is_maps_folder (git_changed_folders env c1) = fs1 \<and> fs1 \<noteq> []
        \<and> (\<forall>f\<in>set fs1. is_packaged env f) \<longrightarrow>
       (\<exists>st1. generate_releases_for_maprepo env [c1] (''v'' @ str_nat k0) cap = Some (Inr st1)
         \<and> MAP_REPO_NEW_RELEASE_TAGNAME st1 = ''v'' @ str_nat (Suc k0)
         \<and> releaseList st1 = [''v'' @ str_nat (Suc k0)]
         \<and> map_of (releasesGeneratedThisRun st1)
             = [''v'' @ str_nat (Suc k0) \<mapsto> \<lparr>commits = [c1], assets = int (length fs1)\<rparr>]
         \<and> dom (map_of (archive_files st1)) = (\<lambda>f. (''v'' @ str_nat (Suc k0), packaged_as env f)) ` set fs1
         \<and> (inj_on (packaged_as env) (set fs1) \<longrightarrow>
              (\<forall>f\<in>set fs1. map_of (archive_files st1) (''v'' @ str_nat (Suc k0), packaged_as env f)
                              = Some (compress_map_folder env f None)))
         \<and> (fs2 \<noteq> [] \<and> filter is_maps_folder (git_changed_folders env c2) = fs2
              \<and> (\<forall>f\<in>set fs2. validator_returns env f) \<longrightarrow>
              (\<exists>st2. generate_releases_for_maprepo env [c1, c2] (''v'' @ str_nat k0) cap = Some (Inr st2)
                 \<and> (if int (length fs2) + int (length fs1) > cap
                     then MAP_REPO_NEW_RELEASE_TAGNAME st2 = ''v'' @ str_nat (Suc (Suc k0))
                          \<and> releaseList st2
                              = (''v'' @ str_nat (Suc k0))
                                # (if filter (is_packaged env) fs2 = [] then [] else [''v'' @ str_nat (Suc (Suc k0))])
                          \<and> map_of (releasesGeneratedThisRun st2)
                              = [''v'' @ str_nat (Suc k0) \<mapsto> \<lparr>commits = [c1], assets = int (length fs1)\<rparr>,
                                 ''v'' @ str_nat (Suc (Suc k0)) \<mapsto>
                                   \<lparr>commits = [c2], assets = int (length (filter (is_packaged env) fs2))\<rparr>]
                          \<and> map_of (archive_files st2)
                              = foldl (\<lambda>m f. m((''v'' @ str_nat (Suc (Suc k0)), packaged_as env f) \<mapsto>
                                                 compress_map_folder env f None))
                                  (map_of (archive_files st1)) (filter (is_packaged env) fs2)
                     else MAP_REPO_NEW_RELEASE_TAGNAME st2 = ''v'' @ str_nat (Suc k0)
                          \<and> releaseList st2 = [''v'' @ str_nat (Suc k0)]
                          \<and> map_of (releasesGeneratedThisRun st2)
                              = [''v'' @ str_nat (Suc k0) \<mapsto>
                                   \<lparr>commits = [c1, c2],
                                    assets = int (length fs1) + int (length (filter (is_packaged env) fs2))\<rparr>]
                          \<and> map_of (archive_files st2)
                              = foldl (\<lambda>m f. m((''v'' @ str_nat (Suc k0), packaged_as env f) \<mapsto>
                                                 compress_map_folder env f None))
                                  (map_of (archive_files st1)) (filter (is_packaged env) fs2))))))"
proof (intro conjI impI)
  show "generate_releases_for_maprepo env [] (''v'' @ str_nat k0) cap
     = Some (Inr \<lparr>releasesGeneratedThisRun = [(''v'' @ str_nat (Suc k0), \<lparr>commits = [], assets = 0\<rparr>)],
                  MAP_REPO_NEW_RELEASE_TAGNAME = ''v'' @ str_nat (Suc k0), releaseList = [],
                  archive_files = [], release_json = [], salts_drawn = 0\<rparr>)"
    by (rule generate_no_commits)
next
  assume "(\<forall>c'\<in>set (cs @ [c]). \<forall>f\<in>set (filter is_maps_folder (git_changed_folders env c')).
           validator_returns env f)
        \<and> filter is_maps_folder (git_changed_folders env c) = fs"
  then have q: "\<forall>c'\<in>set (cs @ [c]). \<forall>f\<in>set (filter is_maps_folder (git_changed_folders env c')).
           validator_returns env f"
    and fs: "filter is_maps_folder (git_changed_folders env c) = fs" by blast+
  show "\<exists>st k d st'.
           generate_releases_for_maprepo env cs (''v'' @ str_nat k0) cap = Some (Inr st)
         \<and> MAP_REPO_NEW_RELEASE_TAGNAME st = ''v'' @ str_nat k
         \<and> map_of (releasesGeneratedThisRun st) (MAP_REPO_NEW_RELEASE_TAGNAME st) = Some d
         \<and> generate_releases_for_maprepo env (cs @ [c]) (''v'' @ str_nat k0) cap = Some (Inr st')
         \<and> (if fs = [] then st' = st
             else (MAP_REPO_NEW_RELEASE_TAGNAME st' \<noteq> MAP_REPO_NEW_RELEASE_TAGNAME st
                     \<longleftrightarrow> assets d > 0 \<and> int (length fs) + assets d > cap)
                \<and> (if assets d > 0 \<and> int (length fs) + assets d > cap
                    then MAP_REPO_NEW_RELEASE_TAGNAME st' = ''v'' @ str_nat (Suc k)
                         \<and> MAP_REPO_NEW_RELEASE_TAGNAME st \<in> set (releaseList st')
                         \<and> map_of (releasesGeneratedThisRun st')
                             = (map_of (releasesGeneratedThisRun st))(''v'' @ str_nat (Suc k) \<mapsto>
                                  \<lparr>commits = [c], assets = int (length (filter (is_packaged env) fs))\<rparr>)
                    else MAP_REPO_NEW_RELEASE_TAGNAME st' = MAP_REPO_NEW_RELEASE_TAGNAME st
                         \<and> map_of (releasesGeneratedThisRun st')
                             = (map_of (releasesGeneratedThisRun st))(MAP_REPO_NEW_RELEASE_TAGNAME st \<mapsto>
                                  \<lparr>commits = commits d @ [c],
                                   assets = assets d + int (length (filter (is_packaged env) fs))\<rparr>))
                \<and> map_of (archive_files st')
                    = foldl (\<lambda>m f. m((MAP_REPO_NEW_RELEASE_TAGNAME st', packaged_as env f) \<mapsto>
                                       compress_map_folder env f None))
                        (map_of (archive_files st)) (filter (is_packaged env) fs))"
    by (rule release_step[OF q fs])
next
  assume "filter is_maps_folder (git_changed_folders env c1) = fs1 \<and> fs1 \<noteq> []
        \<and> (\<forall>f\<in>set fs1. is_packaged env f)"
  then have fs1: "filter is_maps_folder (git_changed_folders env c1) = fs1" "fs1 \<noteq> []"
    and p1: "\<forall>f\<in>set fs1. is_packaged env f" by blast+
  show "\<exists>st1. generate_releases_for_maprepo env [c1] (''v'' @ str_nat k0) cap = Some (Inr st1)
         \<and> MAP_REPO_NEW_RELEASE_TAGNAME st1 = ''v'' @ str_nat (Suc k0)
         \<and> releaseList st1 = [''v'' @ str_nat (Suc k0)]
         \<and> map_of (releasesGeneratedThisRun st1)
             = [''v'' @ str_nat (Suc k0) \<mapsto> \<lparr>commits = [c1], assets = int (length fs1)\<rparr>]
         \<and> dom (map_of (archive_files st1)) = (\<lambda>f. (''v'' @ str_nat (Suc k0), packaged_as env f)) ` set fs1
         \<and> (inj_on (packaged_as env) (set fs1) \<longrightarrow>
              (\<forall>f\<in>set fs1. map_of (archive_files st1) (''v'' @ str_nat (Suc k0), packaged_as env f)
                              = Some (compress_map_folder env f None)))
         \<and> (fs2 \<noteq> [] \<and> filter is_maps_folder (git_changed_folders env c2) = fs2
              \<and> (\<forall>f\<in>set fs2. validator_returns env f) \<longrightarrow>
              (\<exists>st2. generate_releases_for_maprepo env [c1, c2] (''v'' @ str_nat k0) cap = Some (Inr st2)
                 \<and> (if int (length fs2) + int (length fs1) > cap
                     then MAP_REPO_NEW_RELEASE_TAGNAME st2 = ''v'' @ str_nat (Suc (Suc k0))
                          \<and> releaseList st2
                              = (''v'' @ str_nat (Suc k0))
                                # (if filter (is_packaged env) fs2 = [] then [] else [''v'' @ str_nat (Suc (Suc k0))])
                          \<and> map_of (releasesGeneratedThisRun st2)
                              = [''v'' @ str_nat (Suc k0) \<mapsto> \<lparr>commits = [c1], assets = int (length fs1)\<rparr>,
                                 ''v'' @ str_nat (Suc (Suc k0)) \<mapsto>
                                   \<lparr>commits = [c2], assets = int (length (filter (is_packaged env) fs2))\<rparr>]
                          \<and> map_of (archive_files st2)
                              = foldl (\<lambda>m f. m((''v'' @ str_nat (Suc (Suc k0)), packaged_as env f) \<mapsto>
                                                 compress_map_folder env f None))
                                  (map_of (archive_files st1)) (filter (is_packaged env) fs2)
                     else MAP_REPO_NEW_RELEASE_TAGNAME st2 = ''v'' @ str_nat (Suc k0)
                          \<and> releaseList st2 = [''v'' @ str_nat (Suc k0)]
                          \<and> map_of (releasesGeneratedThisRun st2)
                              = [''v'' @ str_nat (Suc k0) \<mapsto>
                                   \<lparr>commits = [c1, c2],
                                    assets = int (length fs1) + int (length (filter (is_packaged env) fs2))\<rparr>]
                          \<and> map_of (archive_files st2)
                              = foldl (\<lambda>m f. m((''v'' @ str_nat (Suc k0), packaged_as env f) \<mapsto>
                                                 compress_map_folder env f None))
                                  (map_of (archive_files st1)) (filter (is_packaged env) fs2))))"
    by (rule first_commits[OF fs1 p1])
qed

text \<open>The example of 150 maps in one commit: \<open>batch_env\<close>.\<close>

lemma validate_named:
  assumes "n \<noteq> []" "length n \<le> 30" "NAME_FORMAT_RE n"
  shows "\<exists>r. validate_map_info sample_licensing sample_today (sample_map_info\<lparr>name := Some n\<rparr>) True
               default_warning_options = Inr r \<and> errors r = []"
proof (cases "length n < 6")
  case True
  with assms show ?thesis
    by (simp add: validator_defs sample_defs date_defs allowed_types_def allowed_tilesets_def
      allowed_levelformats_def allowed_mapformats_def MAX_ALLOWED_AUTHOR_NAME_LENGTH_def
      MAX_ALLOWED_MAP_NAME_LENGTH_def MAX_SUGGESTED_MAP_NAME_LENGTH_def
      hq_iteration_def hq_subscript_def upto_rec1 warn_def)
next
  case False
  with assms show ?thesis
    by (simp add: validator_defs sample_defs date_defs allowed_types_def allowed_tilesets_def
      allowed_levelformats_def allowed_mapformats_def MAX_ALLOWED_AUTHOR_NAME_LENGTH_def
      MAX_ALLOWED_MAP_NAME_LENGTH_def MAX_SUGGESTED_MAP_NAME_LENGTH_def
      hq_iteration_def hq_subscript_def upto_rec1 warn_def)
qed

lemma name_format_chars: "s \<noteq> [] \<Longrightarrow> list_all name_char s \<Longrightarrow> NAME_FORMAT_RE s"
proof -
  assume s: "s \<noteq> []" and a: "list_all name_char s"
  then have "name_char (last s)" by (simp add: list_all_iff)
  then have "last s \<noteq> CHR 0x0A" by (auto simp: name_char_def)
  with s a show ?thesis by (simp add: NAME_FORMAT_RE_def)
qed

lemma digit_name_char: "is_digit c \<Longrightarrow> name_char c"
  by (auto simp: is_digit_def name_char_def)

lemma str_nat_name_chars: "list_all name_char (str_nat i)"
  using str_nat_digits[of i] digit_name_char by (auto simp: list_all_iff)

lemma str_nat_short: "i < 1000 \<Longrightarrow> length (str_nat i) \<le> 3"
proof -
  assume i: "i < 1000"
  have a: "length (str_nat m) = 1" if "m < 10" for m
    using that by (subst str_nat.simps) simp
  have b: "length (str_nat m) \<le> 2" if "m < 100" for m
  proof -
    from that have "m div 10 < 10" by simp
    then show ?thesis by (subst str_nat.simps) (simp add: a)
  qed
  from i have "i div 10 < 100" by simp
  from b[OF this] show ?thesis by (subst str_nat.simps) simp
qed

lemma clean_name_chars: "list_all name_char n \<Longrightarrow> clean_map_name n = n"
  by (induction n) (simp_all add: clean_map_name_def)

lemma batch_folder:
  assumes "i < 1000"
  shows "is_maps_folder (''maps/m'' @ str_nat i)"
    and "is_packaged batch_env (''maps/m'' @ str_nat i)"
    and "packaged_as batch_env (''maps/m'' @ str_nat i) = ''4p-m'' @ str_nat i @ ''.wz''"
proof -
  show "is_maps_folder (''maps/m'' @ str_nat i)" by (simp add: is_maps_folder_def)
  have c: "list_all name_char (''m'' @ str_nat i)"
    using str_nat_name_chars[of i] by (simp add: name_char_def)
  have l: "length (''m'' @ str_nat i) \<le> 30" using str_nat_short[OF assms] by simp
  have "NAME_FORMAT_RE (''m'' @ str_nat i)" by (rule name_format_chars[OF _ c]) simp
  from validate_named[OF _ l this]
  show "is_packaged batch_env (''maps/m'' @ str_nat i)"
    by (auto simp: is_packaged_def batch_env_def)
  have "str_int 4 = ''4''" by (simp add: str_int_def str_nat.simps digit_char_def)
  with clean_name_chars[OF c]
  show "packaged_as batch_env (''maps/m'' @ str_nat i) = ''4p-m'' @ str_nat i @ ''.wz''"
    by (simp add: packaged_as_def batch_env_def sample_keys)
qed

lemma many_folders_length: "length many_folders = 150"
  by (simp add: many_folders_def)

lemma many_folders_member: "f \<in> set many_folders \<longleftrightarrow> (\<exists>i<150. f = ''maps/m'' @ str_nat i)"
  by (auto simp: many_folders_def)

lemma many_folders_packaged: "\<forall>f\<in>set many_folders. is_maps_folder f \<and> is_packaged batch_env f"
  using batch_folder(1,2) by (auto simp: many_folders_member)

lemma many_folders_inj: "inj_on (packaged_as batch_env) (set many_folders)"
proof (rule inj_onI)
  fix x y assume "x \<in> set many_folders" "y \<in> set many_folders"
    and e: "packaged_as batch_env x = packaged_as batch_env y"
  then obtain i j where i: "i < 150" "x = ''maps/m'' @ str_nat i" and j: "j < 150" "y = ''maps/m'' @ str_nat j"
    unfolding many_folders_member by blast
  from i j have "i < 1000" "j < 1000" by simp_all
  from e batch_folder(3)[OF this(1)] batch_folder(3)[OF this(2)] i j
  have "str_nat i = str_nat j" by simp
  then have "i = j" by (rule str_nat_inj)
  with i j show "x = y" by simp
qed

lemma many_folders_distinct: "distinct many_folders"
  unfolding many_folders_def
  by (rule distinct_map[THEN iffD2]) (auto simp: inj_on_def dest: str_nat_inj)

lemma extra_folder:
  "is_maps_folder ''maps/Extra''" "is_packaged batch_env ''maps/Extra''"
  "packaged_as batch_env ''maps/Extra'' = ''4p-Extra.wz''"
proof -
  show "is_maps_folder ''maps/Extra''" by (simp add: is_maps_folder_def)
  have "NAME_FORMAT_RE ''Extra''" by (simp add: NAME_FORMAT_RE_def name_char_def)
  from validate_named[OF _ _ this]
  show "is_packaged batch_env ''maps/Extra''"
    by (auto simp: is_packaged_def batch_env_def)
  show "packaged_as batch_env ''maps/Extra'' = ''4p-Extra.wz''"
    by (simp add: packaged_as_def batch_env_def sample_keys clean_map_name_def name_char_def
        str_int_def str_nat.simps digit_char_def)
qed

lemma batch_changes:
  "filter is_maps_folder (git_changed_folders batch_env ''c1'') = many_folders"
  "filter is_maps_folder (git_changed_folders batch_env ''c2'') = [''maps/Extra'']"
  "filter is_maps_folder (git_changed_folders batch_env ''c3'') = []"
proof -
  have g: "git_changed_folders batch_env = sample_changes" by (simp add: batch_env_def)
  show "filter is_maps_folder (git_changed_folders batch_env ''c1'') = many_folders"
    unfolding g using many_folders_packaged by (simp add: sample_changes_def)
  show "filter is_maps_folder (git_changed_folders batch_env ''c2'') = [''maps/Extra'']"
    unfolding g by (simp add: sample_changes_def is_maps_folder_def)
  show "filter is_maps_folder (git_changed_folders batch_env ''c3'') = []"
    unfolding g by (simp add: sample_changes_def is_maps_folder_def)
qed

lemma batch_returns:
  "\<forall>f\<in>set (filter is_maps_folder (git_changed_folders batch_env c')). validator_returns batch_env f"
proof -
  have g: "git_changed_folders batch_env = sample_changes" by (simp add: batch_env_def)
  have "is_packaged batch_env f"
    if "f \<in> set (sample_changes c')" "is_maps_folder f" for f
    using that many_folders_packaged extra_folder(2)
    by (auto simp: sample_changes_def is_maps_folder_def split: if_splits)
  then show ?thesis unfolding g using is_packaged_returns by auto
qed

lemma tags_012:
  "''v'' @ str_nat 0 = ''v0''" "''v'' @ str_nat (Suc 0) = ''v1''" "''v'' @ str_nat (Suc (Suc 0)) = ''v2''"
  by (simp_all add: str_nat.simps digit_char_def)

theorem release_batching_witness:
  "(\<exists>st1 st2.
       generate_releases_for_maprepo batch_env [''c1''] ''v0'' 100 = Some (Inr st1)
     \<and> MAP_REPO_NEW_RELEASE_TAGNAME st1 = ''v1''
     \<and> releaseList st1 = [''v1'']
     \<and> map_of (releasesGeneratedThisRun st1) = [''v1'' \<mapsto> \<lparr>commits = [''c1''], assets = 150\<rparr>]
     \<and> card (dom (map_of (archive_files st1))) = 150
     \<and> map_of (archive_files st1) (''v1'', ''4p-m149.wz'') = Some (''maps/m149'', None)
     \<and> generate_releases_for_maprepo batch_env [''c1'', ''c2''] ''v0'' 100 = Some (Inr st2)
     \<and> MAP_REPO_NEW_RELEASE_TAGNAME st2 = ''v2''
     \<and> releaseList st2 = [''v1'', ''v2'']
     \<and> map_of (releasesGeneratedThisRun st2)
         = [''v1'' \<mapsto> \<lparr>commits = [''c1''], assets = 150\<rparr>,
            ''v2'' \<mapsto> \<lparr>commits = [''c2''], assets = 1\<rparr>]
     \<and> map_of (archive_files st2)
         = (map_of (archive_files st1))((''v2'', ''4p-Extra.wz'') \<mapsto> (''maps/Extra'', None))
     \<and> generate_releases_for_maprepo batch_env [''c1'', ''c2'', ''c3''] ''v0'' 100 = Some (Inr st2))
   \<and> (\<exists>st2. generate_releases_for_maprepo batch_env [''c1'', ''c2''] ''v0'' 200 = Some (Inr st2)
     \<and> MAP_REPO_NEW_RELEASE_TAGNAME st2 = ''v1''
     \<and> releaseList st2 = [''v1'']
     \<and> map_of (releasesGeneratedThisRun st2) = [''v1'' \<mapsto> \<lparr>commits = [''c1'', ''c2''], assets = 151\<rparr>])"
proof -
  have ne: "many_folders \<noteq> []" using many_folders_length by auto
  have p1: "\<forall>f\<in>set many_folders. is_packaged batch_env f" using many_folders_packaged by blast
  have h1: "filter is_maps_folder (git_changed_folders batch_env ''c1'') = many_folders \<and> many_folders \<noteq> []
        \<and> (\<forall>f\<in>set many_folders. is_packaged batch_env f)"
    using batch_changes(1) ne p1 by blast
  have h2: "[''maps/Extra''] \<noteq> [] \<and> filter is_maps_folder (git_changed_folders batch_env ''c2'') = [''maps/Extra'']
          \<and> (\<forall>f\<in>set [''maps/Extra'']. validator_returns batch_env f)"
    using batch_changes(2) is_packaged_returns[OF extra_folder(2)] by simp
  have h3: "(\<forall>c'\<in>set ([''c1'', ''c2''] @ [''c3'']). \<forall>f\<in>set (filter is_maps_folder (git_changed_folders batch_env c')).
           validator_returns batch_env f)
        \<and> filter is_maps_folder (git_changed_folders batch_env ''c3'') = []"
    using batch_returns batch_changes(3) by blast
  have x: "filter (is_packaged batch_env) [''maps/Extra''] = [''maps/Extra'']"
    using extra_folder(2) by simp
  have m149: "''maps/m149'' \<in> set many_folders" "packaged_as batch_env ''maps/m149'' = ''4p-m149.wz''"
  proof -
    have e: "''maps/m'' @ str_nat 149 = ''maps/m149''" by (simp add: str_nat.simps digit_char_def)
    have "''maps/m'' @ str_nat 149 \<in> set many_folders" unfolding many_folders_member by (intro exI[of _ 149]) simp
    then show "''maps/m149'' \<in> set many_folders" unfolding e .
    have "(149::nat) < 1000" by simp
    from batch_folder(3)[OF this] show "packaged_as batch_env ''maps/m149'' = ''4p-m149.wz''"
      by (simp add: str_nat.simps digit_char_def)
  qed
  have cmp: "compress_map_folder batch_env f None = (f, None)" for f
    by (simp add: batch_env_def)
  have c150: "card ((\<lambda>f. (''v1'', packaged_as batch_env f)) ` set many_folders) = 150"
  proof -
    have "inj_on (\<lambda>f. (''v1'', packaged_as batch_env f)) (set many_folders)"
      using many_folders_inj by (simp add: inj_on_def)
    then have "card ((\<lambda>f. (''v1'', packaged_as batch_env f)) ` set many_folders) = card (set many_folders)"
      by (rule card_image)
    also have "\<dots> = length many_folders" using many_folders_distinct by (rule distinct_card)
    finally show ?thesis unfolding many_folders_length .
  qed
  note T = release_batching[where env = batch_env and ?k0.0 = 0 and cs = "[''c1'', ''c2'']" and c = "''c3''"
      and fs = "[]" and ?c1.0 = "''c1''" and ?fs1.0 = many_folders and ?c2.0 = "''c2''"
      and ?fs2.0 = "[''maps/Extra'']", unfolded tags_012 many_folders_length x]
  from T[of 100, THEN conjunct2, THEN conjunct2, THEN mp, OF h1] obtain st1 where
    g1: "generate_releases_for_maprepo batch_env [''c1''] ''v0'' 100 = Some (Inr st1)"
    and t1: "MAP_REPO_NEW_RELEASE_TAGNAME st1 = ''v1''"
    and l1: "releaseList st1 = [''v1'']"
    and r1: "map_of (releasesGeneratedThisRun st1) = [''v1'' \<mapsto> \<lparr>commits = [''c1''], assets = 150\<rparr>]"
    and d1: "dom (map_of (archive_files st1)) = (\<lambda>f. (''v1'', packaged_as batch_env f)) ` set many_folders"
    and a1: "inj_on (packaged_as batch_env) (set many_folders) \<longrightarrow>
          (\<forall>f\<in>set many_folders. map_of (archive_files st1) (''v1'', packaged_as batch_env f)
                          = Some (compress_map_folder batch_env f None))"
    and s1: "[''maps/Extra''] \<noteq> [] \<and> filter is_maps_folder (git_changed_folders batch_env ''c2'') = [''maps/Extra'']
          \<and> (\<forall>f\<in>set [''maps/Extra'']. validator_returns batch_env f) \<longrightarrow>
          (\<exists>st2. generate_releases_for_maprepo batch_env [''c1'', ''c2''] ''v0'' 100 = Some (Inr st2)
             \<and> MAP_REPO_NEW_RELEASE_TAGNAME st2 = ''v2''
             \<and> releaseList st2 = [''v1'', ''v2'']
             \<and> map_of (releasesGeneratedThisRun st2)
                 = [''v1'' \<mapsto> \<lparr>commits = [''c1''], assets = 150\<rparr>,
                    ''v2'' \<mapsto> \<lparr>commits = [''c2''], assets = 1\<rparr>]
             \<and> map_of (archive_files st2)
                 = foldl (\<lambda>m f. m((''v2'', packaged_as batch_env f) \<mapsto> compress_map_folder batch_env f None))
                     (map_of (archive_files st1)) [''maps/Extra''])"
    by auto
  from s1[THEN mp, OF h2] obtain st2 where
    g2: "generate_releases_for_maprepo batch_env [''c1'', ''c2''] ''v0'' 100 = Some (Inr st2)"
    and t2: "MAP_REPO_NEW_RELEASE_TAGNAME st2 = ''v2''"
    and l2: "releaseList st2 = [''v1'', ''v2'']"
    and r2: "map_of (releasesGeneratedThisRun st2)
                 = [''v1'' \<mapsto> \<lparr>commits = [''c1''], assets = 150\<rparr>,
                    ''v2'' \<mapsto> \<lparr>commits = [''c2''], assets = 1\<rparr>]"
    and a2: "map_of (archive_files st2)
                 = foldl (\<lambda>m f. m((''v2'', packaged_as batch_env f) \<mapsto> compress_map_folder batch_env f None))
                     (map_of (archive_files st1)) [''maps/Extra'']"
    by blast
  have a2': "map_of (archive_files st2)
         = (map_of (archive_files st1))((''v2'', ''4p-Extra.wz'') \<mapsto> (''maps/Extra'', None))"
    unfolding a2 by (simp add: extra_folder(3) cmp)
  have k1: "card (dom (map_of (archive_files st1))) = 150" unfolding d1 by (rule c150)
  from a1 many_folders_inj m149(1)
  have "map_of (archive_files st1) (''v1'', packaged_as batch_env ''maps/m149'')
        = Some (compress_map_folder batch_env ''maps/m149'' None)" by blast
  then have k2: "map_of (archive_files st1) (''v1'', ''4p-m149.wz'') = Some (''maps/m149'', None)"
    unfolding m149(2) cmp .
  from T[of 100, THEN conjunct2, THEN conjunct1, THEN mp, OF h3] g2
  have g3: "generate_releases_for_maprepo batch_env [''c1'', ''c2'', ''c3''] ''v0'' 100 = Some (Inr st2)"
    by auto
  from T[of 200, THEN conjunct2, THEN conjunct2, THEN mp, OF h1] obtain st1' where
    s1': "[''maps/Extra''] \<noteq> [] \<and> filter is_maps_folder (git_changed_folders batch_env ''c2'') = [''maps/Extra'']
          \<and> (\<forall>f\<in>set [''maps/Extra'']. validator_returns batch_env f) \<longrightarrow>
          (\<exists>st2. generate_releases_for_maprepo batch_env [''c1'', ''c2''] ''v0'' 200 = Some (Inr st2)
             \<and> MAP_REPO_NEW_RELEASE_TAGNAME st2 = ''v1''
             \<and> releaseList st2 = [''v1'']
             \<and> map_of (releasesGeneratedThisRun st2)
                 = [''v1'' \<mapsto> \<lparr>commits = [''c1'', ''c2''], assets = 151\<rparr>])"
    by auto
  from s1'[THEN mp, OF h2] obtain st2' where
    g2': "generate_releases_for_maprepo batch_env [''c1'', ''c2''] ''v0'' 200 = Some (Inr st2')"
    and t2': "MAP_REPO_NEW_RELEASE_TAGNAME st2' = ''v1''"
    and l2': "releaseList st2' = [''v1'']"
    and r2': "map_of (releasesGeneratedThisRun st2')
                 = [''v1'' \<mapsto> \<lparr>commits = [''c1'', ''c2''], assets = 151\<rparr>]"
    by blast
  show ?thesis
  proof (intro conjI exI)
    show "generate_releases_for_maprepo batch_env [''c1''] ''v0'' 100 = Some (Inr st1)" by (rule g1)
    show "MAP_REPO_NEW_RELEASE_TAGNAME st1 = ''v1''" by (rule t1)
    show "releaseList st1 = [''v1'']" by (rule l1)
    show "map_of (releasesGeneratedThisRun st1) = [''v1'' \<mapsto> \<lparr>commits = [''c1''], assets = 150\<rparr>]" by (rule r1)
    show "card (dom (map_of (archive_files st1))) = 150" by (rule k1)
    show "map_of (archive_files st1) (''v1'', ''4p-m149.wz'') = Some (''maps/m149'', None)" by (rule k2)
    show "generate_releases_for_maprepo batch_env [''c1'', ''c2''] ''v0'' 100 = Some (Inr st2)" by (rule g2)
    show "MAP_REPO_NEW_RELEASE_TAGNAME st2 = ''v2''" by (rule t2)
    show "releaseList st2 = [''v1'', ''v2'']" by (rule l2)
    show "map_of (releasesGeneratedThisRun st2)
         = [''v1'' \<mapsto> \<lparr>commits = [''c1''], assets = 150\<rparr>,
            ''v2'' \<mapsto> \<lparr>commits = [''c2''], assets = 1\<rparr>]" by (rule r2)
    show "map_of (archive_files st2)
         = (map_of (archive_files st1))((''v2'', ''4p-Extra.wz'') \<mapsto> (''maps/Extra'', None))" by (rule a2')
    show "generate_releases_for_maprepo batch_env [''c1'', ''c2'', ''c3''] ''v0'' 100 = Some (Inr st2)" by (rule g3)
    show "generate_releases_for_maprepo batch_env [''c1'', ''c2''] ''v0'' 200 = Some (Inr st2')" by (rule g2')
    show "MAP_REPO_NEW_RELEASE_TAGNAME st2' = ''v1''" by (rule t2')
    show "releaseList st2' = [''v1'']" by (rule l2')
    show "map_of (releasesGeneratedThisRun st2')
           = [''v1'' \<mapsto> \<lparr>commits = [''c1'', ''c2''], assets = 151\<rparr>]" by (rule r2')
  qed
qed

section \<open>Validation of a list of maps\<close>

lemma validate_good_map:
  "validate_map sample_validate_env ''maps/Rush_Remake'' False True (Some 4) default_warning_options
   = Inr \<lparr>details_map_info_json = sample_map_info,
          info_validation_result = \<lparr>warnings = [], errors = [], errors_non_fatal = [], passedFormatChecks = True\<rparr>,
          name_conflict = False, mapdir_folder_name_mismatch = False, players_count_mismatch = False,
          details_enforce_format_checks = True\<rparr>"
  by (simp add: validate_map_def sample_validate_env_def validate_sample sample_keys
      and_then_def subscript_def)

lemma validate_broken_map:
  "validate_map sample_validate_env ''maps/Broken'' False True (Some 4) default_warning_options
   = Inl FailedToProcessMapError"
  by (simp add: validate_map_def sample_validate_env_def)

text \<open>Whatever is in \<open>maps_failed_processing\<close>, the value returned is 0 when every validated map passed.\<close>

lemma exit_code_ignores_unprocessable:
  "validate_paths env check_for_name_conflict expected_players_count map_path_list [] [] = Inr (vd, mf)
   \<Longrightarrow> vd \<noteq> [] \<Longrightarrow> \<forall>(k, v)\<in>set vd. passed_validation v
   \<Longrightarrow> validate_repo_map_list env map_path_list check_for_name_conflict expected_players_count = Inr 0"
  by (auto simp: validate_repo_map_list_def and_then_def filter_empty_conv)

text \<open>
  C9. The exit code of the map-list command is to be 0 exactly when at least one map was
  validated and every map passed, a map that could not be processed counting as a failure.
  For a list with the sample map, which passes, and a folder on which the inspection tool
  fails, \<open>validate_repo_map_list\<close> returns 0, and \<open>main\<close> exits with it: the folder is
  entered in \<open>maps_failed_processing\<close>, which the returned value does not look at. The
  report printed for the same two dictionaries says \<open>FAILED\<close>:
  \<open>print_multi_map_validation_details\<close> returns 1, and the caller drops that value.
\<close>

theorem unprocessable_map_exit_code:
  "map_sum id (\<lambda>(validation_details, maps_failed_processing).
       (map (\<lambda>(k, v). (k, get_status_list v)) validation_details, maps_failed_processing,
        print_multi_map_validation_details validation_details maps_failed_processing))
     (validate_paths sample_validate_env False (Some 4) [''maps/Rush_Remake'', ''maps/Broken''] [] [])
   = Inr ([(''maps/Rush_Remake'', [''Pass''])], [(''maps/Broken'', FailedToProcessMapError)], 1)
   \<and> validate_repo_map_list sample_validate_env [''maps/Rush_Remake'', ''maps/Broken''] False (Some 4) = Inr 0"
proof -
  have e: "path_exists sample_validate_env ''maps/Rush_Remake''" "path_exists sample_validate_env ''maps/Broken''"
    by (simp_all add: sample_validate_env_def)
  have p: "validate_paths sample_validate_env False (Some 4) [''maps/Rush_Remake'', ''maps/Broken''] [] []
      = Inr ([(''maps/Rush_Remake'',
               \<lparr>details_map_info_json = sample_map_info,
                info_validation_result = \<lparr>warnings = [], errors = [], errors_non_fatal = [], passedFormatChecks = True\<rparr>,
                name_conflict = False, mapdir_folder_name_mismatch = False, players_count_mismatch = False,
                details_enforce_format_checks = True\<rparr>)],
             [(''maps/Broken'', FailedToProcessMapError)])"
    by (simp add: e validate_good_map validate_broken_map)
  have s: "get_status_list \<lparr>details_map_info_json = sample_map_info,
                info_validation_result = \<lparr>warnings = [], errors = [], errors_non_fatal = [], passedFormatChecks = True\<rparr>,
                name_conflict = False, mapdir_folder_name_mismatch = False, players_count_mismatch = False,
                details_enforce_format_checks = True\<rparr> = [''Pass'']"
    by (simp add: get_status_list_def needs_format_conversion_def)
  have r: "validate_repo_map_list sample_validate_env [''maps/Rush_Remake'', ''maps/Broken''] False (Some 4) = Inr 0"
    unfolding validate_repo_map_list_def p
    by (simp add: s passed_validation_def and_then_def)
  show ?thesis
    unfolding p r
    by (simp add: s print_multi_map_validation_details_def passed_validation_def)
qed


end
